(* ===== verification/Prelude.thy ===== *)
theory Prelude
  imports Main "HOL-Library.Word"
begin

text \<open>
  Shared vocabulary of the development: the Rust types the sources use, results with
  error values and panics, fixed-width byte encodings, checked and saturating machine
  arithmetic, and the generic list and word facts the component theories build on.
\<close>

unbundle bit_operations_syntax

section \<open>Rust types\<close>

text \<open>
  Unsigned machine integers are words of their width. \<open>usize\<close> is \<open>nat\<close>: it counts
  in-memory collections, and where a size comes from a file or the command line its
  arithmetic is written modulo \<open>2^64\<close>. \<open>i64\<close> is \<open>int\<close>, with the range written out wherever the source
  checks it. A Rust \<open>String\<close> or \<open>&str\<close> is its UTF-8 byte sequence. Fixed arrays such as
  \<open>[u8; 32]\<close> are byte lists whose length the operations keep.
\<close>

type_synonym u8 = "8 word"
type_synonym u16 = "16 word"
type_synonym u32 = "32 word"
type_synonym u64 = "64 word"
type_synonym u128 = "128 word"
type_synonym usize = nat
type_synonym i64 = int
type_synonym bytes = "8 word list"
type_synonym rstring = "8 word list"

text \<open>
  The external hash function: \<open>xof b n\<close> is the first \<open>n\<close> bytes of the extendable output of
  BLAKE3 on input \<open>b\<close>. It is a parameter of every definition that hashes.
\<close>

type_synonym xof = "8 word list \<Rightarrow> nat \<Rightarrow> 8 word list"

text \<open>An ASCII literal of the source as bytes.\<close>

definition ascii :: "string \<Rightarrow> bytes" where
  "ascii s = map of_char s"

lemma length_ascii [simp]: "length (ascii s) = length s"
  by (simp add: ascii_def)

section \<open>Results, errors and panics\<close>

text \<open>
  A Rust function that returns \<open>Result\<close> ends in \<open>Ok\<close> or \<open>Err\<close>; an index out of range or
  a failed \<open>expect\<close> ends in \<open>Panic\<close>. \<open>and_then\<close> is the source's question-mark operator.
\<close>

datatype ('a, 'e) res = is_Ok: Ok 'a | Err 'e | Panic

fun and_then :: "('a, 'e) res \<Rightarrow> ('a \<Rightarrow> ('b, 'e) res) \<Rightarrow> ('b, 'e) res" where
  "and_then (Ok a) f = f a"
| "and_then (Err e) f = Err e"
| "and_then Panic f = Panic"

fun map_err :: "('e \<Rightarrow> 'f) \<Rightarrow> ('a, 'e) res \<Rightarrow> ('a, 'f) res" where
  "map_err g (Ok a) = Ok a"
| "map_err g (Err e) = Err (g e)"
| "map_err g Panic = Panic"

definition expect :: "'a option \<Rightarrow> ('a, 'e) res" where
  "expect x = (case x of None \<Rightarrow> Panic | Some a \<Rightarrow> Ok a)"

definition ok_or :: "'e \<Rightarrow> 'a option \<Rightarrow> ('a, 'e) res" where
  "ok_or e x = (case x of None \<Rightarrow> Err e | Some a \<Rightarrow> Ok a)"

lemma expect_simps [simp]: "expect (Some a) = Ok a" "expect None = Panic"
  by (simp_all add: expect_def)

lemma ok_or_simps [simp]: "ok_or e (Some a) = Ok a" "ok_or e None = Err e"
  by (simp_all add: ok_or_def)

lemma and_then_Ok_iff:
  "and_then m f = Ok b \<longleftrightarrow> (\<exists>a. m = Ok a \<and> f a = Ok b)"
  by (cases m) auto

lemma and_then_Err_iff:
  "and_then m f = Err e \<longleftrightarrow> m = Err e \<or> (\<exists>a. m = Ok a \<and> f a = Err e)"
  by (cases m) auto

lemma and_then_no_panic: "m \<noteq> Panic \<Longrightarrow> (\<And>a. m = Ok a \<Longrightarrow> f a \<noteq> Panic) \<Longrightarrow> and_then m f \<noteq> Panic"
  by (cases m) auto

lemma map_err_Ok_iff [simp]: "map_err g m = Ok a \<longleftrightarrow> m = Ok a"
  by (cases m) auto

lemma map_err_Err_iff: "map_err g m = Err f \<longleftrightarrow> (\<exists>e. m = Err e \<and> f = g e)"
  by (cases m) auto

lemma ok_or_Ok_iff [simp]: "ok_or e x = Ok a \<longleftrightarrow> x = Some a"
  by (cases x) auto

section \<open>Fixed-width byte encodings\<close>

text \<open>
  \<open>le_bytes n v\<close> and \<open>be_bytes n v\<close> are the \<open>n\<close> bytes of \<open>v\<close> modulo \<open>256 ^ n\<close>
  (\<open>to_le_bytes\<close>, \<open>to_be_bytes\<close>); \<open>le_nat\<close> and \<open>be_nat\<close> read them back
  (\<open>from_le_bytes\<close>, \<open>from_be_bytes\<close>).
\<close>

fun le_bytes :: "nat \<Rightarrow> nat \<Rightarrow> bytes" where
  "le_bytes 0 v = []"
| "le_bytes (Suc n) v = of_nat v # le_bytes n (v div 256)"

fun le_nat :: "bytes \<Rightarrow> nat" where
  "le_nat [] = 0"
| "le_nat (b # bs) = unat b + 256 * le_nat bs"

definition be_bytes :: "nat \<Rightarrow> nat \<Rightarrow> bytes" where
  "be_bytes n v = rev (le_bytes n v)"

definition be_nat :: "bytes \<Rightarrow> nat" where
  "be_nat bs = le_nat (rev bs)"

lemma length_le_bytes [simp]: "length (le_bytes n v) = n"
  by (induction n arbitrary: v) auto

lemma length_be_bytes [simp]: "length (be_bytes n v) = n"
  by (simp add: be_bytes_def)

lemma unat_bound: "unat (w :: 'a::len word) < 2 ^ LENGTH('a)"
  by (rule unsigned_less)

lemma unat_of_nat_8: "unat (of_nat v :: 8 word) = v mod 256"
  by (simp add: unat_of_nat)

lemma of_nat_low_byte: "of_nat (s + 256 * n) = (of_nat (s mod 256) :: 8 word)"
  by (rule word_unat_eq_iff [THEN iffD2]) (simp only: unat_of_nat_8 mod_mult_self2 mod_mod_trivial)

lemma unat_u8_less [simp]: "unat (b :: 8 word) < 256"
  using unat_bound [of b] by simp

lemma unat_u8_le: "unat (b :: 8 word) \<le> 255"
  using unat_u8_less [of b] by linarith

lemma mod_256_step:
  "v mod 256 + 256 * (v div 256 mod 256 ^ n) = v mod (256 * 256 ^ n)" for v :: nat
  by (simp add: mod_mult2_eq)

lemma le_nat_le_bytes: "le_nat (le_bytes n v) = v mod 256 ^ n"
proof (induction n arbitrary: v)
  case 0
  then show ?case by simp
next
  case (Suc n)
  have "le_nat (le_bytes (Suc n) v) = v mod 256 + 256 * (v div 256 mod 256 ^ n)"
    using Suc.IH by (simp add: unat_of_nat_8)
  then show ?case by (simp only: mod_256_step power_Suc)
qed

lemma le_nat_bound: "le_nat bs < 256 ^ length bs"
proof (induction bs)
  case Nil
  then show ?case by simp
next
  case (Cons b bs)
  have "unat b + 256 * le_nat bs < 256 + 256 * le_nat bs"
    using unat_u8_less [of b] by linarith
  also have "\<dots> = 256 * Suc (le_nat bs)" by simp
  also have "\<dots> \<le> 256 * 256 ^ length bs"
    using Cons.IH by (intro mult_le_mono) auto
  finally show ?case by simp
qed

lemma le_bytes_le_nat: "le_bytes (length bs) (le_nat bs) = bs"
proof (induction bs)
  case Nil
  then show ?case by simp
next
  case (Cons b bs)
  have "of_nat (unat b + 256 * le_nat bs) = b"
    by (rule word_unat_eq_iff [THEN iffD2]) (simp del: of_nat_add of_nat_mult add: unat_of_nat)
  moreover have "(unat b + 256 * le_nat bs) div 256 = le_nat bs"
    using unat_u8_less [of b] by simp
  ultimately show ?case using Cons.IH by simp
qed

lemma le_nat_inject:
  "length xs = length ys \<Longrightarrow> le_nat xs = le_nat ys \<longleftrightarrow> xs = ys"
  by (metis le_bytes_le_nat)

lemma be_nat_be_bytes: "be_nat (be_bytes n v) = v mod 256 ^ n"
  by (simp add: be_nat_def be_bytes_def le_nat_le_bytes)

lemma be_bytes_inject:
  "v < 256 ^ n \<Longrightarrow> w < 256 ^ n \<Longrightarrow> be_bytes n v = be_bytes n w \<longleftrightarrow> v = w"
  by (metis be_nat_be_bytes mod_less)

lemma le_bytes_inject:
  "v < 256 ^ n \<Longrightarrow> w < 256 ^ n \<Longrightarrow> le_bytes n v = le_bytes n w \<longleftrightarrow> v = w"
  by (metis le_nat_le_bytes mod_less)

lemma le_nat_append: "le_nat (xs @ ys) = le_nat xs + 256 ^ length xs * le_nat ys"
  by (induction xs) (simp_all add: algebra_simps)

lemma le_nat_replicate_0 [simp]: "le_nat (replicate n 0) = 0"
  by (induction n) auto

subsection \<open>Machine integers as bytes\<close>

definition u16_le :: "u16 \<Rightarrow> bytes" where "u16_le w = le_bytes 2 (unat w)"
definition u32_le :: "u32 \<Rightarrow> bytes" where "u32_le w = le_bytes 4 (unat w)"
definition u64_le :: "u64 \<Rightarrow> bytes" where "u64_le w = le_bytes 8 (unat w)"
definition u128_le :: "u128 \<Rightarrow> bytes" where "u128_le w = le_bytes 16 (unat w)"
definition u16_be :: "u16 \<Rightarrow> bytes" where "u16_be w = be_bytes 2 (unat w)"
definition u32_be :: "u32 \<Rightarrow> bytes" where "u32_be w = be_bytes 4 (unat w)"
definition u64_be :: "u64 \<Rightarrow> bytes" where "u64_be w = be_bytes 8 (unat w)"
definition u128_be :: "u128 \<Rightarrow> bytes" where "u128_be w = be_bytes 16 (unat w)"

text \<open>An \<open>i64\<close> is written as its 64-bit two's complement, big-endian.\<close>

definition i64_be :: "i64 \<Rightarrow> bytes" where "i64_be v = u64_be (of_int v)"

definition u64_from_le :: "bytes \<Rightarrow> u64" where "u64_from_le bs = of_nat (le_nat bs)"
definition u128_from_le :: "bytes \<Rightarrow> u128" where "u128_from_le bs = of_nat (le_nat bs)"
definition u16_from_le :: "bytes \<Rightarrow> u16" where "u16_from_le bs = of_nat (le_nat bs)"
definition u16_from_be :: "bytes \<Rightarrow> u16" where "u16_from_be bs = of_nat (be_nat bs)"
definition u32_from_be :: "bytes \<Rightarrow> u32" where "u32_from_be bs = of_nat (be_nat bs)"
definition u64_from_be :: "bytes \<Rightarrow> u64" where "u64_from_be bs = of_nat (be_nat bs)"
definition i64_from_be :: "bytes \<Rightarrow> i64" where "i64_from_be bs = sint (u64_from_be bs)"

lemmas int_bytes_defs =
  u16_le_def u32_le_def u64_le_def u128_le_def u16_be_def u32_be_def u64_be_def u128_be_def
  i64_be_def

lemma length_int_bytes [simp]:
  "length (u16_le a) = 2" "length (u32_le b) = 4" "length (u64_le c) = 8" "length (u128_le d) = 16"
  "length (u16_be a) = 2" "length (u32_be b) = 4" "length (u64_be c) = 8" "length (u128_be d) = 16"
  "length (i64_be v) = 8"
  by (simp_all add: int_bytes_defs)

lemma unat_mod_width:
  "unat (a :: u16) mod 65536 = unat a" "unat (b :: u32) mod 4294967296 = unat b"
  "unat (c :: u64) mod 18446744073709551616 = unat c"
  "unat (d :: u128) mod 340282366920938463463374607431768211456 = unat d"
  using unat_bound [of a] unat_bound [of b] unat_bound [of c] unat_bound [of d] by simp_all

lemma from_to_bytes [simp]:
  "u16_from_le (u16_le a) = a" "u64_from_le (u64_le c) = c" "u128_from_le (u128_le d) = d"
  "u16_from_be (u16_be a) = a" "u32_from_be (u32_be b) = b" "u64_from_be (u64_be c) = c"
  by (simp_all add: int_bytes_defs u16_from_le_def u64_from_le_def u128_from_le_def
      u16_from_be_def u32_from_be_def u64_from_be_def le_nat_le_bytes be_nat_be_bytes
      unat_mod_width)

lemma u64_le_inject [simp]: "u64_le a = u64_le b \<longleftrightarrow> a = b"
  by (metis from_to_bytes(2))

lemma u128_le_inject [simp]: "u128_le a = u128_le b \<longleftrightarrow> a = b"
  by (metis from_to_bytes(3))

lemma u32_be_inject [simp]: "u32_be a = u32_be b \<longleftrightarrow> a = b"
  by (metis from_to_bytes(5))

lemma u64_be_inject [simp]: "u64_be a = u64_be b \<longleftrightarrow> a = b"
  by (metis from_to_bytes(6))

lemma u32_le_inject [simp]: "u32_le a = u32_le b \<longleftrightarrow> a = b"
proof -
  have "unat a < 256 ^ 4" "unat b < 256 ^ 4"
    using unat_bound [of a] unat_bound [of b] by simp_all
  then show ?thesis by (simp add: u32_le_def le_bytes_inject word_unat_eq_iff)
qed

lemma u128_be_inject [simp]: "u128_be a = u128_be b \<longleftrightarrow> a = b"
proof -
  have "unat a < 256 ^ 16" "unat b < 256 ^ 16"
    using unat_bound [of a] unat_bound [of b] by simp_all
  then show ?thesis by (simp add: u128_be_def be_bytes_inject word_unat_eq_iff)
qed

section \<open>The top bit of a byte\<close>

lemma u8_eq_iff: "v = w \<longleftrightarrow> (\<forall>n < 8. bit v n \<longleftrightarrow> bit w n)" for v w :: u8
  by (auto intro: bit_word_eqI)

lemma flag_bits: "bit (128 :: u8) n \<longleftrightarrow> n = 7" "bit (127 :: u8) n \<longleftrightarrow> n < 7"
proof -
  have "(128 :: u8) = 2 ^ 7" "(127 :: u8) = mask 7" by (simp_all add: mask_eq_exp_minus_1)
  then show "bit (128 :: u8) n \<longleftrightarrow> n = 7" "bit (127 :: u8) n \<longleftrightarrow> n < 7"
    by (auto simp only: bit_exp_iff bit_mask_iff possible_bit_word) simp_all
qed

lemma low7: "unat (t AND 127) = unat t mod 128" for t :: u8
proof -
  have "t AND 127 = take_bit 7 t" by (simp add: take_bit_eq_mask mask_eq_exp_minus_1)
  then show ?thesis by (simp add: unsigned_take_bit_eq take_bit_nat_def)
qed

lemma top_bit: "t AND 128 \<noteq> 0 \<longleftrightarrow> 128 \<le> unat t" for t :: u8
proof -
  have "t AND 128 \<noteq> 0 \<longleftrightarrow> bit t 7"
    by (auto simp: u8_eq_iff bit_and_iff flag_bits simp del: bit_numeral_word_iff)
  also have "bit t 7 \<longleftrightarrow> odd (unat t div 128)"
  proof -
    have "bit t 7 \<longleftrightarrow> bit (unat t) 7" by (simp add: bit_unsigned_iff)
    then show ?thesis by (simp add: bit_iff_odd)
  qed
  also have "\<dots> \<longleftrightarrow> 128 \<le> unat t"
  proof -
    have "unat t div 128 = (if 128 \<le> unat t then 1 else 0)"
      using unat_u8_le [of t] by (simp add: div_nat_eqI)
    then show ?thesis by simp
  qed
  finally show ?thesis .
qed

lemma set_top: "unat (t OR 128) = unat t mod 128 + 128" for t :: u8
proof -
  have "t OR 128 = (t AND 127) + 128"
    by (subst disjunctive_add) (auto simp: u8_eq_iff bit_and_iff bit_or_iff flag_bits simp del: bit_numeral_word_iff dest: bit_imp_le_length)
  then show ?thesis
    using low7 [of t] by (simp add: unat_word_ariths)
qed

section \<open>Length-prefixed encodings\<close>

definition small :: "'a list \<Rightarrow> bool" where "small b \<longleftrightarrow> length b < 2 ^ 32"

lemma length_prefix_inject:
  "small a \<Longrightarrow> small b \<Longrightarrow> (of_nat (length a) :: u32) = of_nat (length b) \<longleftrightarrow> length a = length b"
  by (simp add: small_def word_unat_eq_iff unat_of_nat)

text \<open>A list of items whose encoding tells where it ends can be read back.\<close>

lemma concat_map_inject:
  assumes "length xs = length ys"
    and "\<And>x y r s. x \<in> set xs \<Longrightarrow> y \<in> set ys \<Longrightarrow> enc x @ r = enc y @ s \<longleftrightarrow> x = y \<and> r = s"
  shows "concat (map enc xs) @ r = concat (map enc ys) @ s \<longleftrightarrow> xs = ys \<and> r = s"
  using assms
  by (induction xs ys arbitrary: r s rule: list_induct2) (auto simp del: append_eq_append_conv)

section \<open>Checked and saturating arithmetic\<close>

definition checked_add :: "'a::len word \<Rightarrow> 'a word \<Rightarrow> 'a word option" where
  "checked_add a b = (if unat a + unat b < 2 ^ LENGTH('a) then Some (a + b) else None)"

definition saturating_add :: "'a::len word \<Rightarrow> 'a word \<Rightarrow> 'a word" where
  "saturating_add a b = (if unat a + unat b < 2 ^ LENGTH('a) then a + b else - 1)"

definition saturating_sub :: "'a::len word \<Rightarrow> 'a word \<Rightarrow> 'a word" where
  "saturating_sub a b = (if a < b then 0 else a - b)"

text \<open>\<open>usize\<close> saturates at sixty-four bits.\<close>

definition saturating_mul_usize :: "usize \<Rightarrow> usize \<Rightarrow> usize" where
  "saturating_mul_usize a b = min (a * b) (2 ^ 64 - 1)"

definition i64_min :: int where "i64_min = - (2 ^ 63)"
definition i64_max :: int where "i64_max = 2 ^ 63 - 1"

definition i64_ok :: "int \<Rightarrow> bool" where
  "i64_ok v \<longleftrightarrow> i64_min \<le> v \<and> v \<le> i64_max"

definition checked_add_i64 :: "i64 \<Rightarrow> i64 \<Rightarrow> i64 option" where
  "checked_add_i64 a b = (if i64_ok (a + b) then Some (a + b) else None)"

definition checked_sub_i64 :: "i64 \<Rightarrow> i64 \<Rightarrow> i64 option" where
  "checked_sub_i64 a b = (if i64_ok (a - b) then Some (a - b) else None)"

lemma unat_plus_no_overflow:
  "unat a + unat b < 2 ^ LENGTH('a) \<Longrightarrow> unat (a + b) = unat a + unat (b :: 'a::len word)"
  by (simp add: unat_word_ariths)

lemma checked_add_Some:
  "checked_add a b = Some c \<Longrightarrow> unat c = unat a + unat b \<and> c = a + b"
  by (auto simp: checked_add_def unat_plus_no_overflow split: if_splits)

lemma checked_add_None:
  "checked_add a b = None \<longleftrightarrow> 2 ^ LENGTH('a) \<le> unat a + unat (b :: 'a::len word)"
  by (auto simp: checked_add_def split: if_splits)

lemma unat_saturating_add:
  "unat (saturating_add a b) = min (unat a + unat b) (2 ^ LENGTH('a) - 1)" for a :: "'a::len word"
  by (auto simp: saturating_add_def unat_plus_no_overflow unsigned_minus_1_eq_mask mask_eq_exp_minus_1)

lemma unat_saturating_sub:
  "unat (saturating_sub a b) = unat a - unat b" for a :: "'a::len word"
  by (auto simp: saturating_sub_def word_less_nat_alt unat_sub_if')

section \<open>Slices and lists\<close>

lemma unat_of_nat_less: "n < 2 ^ LENGTH('w) \<Longrightarrow> unat (of_nat n :: 'w::len word) = n"
  by (simp add: unat_of_nat)

lemma le_nat_width: "length bs * 8 \<le> k \<Longrightarrow> le_nat bs < 2 ^ k"
proof -
  assume "length bs * 8 \<le> k"
  then have "(2::nat) ^ (length bs * 8) \<le> 2 ^ k" by (rule power_increasing) simp
  moreover have "(256::nat) ^ length bs = 2 ^ (length bs * 8)"
    by (simp add: power_mult mult.commute [of _ 8])
  ultimately show ?thesis using le_nat_bound [of bs] by linarith
qed

lemma unat_from_le:
  "length bs = 2 \<Longrightarrow> unat (u16_from_le bs) = le_nat bs"
  "length bs = 8 \<Longrightarrow> unat (u64_from_le bs) = le_nat bs"
  "length bs = 16 \<Longrightarrow> unat (u128_from_le bs) = le_nat bs"
  unfolding u16_from_le_def u64_from_le_def u128_from_le_def
  by (rule unat_of_nat_less, rule le_nat_width, simp)+

definition subslice :: "'a list \<Rightarrow> nat \<Rightarrow> nat \<Rightarrow> 'a list" where
  "subslice xs lo hi = take (hi - lo) (drop lo xs)"

lemma length_subslice [simp]: "hi \<le> length xs \<Longrightarrow> length (subslice xs lo hi) = hi - lo"
  by (simp add: subslice_def)

lemma sum_list_nth_upt: "sum_list (map (\<lambda>i. xs ! i) [0..<length xs]) = sum_list xs"
  by (simp add: map_nth)

section \<open>Indexing and counted loops\<close>

text \<open>\<open>xs[i]\<close> as an expression and as the target of an assignment; both panic out of range.\<close>

definition get_at :: "'a list \<Rightarrow> usize \<Rightarrow> ('a, 'e) res" where
  "get_at xs i = (if i < length xs then Ok (xs ! i) else Panic)"

definition set_at :: "'a list \<Rightarrow> usize \<Rightarrow> 'a \<Rightarrow> ('a list, 'e) res" where
  "set_at xs i v = (if i < length xs then Ok (xs[i := v]) else Panic)"

lemma get_at_ok [simp]: "i < length xs \<Longrightarrow> get_at xs i = Ok (xs ! i)"
  by (simp add: get_at_def)

lemma set_at_ok [simp]: "i < length xs \<Longrightarrow> set_at xs i v = Ok (xs[i := v])"
  by (simp add: set_at_def)

text \<open>\<open>for i in is { .. }\<close> over the state \<open>s\<close>, left at the first panic or question mark.\<close>

fun for_each :: "'i list \<Rightarrow> ('i \<Rightarrow> 's \<Rightarrow> ('s, 'e) res) \<Rightarrow> 's \<Rightarrow> ('s, 'e) res" where
  "for_each [] f s = Ok s"
| "for_each (i # is) f s = and_then (f i s) (for_each is f)"

lemma for_each_append:
  "for_each (is @ js) f s = and_then (for_each is f s) (for_each js f)"
proof (induction "is" arbitrary: s)
  case (Cons i "is")
  then show ?case by (cases "f i s") auto
qed simp

lemma for_each_cong:
  "is = js \<Longrightarrow> s = t \<Longrightarrow> (\<And>i u. i \<in> set js \<Longrightarrow> f i u = g i u) \<Longrightarrow> for_each is f s = for_each js g t"
proof (induction js arbitrary: "is" s t)
  case (Cons j js)
  then show ?case by (cases "g j t") auto
qed simp

lemma for_each_map: "for_each (map h is) f s = for_each is (\<lambda>i. f (h i)) s"
proof (induction "is" arbitrary: s)
  case (Cons i "is")
  then show ?case by (cases "f (h i) s") auto
qed simp

text \<open>A counted loop is proved by an invariant indexed by the iterations done.\<close>

lemma for_each_upt:
  assumes "\<And>i s. i < n \<Longrightarrow> P i s \<Longrightarrow> \<exists>t. f i s = Ok t \<and> P (Suc i) t" "P 0 s"
  shows "\<exists>t. for_each [0..<n] f s = Ok t \<and> P n t"
proof -
  have "\<exists>t. for_each [0..<k] f s = Ok t \<and> P k t" if "k \<le> n" for k
    using that
  proof (induction k)
    case 0
    then show ?case using assms(2) by simp
  next
    case (Suc k)
    then obtain t where "for_each [0..<k] f s = Ok t" "P k t" by auto
    moreover obtain u where "f k t = Ok u" "P (Suc k) u"
      using assms(1) [of k t] \<open>P k t\<close> Suc.prems by auto
    ultimately show ?case by (auto simp: for_each_append)
  qed
  then show ?thesis by blast
qed

lemma list_update_prefix:
  "n < r \<Longrightarrow> (map f [0..<n] @ replicate (r - n) z)[n := v] = map f [0..<n] @ v # replicate (r - Suc n) z"
  by (simp add: list_update_append Suc_diff_Suc [symmetric])

text \<open>Numeric intervals are kept folded: the networks have hundreds of rows.\<close>

declare upt_rec_numeral [simp del]

lemma upt_small [simp]: "[0..<1] = [0]" "[0..<2] = [0, 1]" "[0..<4] = [0, 1, 2, 3]"
  by (simp_all add: upt_rec)

end
