(* ===== verification/Ternary_Network.thy ===== *)
theory Ternary_Network
  imports Prelude
begin

text \<open>
  The integer kernel of the ternary engine: \<open>ternary_vm/src/error.rs\<close>, \<open>thermo.rs\<close> and
  \<open>network.rs\<close>. A layer holds, per output row, the columns of weight +1, the columns of
  weight -1 and a bias; the forward pass uses checked \<open>i64\<close> addition and subtraction only.
  The lemmas give the exact value of a layer whose sums stay inside \<open>i64\<close>, which the
  theories of the primitives use for each of their layers.
\<close>

section \<open>Errors\<close>

text \<open>One constructor per message that the sources format, with the interpolated values.\<close>

datatype decode_msg =
    TooShort
  | BadMagic bytes
  | NameUtf8
  | PrematureEof usize usize
  | ExpectedOutputs rstring usize usize
  | OutOfRange rstring i64
  | RecordByte usize i64

datatype ternary_error =
    Overflow usize usize
  | InputShape usize usize
  | InputRange rstring i64 i64
  | OutputDecode decode_msg
  | WeightsHashMismatch rstring rstring
  | LayerShape usize usize usize
  | EmptyArgmax

section \<open>Thermometer encoding\<close>

text \<open>
  \<open>encode\<close> turns the first \<open>cap\<close> slots of a zero vector into ones. The call sites pass
  \<open>max_val\<close> 1 or 255, so the cast of \<open>max_val + 1\<close> to \<open>usize\<close> is \<open>nat\<close>.
\<close>

definition thermo_encode :: "i64 \<Rightarrow> i64 \<Rightarrow> i64 list" where
  "thermo_encode v max_val =
     (let len = nat (max_val + 1);
          cap = min (nat (max (min v max_val) 0 + 1)) len
      in map (\<lambda>i. if i < cap then 1 else 0) [0..<len])"

fun thermo_count :: "i64 \<Rightarrow> i64 list \<Rightarrow> (i64, 'e) res" where
  "thermo_count count [] = Ok count"
| "thermo_count count (v # vs) =
     (if v = 0 then Ok count
      else and_then (expect (checked_add_i64 count 1)) (\<lambda>c. thermo_count c vs))"

definition thermo_decode :: "i64 list \<Rightarrow> (i64, 'e) res" where
  "thermo_decode thermo = and_then (thermo_count 0 thermo) (\<lambda>count. Ok (count - 1))"

section \<open>Layers and networks\<close>

record sparse_ternary_layer =
  l_input_dim :: usize
  l_output_dim :: usize
  pos_indices :: "u32 list list"
  neg_indices :: "u32 list list"
  bias :: "i64 list"
  relu :: bool

record weights_header =
  wh_version :: u32
  wh_primitive :: rstring
  wh_input_dim :: u32
  wh_output_dim :: u32
  weights_hash :: bytes
  weights_hash_v2 :: bytes

record ternary_network =
  header :: weights_header
  layers :: "sparse_ternary_layer list"

text \<open>
  The accumulation over one index list: an index outside the input vector panics, an
  \<open>i64\<close> overflow is the \<open>Overflow\<close> error naming the layer and the row.
\<close>

fun accumulate ::
  "(i64 \<Rightarrow> i64 \<Rightarrow> i64 option) \<Rightarrow> usize \<Rightarrow> usize \<Rightarrow> i64 list \<Rightarrow> u32 list \<Rightarrow> i64 \<Rightarrow> (i64, ternary_error) res"
where
  "accumulate checked_op li i x [] acc = Ok acc"
| "accumulate checked_op li i x (j # js) acc =
     (if unat j < length x
      then and_then (ok_or (Overflow li i) (checked_op acc (x ! unat j)))
             (\<lambda>acc'. accumulate checked_op li i x js acc')
      else Panic)"

definition layer_row ::
  "sparse_ternary_layer \<Rightarrow> i64 list \<Rightarrow> usize \<Rightarrow> usize \<Rightarrow> (i64, ternary_error) res" where
  "layer_row l x li i =
     (if i < length (bias l) \<and> i < length (pos_indices l)
      then and_then (accumulate checked_add_i64 li i x (pos_indices l ! i) (bias l ! i)) (\<lambda>acc.
           if i < length (neg_indices l)
           then and_then (accumulate checked_sub_i64 li i x (neg_indices l ! i) acc) (\<lambda>acc'.
                Ok (if relu l \<and> acc' < 0 then 0 else acc'))
           else Panic)
      else Panic)"

fun layer_rows ::
  "sparse_ternary_layer \<Rightarrow> i64 list \<Rightarrow> usize \<Rightarrow> usize \<Rightarrow> i64 list \<Rightarrow> (i64 list, ternary_error) res"
where
  "layer_rows l x li i [] = Ok []"
| "layer_rows l x li i (_ # ys) =
     and_then (layer_row l x li i) (\<lambda>v.
     and_then (layer_rows l x li (Suc i) ys) (\<lambda>vs. Ok (v # vs)))"

text \<open>\<open>layer_forward l x y li\<close> returns the new contents of the output buffer \<open>y\<close>.\<close>

definition layer_forward ::
  "sparse_ternary_layer \<Rightarrow> i64 list \<Rightarrow> i64 list \<Rightarrow> usize \<Rightarrow> (i64 list, ternary_error) res" where
  "layer_forward l x y li =
     (if length x \<noteq> l_input_dim l then Err (LayerShape li (length x) (l_input_dim l))
      else if length y \<noteq> l_output_dim l then Err (LayerShape li (length y) (l_output_dim l))
      else layer_rows l x li 0 y)"

definition nnz :: "sparse_ternary_layer \<Rightarrow> usize" where
  "nnz l = sum_list (map length (pos_indices l)) + sum_list (map length (neg_indices l))"

fun forward_layers ::
  "usize \<Rightarrow> sparse_ternary_layer list \<Rightarrow> i64 list \<Rightarrow> (i64 list, ternary_error) res" where
  "forward_layers li [] current = Ok current"
| "forward_layers li (l # ls) current =
     and_then (layer_forward l current (replicate (l_output_dim l) 0) li)
       (\<lambda>nxt. forward_layers (Suc li) ls nxt)"

definition forward :: "ternary_network \<Rightarrow> i64 list \<Rightarrow> (i64 list, ternary_error) res" where
  "forward net input =
     (case layers net of
        [] \<Rightarrow> Ok input
      | l # _ \<Rightarrow>
          if length input \<noteq> l_input_dim l
          then Err (InputShape (length input) (l_input_dim l))
          else forward_layers 0 (layers net) input)"

definition total_nnz :: "ternary_network \<Rightarrow> usize" where
  "total_nnz net = sum_list (map nnz (layers net))"

definition total_slots :: "ternary_network \<Rightarrow> usize" where
  "total_slots net = sum_list (map (\<lambda>l. saturating_mul_usize (l_input_dim l) (l_output_dim l)) (layers net)) mod 2 ^ 64"

text \<open>\<open>argmax\<close>: the scan keeps the first index of the largest value seen so far.\<close>

fun argmax_scan :: "usize \<Rightarrow> i64 list \<Rightarrow> (usize \<times> i64) option \<Rightarrow> (usize \<times> i64) option" where
  "argmax_scan i [] best = best"
| "argmax_scan i (v # vs) best =
     argmax_scan (Suc i) vs
       (case best of
          None \<Rightarrow> Some (i, v)
        | Some (bi, bv) \<Rightarrow> if v > bv then Some (i, v) else Some (bi, bv))"

definition argmax :: "i64 list \<Rightarrow> (usize, ternary_error) res" where
  "argmax logits =
     (case argmax_scan 0 logits None of None \<Rightarrow> Err EmptyArgmax | Some (i, _) \<Rightarrow> Ok i)"

section \<open>Thermometer facts\<close>

lemma length_thermo_encode [simp]: "length (thermo_encode v m) = nat (m + 1)"
  by (simp add: thermo_encode_def Let_def)

lemma thermo_encode_nth:
  "0 \<le> v \<Longrightarrow> v \<le> m \<Longrightarrow> i < nat (m + 1) \<Longrightarrow>
     thermo_encode v m ! i = (if int i \<le> v then 1 else 0)"
  by (auto simp: thermo_encode_def Let_def)

lemma thermo_encode_split:
  assumes "0 \<le> v" "v \<le> m"
  shows "thermo_encode v m = replicate (nat (v + 1)) 1 @ replicate (nat (m - v)) 0"
  using assms by (intro nth_equalityI) (auto simp: thermo_encode_nth nth_append)

lemma thermo_encode_bits: "x \<in> set (thermo_encode v m) \<Longrightarrow> x = 0 \<or> x = 1"
  by (auto simp: thermo_encode_def Let_def split: if_splits)

lemma sum_thermo_encode:
  "0 \<le> v \<Longrightarrow> v \<le> m \<Longrightarrow> sum_list (thermo_encode v m) = v + 1"
  by (simp add: thermo_encode_split sum_list_replicate)

lemma thermo_count_ones:
  "i64_ok count \<Longrightarrow> count + int n \<le> i64_max \<Longrightarrow>
     thermo_count count (replicate n 1 @ replicate k 0) = Ok (count + int n)"
proof (induction n arbitrary: count)
  case 0
  then show ?case by (cases k) auto
next
  case (Suc n)
  then have "checked_add_i64 count 1 = Some (count + 1)" "i64_ok (count + 1)"
    by (auto simp: checked_add_i64_def i64_ok_def)
  with Suc show ?case by simp
qed

lemma thermo_roundtrip_core:
  assumes "0 \<le> v" "v \<le> m" "m < i64_max"
  shows "thermo_decode (thermo_encode v m) = Ok v"
proof -
  have "i64_ok 0" by (simp add: i64_ok_def i64_min_def i64_max_def)
  then show ?thesis
    using assms by (simp add: thermo_decode_def thermo_encode_split thermo_count_ones)
qed

section \<open>Well-formed layers and their exact value\<close>

definition layer_wf :: "sparse_ternary_layer \<Rightarrow> bool" where
  "layer_wf l \<longleftrightarrow>
     length (pos_indices l) = l_output_dim l \<and> length (neg_indices l) = l_output_dim l \<and>
     length (bias l) = l_output_dim l \<and>
     list_all (list_all (\<lambda>j. unat j < l_input_dim l)) (pos_indices l) \<and>
     list_all (list_all (\<lambda>j. unat j < l_input_dim l)) (neg_indices l)"

text \<open>The mathematical value of a row, and the headroom that keeps every partial sum in \<open>i64\<close>.\<close>

definition row_sum :: "sparse_ternary_layer \<Rightarrow> i64 list \<Rightarrow> usize \<Rightarrow> int" where
  "row_sum l x i =
     bias l ! i + sum_list (map (\<lambda>j. x ! unat j) (pos_indices l ! i))
       - sum_list (map (\<lambda>j. x ! unat j) (neg_indices l ! i))"

definition row_value :: "sparse_ternary_layer \<Rightarrow> i64 list \<Rightarrow> usize \<Rightarrow> int" where
  "row_value l x i = (if relu l then max 0 (row_sum l x i) else row_sum l x i)"

definition magnitude :: "i64 list \<Rightarrow> int \<Rightarrow> bool" where
  "magnitude x M \<longleftrightarrow> 0 \<le> M \<and> list_all (\<lambda>v. \<bar>v\<bar> \<le> M) x"

definition headroom :: "sparse_ternary_layer \<Rightarrow> int \<Rightarrow> bool" where
  "headroom l M \<longleftrightarrow>
     list_all (\<lambda>i. \<bar>bias l ! i\<bar> + int (length (pos_indices l ! i) + length (neg_indices l ! i)) * M
                     \<le> i64_max) [0..<l_output_dim l]"

lemma i64_ok_abs: "\<bar>v\<bar> \<le> i64_max \<Longrightarrow> i64_ok v"
  by (auto simp: i64_ok_def i64_min_def i64_max_def)

lemma magnitude_nth: "magnitude x M \<Longrightarrow> i < length x \<Longrightarrow> \<bar>x ! i\<bar> \<le> M"
  by (auto simp: magnitude_def list_all_length)

lemma accumulate_add:
  assumes "magnitude x M" "list_all (\<lambda>j. unat j < length x) js"
    and "\<bar>acc\<bar> + int (length js) * M \<le> i64_max"
  shows "accumulate checked_add_i64 li i x js acc = Ok (acc + sum_list (map (\<lambda>j. x ! unat j) js))"
  using assms(2,3)
proof (induction js arbitrary: acc)
  case Nil
  then show ?case by simp
next
  case (Cons j js)
  have "\<bar>x ! unat j\<bar> \<le> M" using assms(1) Cons.prems(1) by (simp add: magnitude_nth)
  then have step: "\<bar>acc + x ! unat j\<bar> + int (length js) * M \<le> i64_max"
    using Cons.prems(2) by (simp add: algebra_simps)
  moreover have "0 \<le> int (length js) * M" using assms(1) by (simp add: magnitude_def)
  ultimately have "i64_ok (acc + x ! unat j)" by (intro i64_ok_abs) linarith
  then show ?case
    using Cons.IH [OF _ step] Cons.prems(1) by (simp add: checked_add_i64_def)
qed

lemma accumulate_sub:
  assumes "magnitude x M" "list_all (\<lambda>j. unat j < length x) js"
    and "\<bar>acc\<bar> + int (length js) * M \<le> i64_max"
  shows "accumulate checked_sub_i64 li i x js acc = Ok (acc - sum_list (map (\<lambda>j. x ! unat j) js))"
  using assms(2,3)
proof (induction js arbitrary: acc)
  case Nil
  then show ?case by simp
next
  case (Cons j js)
  have "\<bar>x ! unat j\<bar> \<le> M" using assms(1) Cons.prems(1) by (simp add: magnitude_nth)
  then have step: "\<bar>acc - x ! unat j\<bar> + int (length js) * M \<le> i64_max"
    using Cons.prems(2) by (simp add: algebra_simps)
  moreover have "0 \<le> int (length js) * M" using assms(1) by (simp add: magnitude_def)
  ultimately have "i64_ok (acc - x ! unat j)" by (intro i64_ok_abs) linarith
  then show ?case
    using Cons.IH [OF _ step] Cons.prems(1) by (simp add: checked_sub_i64_def)
qed

lemma sum_list_magnitude:
  assumes "magnitude x M" "list_all (\<lambda>j. unat j < length x) js"
  shows "\<bar>sum_list (map (\<lambda>j. x ! unat j) js)\<bar> \<le> int (length js) * M"
  using assms(2)
proof (induction js)
  case Nil
  then show ?case by simp
next
  case (Cons j js)
  have "\<bar>x ! unat j\<bar> \<le> M" using assms(1) Cons.prems by (simp add: magnitude_nth)
  with Cons show ?case by (simp add: algebra_simps)
qed

lemma layer_row_value:
  assumes wf: "layer_wf l" and x: "length x = l_input_dim l" "magnitude x M"
    and hr: "headroom l M" and i: "i < l_output_dim l"
  shows "layer_row l x li i = Ok (row_value l x i)"
proof -
  have pos: "list_all (\<lambda>j. unat j < length x) (pos_indices l ! i)"
    and neg: "list_all (\<lambda>j. unat j < length x) (neg_indices l ! i)"
    using wf x(1) i by (auto simp: layer_wf_def list_all_length)
  have room: "\<bar>bias l ! i\<bar> + int (length (pos_indices l ! i)) * M
      + int (length (neg_indices l ! i)) * M \<le> i64_max"
    using hr i by (auto simp: headroom_def list_all_length algebra_simps)
  have nonneg: "0 \<le> int (length (neg_indices l ! i)) * M"
    using x(2) by (simp add: magnitude_def)
  let ?acc = "bias l ! i + sum_list (map (\<lambda>j. x ! unat j) (pos_indices l ! i))"
  have acc: "\<bar>?acc\<bar> + int (length (neg_indices l ! i)) * M \<le> i64_max"
    using sum_list_magnitude [OF x(2) pos] room by linarith
  have "accumulate checked_add_i64 li i x (pos_indices l ! i) (bias l ! i) = Ok ?acc"
    using room nonneg by (intro accumulate_add [OF x(2) pos]) linarith
  moreover have "accumulate checked_sub_i64 li i x (neg_indices l ! i) ?acc = Ok (row_sum l x i)"
    using accumulate_sub [OF x(2) neg acc] by (simp add: row_sum_def)
  ultimately show ?thesis
    using wf i by (auto simp: layer_row_def layer_wf_def row_value_def)
qed

lemma layer_rows_eq:
  assumes "\<And>k. k < length ys \<Longrightarrow> layer_row l x li (i + k) = Ok (f (i + k))"
  shows "layer_rows l x li i ys = Ok (map f [i..<i + length ys])"
  using assms
proof (induction ys arbitrary: i)
  case Nil
  then show ?case by simp
next
  case (Cons y ys)
  have "layer_row l x li i = Ok (f i)" using Cons.prems [of 0] by simp
  moreover have "layer_rows l x li (Suc i) ys = Ok (map f [Suc i..<Suc i + length ys])"
    using Cons.prems [of "Suc _"] by (intro Cons.IH) simp
  ultimately show ?case by (simp add: upt_conv_Cons del: upt_Suc)
qed

lemma layer_forward_value:
  assumes "layer_wf l" "length x = l_input_dim l" "magnitude x M" "headroom l M"
    and "length y = l_output_dim l"
  shows "layer_forward l x y li = Ok (map (row_value l x) [0..<l_output_dim l])"
  using assms layer_rows_eq [of y l x li 0 "row_value l x"]
  by (simp add: layer_forward_def layer_row_value)

lemma length_layer_forward:
  assumes "layer_forward l x y li = Ok z"
  shows "length z = l_output_dim l"
proof -
  have rows: "layer_rows l x li i ys = Ok z \<Longrightarrow> length z = length ys" for i ys
    by (induction ys arbitrary: i z) (auto simp: and_then_Ok_iff)
  show ?thesis
    using assms rows [of 0 y] by (auto simp: layer_forward_def split: if_splits)
qed

text \<open>The kernel never returns a value outside \<open>i64\<close>: overflow is an error, not a wrap.\<close>

lemma accumulate_in_range:
  assumes "accumulate f li i x js acc = Ok v" "i64_ok acc"
    and "\<And>a b c. f a b = Some c \<Longrightarrow> i64_ok c"
  shows "i64_ok v"
  using assms(1,2)
proof (induction js arbitrary: acc)
  case Nil
  then show ?case by simp
next
  case (Cons j js)
  then show ?case by (auto simp: and_then_Ok_iff split: if_splits dest: assms(3))
qed

lemma checked_i64_in_range:
  "checked_add_i64 a b = Some c \<Longrightarrow> i64_ok c" "checked_sub_i64 a b = Some c \<Longrightarrow> i64_ok c"
  by (auto simp: checked_add_i64_def checked_sub_i64_def split: if_splits)

lemma layer_row_in_range:
  assumes "layer_row l x li i = Ok v" "list_all i64_ok (bias l)"
  shows "i64_ok v"
proof -
  obtain acc acc' where
    a: "accumulate checked_add_i64 li i x (pos_indices l ! i) (bias l ! i) = Ok acc" and
    b: "accumulate checked_sub_i64 li i x (neg_indices l ! i) acc = Ok acc'" and
    v: "v = (if relu l \<and> acc' < 0 then 0 else acc')" and i: "i < length (bias l)"
    using assms(1) by (auto simp: layer_row_def and_then_Ok_iff split: if_splits)
  have "i64_ok acc"
    using a assms(2) i checked_i64_in_range(1) by (auto intro: accumulate_in_range simp: list_all_length)
  with b have "i64_ok acc'" using checked_i64_in_range(2) by (auto intro: accumulate_in_range)
  then show ?thesis by (auto simp: v i64_ok_def i64_min_def i64_max_def)
qed

section \<open>Argmax\<close>

lemma argmax_scan_one_hot:
  assumes "\<And>i. i < length xs \<Longrightarrow> xs ! i = (if off + i = k then 1 else 0)"
    and "best = None \<or> (\<exists>b. best = Some (b, 0))" and "off \<le> k" "k < off + length xs"
  shows "argmax_scan off xs best = Some (k, 1)"
  using assms
proof (induction xs arbitrary: off best)
  case Nil
  then show ?case by simp
next
  case (Cons v vs)
  have rest: "vs ! i = (if Suc off + i = k then 1 else 0)" if "i < length vs" for i
    using Cons.prems(1) [of "Suc i"] that by simp
  have v: "v = (if off = k then 1 else 0)" using Cons.prems(1) [of 0] by simp
  have zeros: "argmax_scan o' ys (Some (k, 1)) = Some (k, 1)"
    if "\<And>i. i < length ys \<Longrightarrow> ys ! i = (0::int)" for o' ys
    using that
  proof (induction ys arbitrary: o')
    case Nil
    then show ?case by simp
  next
    case (Cons y ys)
    then show ?case using Cons.prems [of 0] Cons.prems [of "Suc _"] by simp
  qed
  show ?case
  proof (cases "off = k")
    case True
    then have "vs ! i = 0" if "i < length vs" for i using rest [OF that] by simp
    then show ?thesis using True v Cons.prems(2) zeros by auto
  next
    case False
    then show ?thesis
      using Cons.IH [OF rest] Cons.prems v by (auto split: option.splits)
  qed
qed

lemma argmax_one_hot:
  assumes "k < length xs" "\<And>i. i < length xs \<Longrightarrow> xs ! i = (if i = k then 1 else 0)"
  shows "argmax xs = Ok k"
  using argmax_scan_one_hot [of xs 0 k None] assms by (simp add: argmax_def)

text \<open>What the scan keeps: the first index at which the largest value occurs.\<close>

definition best_of :: "i64 list \<Rightarrow> (usize \<times> i64) option \<Rightarrow> bool" where
  "best_of xs best \<longleftrightarrow>
     (case best of
        None \<Rightarrow> xs = []
      | Some (k, v) \<Rightarrow> k < length xs \<and> xs ! k = v \<and>
          (\<forall>i < length xs. xs ! i \<le> v) \<and> (\<forall>i < k. xs ! i < v))"

lemma best_of_step:
  assumes "best_of xs best"
  shows "best_of (xs @ [v])
    (case best of None \<Rightarrow> Some (length xs, v)
     | Some (bi, bv) \<Rightarrow> if v > bv then Some (length xs, v) else Some (bi, bv))"
  using assms
  by (fastforce simp: best_of_def nth_append less_Suc_eq split: option.splits)

lemma argmax_scan_best:
  "best_of xs best \<Longrightarrow> best_of (xs @ ys) (argmax_scan (length xs) ys best)"
proof (induction ys arbitrary: xs best)
  case Nil
  then show ?case by simp
next
  case (Cons y ys)
  show ?case using Cons.IH [OF best_of_step [OF Cons.prems, of y]] by simp
qed

lemma argmax_best: "best_of xs (argmax_scan 0 xs None)"
  using argmax_scan_best [of "[]" None xs] by (simp add: best_of_def)

end
