(* ===== verification/Weights.thy ===== *)
theory Weights
  imports Ternary_Network
begin

text \<open>
  The packed weight format (\<open>ternary_vm/src/weights.rs\<close>) and the trace-hash contract
  (\<open>ternary_vm/src/trace_hash.rs\<close>). Packing, the cursor-based unpacking with all its error
  branches, the two digests of a network, and the canonical encoding of an execution. The
  lemmas are the pack/unpack round trip and the injectivity of the canonical encoding.
\<close>

section \<open>Packing\<close>

definition MAGIC :: bytes where
  "MAGIC = ascii ''TVMW0001''"

text \<open>
  The CSR row offsets of one index table: \<open>expect("ptr overflow")\<close> panics when the number
  of entries does not fit \<open>u32\<close>.
\<close>

fun csr_ptrs :: "u32 \<Rightarrow> u32 list list \<Rightarrow> (u32 list, ternary_error) res" where
  "csr_ptrs ptr [] = Ok [ptr]"
| "csr_ptrs ptr (row # rows) =
     and_then (expect (checked_add ptr (of_nat (length row)))) (\<lambda>p.
     and_then (csr_ptrs p rows) (\<lambda>ps. Ok (ptr # ps)))"

definition pack_csr :: "u32 list list \<Rightarrow> (bytes, ternary_error) res" where
  "pack_csr rows =
     and_then (csr_ptrs 0 rows) (\<lambda>ptrs.
     Ok (concat (map u32_be ptrs) @ concat (map (\<lambda>row. concat (map u32_be row)) rows)))"

definition pack_layer :: "sparse_ternary_layer \<Rightarrow> (bytes, ternary_error) res" where
  "pack_layer l =
     (let nnz_pos = sum_list (map length (pos_indices l));
          nnz_neg = sum_list (map length (neg_indices l))
      in and_then (pack_csr (pos_indices l)) (\<lambda>pos.
         and_then (pack_csr (neg_indices l)) (\<lambda>neg.
         Ok (u32_be (of_nat (l_input_dim l)) @ u32_be (of_nat (l_output_dim l))
             @ [if relu l then 1 else 0]
             @ u64_be (of_nat nnz_pos) @ u64_be (of_nat nnz_neg)
             @ pos @ neg @ concat (map i64_be (bias l))))))"

fun pack_layers :: "sparse_ternary_layer list \<Rightarrow> (bytes, ternary_error) res" where
  "pack_layers [] = Ok []"
| "pack_layers (l # ls) =
     and_then (pack_layer l) (\<lambda>b. and_then (pack_layers ls) (\<lambda>bs. Ok (b @ bs)))"

definition pack_weights ::
  "xof \<Rightarrow> rstring \<Rightarrow> u32 \<Rightarrow> u32 \<Rightarrow> sparse_ternary_layer list \<Rightarrow> (bytes \<times> bytes, ternary_error) res" where
  "pack_weights xof primitive input_dim output_dim ls =
     and_then (pack_layers ls) (\<lambda>body.
     let buf = MAGIC @ u32_be 1 @ u16_be (of_nat (length primitive)) @ primitive
               @ u32_be input_dim @ u32_be output_dim @ u32_be (of_nat (length ls)) @ body;
         digest = xof buf 32
     in Ok (buf @ digest, digest))"

definition weights_hash_v2_of :: "xof \<Rightarrow> bytes \<Rightarrow> bytes" where
  "weights_hash_v2_of xof packed =
     (if length packed < 32 then replicate 64 0
      else xof (take (length packed - 32) packed) 64)"

definition pack_weights_dual ::
  "xof \<Rightarrow> rstring \<Rightarrow> u32 \<Rightarrow> u32 \<Rightarrow> sparse_ternary_layer list \<Rightarrow> (bytes \<times> bytes \<times> bytes, ternary_error) res" where
  "pack_weights_dual xof primitive input_dim output_dim ls =
     and_then (pack_weights xof primitive input_dim output_dim ls) (\<lambda>(buf, digest_v1).
     Ok (buf, digest_v1, weights_hash_v2_of xof buf))"

text \<open>The shape every primitive's \<open>build\<close> has: pack, then put both digests in the header.\<close>

definition build_network ::
  "xof \<Rightarrow> rstring \<Rightarrow> u32 \<Rightarrow> u32 \<Rightarrow> sparse_ternary_layer list \<Rightarrow> (ternary_network, ternary_error) res" where
  "build_network xof name input_dim output_dim ls =
     and_then (pack_weights_dual xof name input_dim output_dim ls) (\<lambda>(_, digest, digest_v2).
     Ok \<lparr> header = \<lparr> wh_version = 1, wh_primitive = name, wh_input_dim = input_dim,
                      wh_output_dim = output_dim, weights_hash = digest,
                      weights_hash_v2 = digest_v2 \<rparr>,
          layers = ls \<rparr>)"

section \<open>Unpacking\<close>

definition hex_digit :: "nat \<Rightarrow> u8" where
  "hex_digit n = (if n < 10 then of_nat (48 + n) else of_nat (87 + n))"

definition hex_str :: "bytes \<Rightarrow> rstring" where
  "hex_str b = concat (map (\<lambda>x. [hex_digit (unat x div 16), hex_digit (unat x mod 16)]) b)"

text \<open>The UTF-8 check of \<open>String::from_utf8\<close> (Unicode, well-formed byte sequences).\<close>

definition utf8_cont :: "u8 \<Rightarrow> bool" where
  "utf8_cont b \<longleftrightarrow> 128 \<le> b \<and> b \<le> 191"

fun valid_utf8 :: "bytes \<Rightarrow> bool" where
  "valid_utf8 [] = True"
| "valid_utf8 (b # bs) =
     (if b < 128 then valid_utf8 bs
      else case bs of
        b1 # bs1 \<Rightarrow>
          if 194 \<le> b \<and> b \<le> 223 then utf8_cont b1 \<and> valid_utf8 bs1
          else (case bs1 of
            b2 # bs2 \<Rightarrow>
              if b = 224 then 160 \<le> b1 \<and> b1 \<le> 191 \<and> utf8_cont b2 \<and> valid_utf8 bs2
              else if b = 237 then 128 \<le> b1 \<and> b1 \<le> 159 \<and> utf8_cont b2 \<and> valid_utf8 bs2
              else if 225 \<le> b \<and> b \<le> 239 then utf8_cont b1 \<and> utf8_cont b2 \<and> valid_utf8 bs2
              else (case bs2 of
                b3 # bs3 \<Rightarrow>
                  utf8_cont b2 \<and> utf8_cont b3 \<and> valid_utf8 bs3 \<and>
                  (b = 240 \<and> 144 \<le> b1 \<and> b1 \<le> 191 \<or> 241 \<le> b \<and> b \<le> 243 \<and> utf8_cont b1 \<or>
                   b = 244 \<and> 128 \<le> b1 \<and> b1 \<le> 143)
              | [] \<Rightarrow> False)
          | [] \<Rightarrow> False)
      | [] \<Rightarrow> False)"

record cursor =
  c_buf :: bytes
  c_off :: usize

type_synonym 'a reader = "cursor \<Rightarrow> ('a \<times> cursor, ternary_error) res"

definition cursor_take :: "usize \<Rightarrow> bytes reader" where
  "cursor_take n cur =
     (if c_off cur + n > length (c_buf cur) then Err (OutputDecode (PrematureEof n (c_off cur)))
      else Ok (take n (drop (c_off cur) (c_buf cur)), cur\<lparr>c_off := c_off cur + n\<rparr>))"

definition read_u8 :: "u8 reader" where
  "read_u8 cur = and_then (cursor_take 1 cur) (\<lambda>(s, c). Ok (s ! 0, c))"

definition read_u16 :: "u16 reader" where
  "read_u16 cur = and_then (cursor_take 2 cur) (\<lambda>(s, c). Ok (u16_from_be s, c))"

definition read_u32 :: "u32 reader" where
  "read_u32 cur = and_then (cursor_take 4 cur) (\<lambda>(s, c). Ok (u32_from_be s, c))"

definition read_u64 :: "u64 reader" where
  "read_u64 cur = and_then (cursor_take 8 cur) (\<lambda>(s, c). Ok (u64_from_be s, c))"

definition read_i64 :: "i64 reader" where
  "read_i64 cur = and_then (cursor_take 8 cur) (\<lambda>(s, c). Ok (i64_from_be s, c))"

text \<open>\<open>(0..n).map(|_| cur.read()).collect::<Result<Vec<_>, _>>()\<close>\<close>

fun read_many :: "'a reader \<Rightarrow> usize \<Rightarrow> 'a list reader" where
  "read_many rd 0 cur = Ok ([], cur)"
| "read_many rd (Suc n) cur =
     and_then (rd cur) (\<lambda>(x, c). and_then (read_many rd n c) (\<lambda>(xs, c'). Ok (x # xs, c')))"

text \<open>
  The rows cut out of the column table. \<open>ptrs[i]\<close> to \<open>ptrs[i+1]\<close> is a Rust slice: an
  offset pair that decreases or passes the end of the table panics.
\<close>

fun csr_rows :: "u32 list \<Rightarrow> u32 list \<Rightarrow> (u32 list list, ternary_error) res" where
  "csr_rows cols (lo # hi # ptrs) =
     (if unat lo \<le> unat hi \<and> unat hi \<le> length cols
      then and_then (csr_rows cols (hi # ptrs)) (\<lambda>rows.
           Ok (subslice cols (unat lo) (unat hi) # rows))
      else Panic)"
| "csr_rows cols _ = Ok []"

definition unpack_layer :: "sparse_ternary_layer reader" where
  "unpack_layer cur =
     and_then (read_u32 cur) (\<lambda>(l_in, cur).
     and_then (read_u32 cur) (\<lambda>(l_out, cur).
     and_then (read_u8 cur) (\<lambda>(rl, cur).
     and_then (read_u64 cur) (\<lambda>(nnz_pos, cur).
     and_then (read_u64 cur) (\<lambda>(nnz_neg, cur).
     and_then (read_many read_u32 (Suc (unat l_out)) cur) (\<lambda>(pos_ptrs, cur).
     and_then (read_many read_u32 (unat nnz_pos) cur) (\<lambda>(pos_cols, cur).
     and_then (read_many read_u32 (Suc (unat l_out)) cur) (\<lambda>(neg_ptrs, cur).
     and_then (read_many read_u32 (unat nnz_neg) cur) (\<lambda>(neg_cols, cur).
     and_then (read_many read_i64 (unat l_out) cur) (\<lambda>(b, cur).
     and_then (csr_rows pos_cols pos_ptrs) (\<lambda>pos.
     and_then (csr_rows neg_cols neg_ptrs) (\<lambda>neg.
     Ok (\<lparr> l_input_dim = unat l_in, l_output_dim = unat l_out, pos_indices = pos,
           neg_indices = neg, bias = b, relu = (rl \<noteq> 0) \<rparr>, cur)))))))))))))"

definition unpack_weights ::
  "xof \<Rightarrow> bytes \<Rightarrow> (weights_header \<times> sparse_ternary_layer list, ternary_error) res" where
  "unpack_weights xof bs =
     (if length bs < 32 + length MAGIC then Err (OutputDecode TooShort)
      else let payload = take (length bs - 32) bs;
               stored_digest = drop (length bs - 32) bs;
               computed = xof payload 32
           in if stored_digest \<noteq> computed
              then Err (WeightsHashMismatch (hex_str stored_digest) (hex_str computed))
              else
     and_then (cursor_take 8 \<lparr>c_buf = payload, c_off = 0\<rparr>) (\<lambda>(magic, cur).
     if magic \<noteq> MAGIC then Err (OutputDecode (BadMagic magic)) else
     and_then (read_u32 cur) (\<lambda>(version, cur).
     and_then (read_u16 cur) (\<lambda>(name_len, cur).
     and_then (cursor_take (unat name_len) cur) (\<lambda>(name, cur).
     if \<not> valid_utf8 name then Err (OutputDecode NameUtf8) else
     and_then (read_u32 cur) (\<lambda>(input_dim, cur).
     and_then (read_u32 cur) (\<lambda>(output_dim, cur).
     and_then (read_u32 cur) (\<lambda>(n_layers, cur).
     and_then (read_many unpack_layer (unat n_layers) cur) (\<lambda>(ls, cur).
     Ok (\<lparr> wh_version = version, wh_primitive = name, wh_input_dim = input_dim,
           wh_output_dim = output_dim, weights_hash = stored_digest,
           weights_hash_v2 = xof payload 64 \<rparr>, ls))))))))))"

section \<open>Trace hashes\<close>

definition encode_canonical :: "i64 list \<Rightarrow> bytes" where
  "encode_canonical values = u32_be (of_nat (length values)) @ concat (map i64_be values)"

definition trace_hash_v1 :: "xof \<Rightarrow> ternary_network \<Rightarrow> i64 list \<Rightarrow> i64 list \<Rightarrow> bytes" where
  "trace_hash_v1 xof net input output =
     xof (weights_hash (header net) @ encode_canonical input @ encode_canonical output) 32"

definition trace_hash_v2 :: "xof \<Rightarrow> ternary_network \<Rightarrow> i64 list \<Rightarrow> i64 list \<Rightarrow> bytes" where
  "trace_hash_v2 xof net input output =
     xof (weights_hash_v2 (header net) @ encode_canonical input @ encode_canonical output) 32"

definition trace_hash_ternary :: "xof \<Rightarrow> ternary_network \<Rightarrow> i64 list \<Rightarrow> i64 list \<Rightarrow> bytes" where
  "trace_hash_ternary xof net input output = trace_hash_v1 xof net input output"

section \<open>Packing succeeds\<close>

text \<open>The offsets a table gets when its entries are counted without overflow.\<close>

fun offsets :: "nat \<Rightarrow> u32 list list \<Rightarrow> u32 list" where
  "offsets n [] = [of_nat n]"
| "offsets n (row # rows) = of_nat n # offsets (n + length row) rows"

lemma csr_ptrs_offsets:
  "n + sum_list (map length rows) < 2 ^ 32 \<Longrightarrow> csr_ptrs (of_nat n) rows = Ok (offsets n rows)"
proof (induction rows arbitrary: n)
  case Nil
  then show ?case by simp
next
  case (Cons row rows)
  have "checked_add (of_nat n :: u32) (of_nat (length row)) = Some (of_nat (n + length row))"
    using Cons.prems by (simp add: checked_add_def unat_of_nat)
  moreover have "csr_ptrs (of_nat (n + length row)) rows = Ok (offsets (n + length row) rows)"
    using Cons.prems by (intro Cons.IH) simp
  ultimately show ?case by simp
qed

definition csr_ok :: "u32 list list \<Rightarrow> bool" where
  "csr_ok rows \<longleftrightarrow> sum_list (map length rows) < 2 ^ 32"

definition csr_bytes :: "u32 list list \<Rightarrow> bytes" where
  "csr_bytes rows = concat (map u32_be (offsets 0 rows)) @ concat (map u32_be (concat rows))"

lemma concat_map_rows: "concat (map f (concat rows)) = concat (map (\<lambda>row. concat (map f row)) rows)"
  by (induction rows) auto

lemma pack_csr_bytes: "csr_ok rows \<Longrightarrow> pack_csr rows = Ok (csr_bytes rows)"
  using csr_ptrs_offsets [of 0 rows]
  by (simp add: pack_csr_def csr_ok_def csr_bytes_def concat_map_rows)

definition packable :: "sparse_ternary_layer \<Rightarrow> bool" where
  "packable l \<longleftrightarrow> csr_ok (pos_indices l) \<and> csr_ok (neg_indices l)"

definition layer_bytes :: "sparse_ternary_layer \<Rightarrow> bytes" where
  "layer_bytes l =
     u32_be (of_nat (l_input_dim l)) @ u32_be (of_nat (l_output_dim l))
     @ [if relu l then 1 else 0]
     @ u64_be (of_nat (sum_list (map length (pos_indices l))))
     @ u64_be (of_nat (sum_list (map length (neg_indices l))))
     @ csr_bytes (pos_indices l) @ csr_bytes (neg_indices l) @ concat (map i64_be (bias l))"

lemma pack_layer_bytes: "packable l \<Longrightarrow> pack_layer l = Ok (layer_bytes l)"
  by (simp add: pack_layer_def packable_def pack_csr_bytes layer_bytes_def Let_def)

lemma pack_layers_bytes:
  "list_all packable ls \<Longrightarrow> pack_layers ls = Ok (concat (map layer_bytes ls))"
  by (induction ls) (auto simp: pack_layer_bytes)

definition payload_of :: "rstring \<Rightarrow> u32 \<Rightarrow> u32 \<Rightarrow> sparse_ternary_layer list \<Rightarrow> bytes" where
  "payload_of name i out ls =
     MAGIC @ u32_be 1 @ u16_be (of_nat (length name)) @ name
     @ u32_be i @ u32_be out @ u32_be (of_nat (length ls)) @ concat (map layer_bytes ls)"

lemma pack_weights_payload:
  "list_all packable ls \<Longrightarrow>
     pack_weights xof name i out ls =
       Ok (payload_of name i out ls @ xof (payload_of name i out ls) 32, xof (payload_of name i out ls) 32)"
  by (simp add: pack_weights_def pack_layers_bytes payload_of_def Let_def)

text \<open>A packed network is built; its layers are the ones given.\<close>

definition network_of :: "xof \<Rightarrow> rstring \<Rightarrow> u32 \<Rightarrow> u32 \<Rightarrow> sparse_ternary_layer list \<Rightarrow> ternary_network" where
  "network_of xof name i out ls =
     \<lparr> header = \<lparr> wh_version = 1, wh_primitive = name, wh_input_dim = i, wh_output_dim = out,
                  weights_hash = xof (payload_of name i out ls) 32,
                  weights_hash_v2 = weights_hash_v2_of xof
                    (payload_of name i out ls @ xof (payload_of name i out ls) 32) \<rparr>,
       layers = ls \<rparr>"

lemma build_network_ok:
  "list_all packable ls \<Longrightarrow> build_network xof name i out ls = Ok (network_of xof name i out ls)"
  by (simp add: build_network_def pack_weights_dual_def pack_weights_payload network_of_def)

lemma layers_network_of [simp]: "layers (network_of xof name i out ls) = ls"
  by (simp add: network_of_def)

section \<open>Unpacking what was packed\<close>

text \<open>A cursor that has consumed \<open>pre\<close> and still has \<open>rest\<close> before it.\<close>

definition cursor_at :: "bytes \<Rightarrow> bytes \<Rightarrow> cursor" where
  "cursor_at pre rest = \<lparr>c_buf = pre @ rest, c_off = length pre\<rparr>"

named_theorems cursor_read

lemma cursor_take_at:
  "n = length xs \<Longrightarrow> cursor_take n (cursor_at pre (xs @ rest)) = Ok (xs, cursor_at (pre @ xs) rest)"
  by (simp add: cursor_take_def cursor_at_def)

lemma read_u32_at [cursor_read]:
  "read_u32 (cursor_at pre (u32_be w @ rest)) = Ok (w, cursor_at (pre @ u32_be w) rest)"
  by (simp add: read_u32_def cursor_take_at)

lemma read_u16_at [cursor_read]:
  "read_u16 (cursor_at pre (u16_be w @ rest)) = Ok (w, cursor_at (pre @ u16_be w) rest)"
  by (simp add: read_u16_def cursor_take_at)

lemma read_u64_at [cursor_read]:
  "read_u64 (cursor_at pre (u64_be w @ rest)) = Ok (w, cursor_at (pre @ u64_be w) rest)"
  by (simp add: read_u64_def cursor_take_at)

lemma read_u8_at [cursor_read]:
  "read_u8 (cursor_at pre (b # rest)) = Ok (b, cursor_at (pre @ [b]) rest)"
  using cursor_take_at [of 1 "[b]" pre rest] by (simp add: read_u8_def)

lemma i64_from_be_i64_be: "i64_ok v \<Longrightarrow> i64_from_be (i64_be v) = v"
  by (simp add: i64_from_be_def i64_be_def signed_of_int i64_ok_def i64_min_def i64_max_def
      signed_take_bit_int_eq_self)

lemma read_i64_at:
  "i64_ok v \<Longrightarrow> read_i64 (cursor_at pre (i64_be v @ rest)) = Ok (v, cursor_at (pre @ i64_be v) rest)"
  by (simp add: read_i64_def cursor_take_at i64_from_be_i64_be)

lemma read_many_at:
  assumes "\<And>pre x rest. x \<in> set xs \<Longrightarrow> rd (cursor_at pre (enc x @ rest)) = Ok (x, cursor_at (pre @ enc x) rest)"
  shows "read_many rd (length xs) (cursor_at pre (concat (map enc xs) @ rest))
       = Ok (xs, cursor_at (pre @ concat (map enc xs)) rest)"
  using assms by (induction xs arbitrary: pre) auto

lemmas read_u32s = read_many_at [where rd = read_u32 and enc = u32_be, OF read_u32_at]

lemma length_offsets [simp]: "length (offsets n rows) = Suc (length rows)"
  by (induction rows arbitrary: n) auto

lemma csr_rows_offsets:
  "length pre + sum_list (map length rows) < 2 ^ 32 \<Longrightarrow>
     csr_rows (pre @ concat rows) (offsets (length pre) rows) = Ok rows"
proof (induction rows arbitrary: pre)
  case Nil
  then show ?case by simp
next
  case (Cons row rows)
  let ?off = "\<lambda>n. unat (of_nat n :: u32)"
  have small: "?off (length pre) = length pre" "?off (length pre + length row) = length pre + length row"
    using Cons.prems by (simp_all add: unat_of_nat del: of_nat_add)
  obtain t where t: "offsets (length pre + length row) rows = of_nat (length pre + length row) # t"
    by (cases rows) auto
  have "csr_rows (pre @ row @ concat rows) (offsets (length pre + length row) rows) = Ok rows"
    using Cons.IH [of "pre @ row"] Cons.prems by simp
  then have "csr_rows (pre @ row @ concat rows)
      (of_nat (length pre) # of_nat (length pre + length row) # t) = Ok (row # rows)"
    using small unfolding t by (simp add: subslice_def del: of_nat_add)
  then show ?case unfolding offsets.simps t by simp
qed

lemma csr_rows_of_bytes: "csr_ok rows \<Longrightarrow> csr_rows (concat rows) (offsets 0 rows) = Ok rows"
  using csr_rows_offsets [of "[]" rows] by (simp add: csr_ok_def)

text \<open>The layers the format can carry: every dimension and count fits its field.\<close>

definition storable :: "sparse_ternary_layer \<Rightarrow> bool" where
  "storable l \<longleftrightarrow> packable l \<and> l_input_dim l < 2 ^ 32 \<and> l_output_dim l < 2 ^ 32 \<and>
     length (pos_indices l) = l_output_dim l \<and> length (neg_indices l) = l_output_dim l \<and>
     length (bias l) = l_output_dim l \<and> list_all i64_ok (bias l)"

lemma unpack_layer_at:
  assumes "storable l"
  shows "unpack_layer (cursor_at pre (layer_bytes l @ rest)) = Ok (l, cursor_at (pre @ layer_bytes l) rest)"
proof -
  let ?pos = "pos_indices l" and ?neg = "neg_indices l"
  have dims: "unat (of_nat (l_input_dim l) :: u32) = l_input_dim l"
    "unat (of_nat (l_output_dim l) :: u32) = l_output_dim l"
    "unat (of_nat (sum_list (map length ?pos)) :: u64) = length (concat ?pos)"
    "unat (of_nat (sum_list (map length ?neg)) :: u64) = length (concat ?neg)"
    using assms by (simp_all add: storable_def packable_def csr_ok_def unat_of_nat length_concat)
  have ptrs: "Suc (l_output_dim l) = length (offsets 0 ?pos)" "Suc (l_output_dim l) = length (offsets 0 ?neg)"
    "l_output_dim l = length (bias l)"
    using assms by (simp_all add: storable_def)
  have biases: "read_many read_i64 (l_output_dim l) (cursor_at p (concat (map i64_be (bias l)) @ rest))
      = Ok (bias l, cursor_at (p @ concat (map i64_be (bias l))) rest)" for p
    unfolding ptrs(3) using assms
    by (intro read_many_at read_i64_at) (auto simp: storable_def list_all_iff)
  have rows: "csr_rows (concat ?pos) (offsets 0 ?pos) = Ok ?pos" "csr_rows (concat ?neg) (offsets 0 ?neg) = Ok ?neg"
    using assms by (simp_all add: storable_def packable_def csr_rows_of_bytes)
  have pos_ptrs: "read_many read_u32 (Suc (l_output_dim l))
      (cursor_at p (concat (map u32_be (offsets 0 ?pos)) @ q)) =
      Ok (offsets 0 ?pos, cursor_at (p @ concat (map u32_be (offsets 0 ?pos))) q)" for p q
    unfolding ptrs(1) by (rule read_u32s)
  have neg_ptrs: "read_many read_u32 (Suc (l_output_dim l))
      (cursor_at p (concat (map u32_be (offsets 0 ?neg)) @ q)) =
      Ok (offsets 0 ?neg, cursor_at (p @ concat (map u32_be (offsets 0 ?neg))) q)" for p q
    unfolding ptrs(2) by (rule read_u32s)
  show ?thesis
    unfolding unpack_layer_def layer_bytes_def csr_bytes_def
    by (simp del: read_many.simps map_concat
        add: cursor_read dims pos_ptrs neg_ptrs read_u32s biases rows)
qed

definition storable_network :: "rstring \<Rightarrow> sparse_ternary_layer list \<Rightarrow> bool" where
  "storable_network name ls \<longleftrightarrow>
     length name < 2 ^ 16 \<and> valid_utf8 name \<and> length ls < 2 ^ 32 \<and> list_all storable ls"

lemma unpack_payload:
  assumes ok: "storable_network name ls" and dig: "length (xof (payload_of name i out ls) 32) = 32"
  defines "b \<equiv> payload_of name i out ls"
  shows "unpack_weights xof (b @ xof b 32) =
    Ok (\<lparr> wh_version = 1, wh_primitive = name, wh_input_dim = i, wh_output_dim = out,
          weights_hash = xof b 32, weights_hash_v2 = xof b 64 \<rparr>, ls)"
proof -
  have magic: "length MAGIC = 8" by (simp add: MAGIC_def)
  have len: "length (b @ xof b 32) - 32 = length b" "\<not> length (b @ xof b 32) < 32 + length MAGIC"
    using dig magic by (simp_all add: b_def payload_of_def)
  have nums: "unat (of_nat (length name) :: u16) = length name" "unat (of_nat (length ls) :: u32) = length ls"
    using ok by (simp_all add: storable_network_def unat_of_nat)
  have lays: "read_many unpack_layer (length ls) (cursor_at p (concat (map layer_bytes ls) @ q))
      = Ok (ls, cursor_at (p @ concat (map layer_bytes ls)) q)" for p q
    using ok by (intro read_many_at unpack_layer_at) (auto simp: storable_network_def list_all_iff)
  have lays': "read_many unpack_layer (length ls) (cursor_at p (concat (map layer_bytes ls)))
      = Ok (ls, cursor_at (p @ concat (map layer_bytes ls)) [])" for p
    using lays [of p "[]"] by simp
  have start: "\<lparr>c_buf = b, c_off = 0\<rparr> = cursor_at [] b" by (simp add: cursor_at_def)
  have utf: "valid_utf8 name" using ok by (simp add: storable_network_def)
  show ?thesis
    unfolding unpack_weights_def Let_def len(1)
    using len(2) utf
    by (simp add: start, simp add: b_def payload_of_def cursor_take_at cursor_read nums magic lays')
qed

section \<open>The canonical encoding is injective\<close>

lemma i64_be_inject: "i64_ok v \<Longrightarrow> i64_ok w \<Longrightarrow> i64_be v = i64_be w \<longleftrightarrow> v = w"
  by (metis i64_from_be_i64_be)

lemma concat_i64_be_inject:
  "list_all i64_ok xs \<Longrightarrow> list_all i64_ok ys \<Longrightarrow> length xs = length ys \<Longrightarrow>
     concat (map i64_be xs) @ r = concat (map i64_be ys) @ s \<longleftrightarrow> xs = ys \<and> r = s"
proof (induction xs arbitrary: ys)
  case Nil
  then show ?case by simp
next
  case (Cons x xs)
  then obtain y ys' where "ys = y # ys'" by (cases ys) auto
  with Cons show ?case by (auto simp: i64_be_inject)
qed

definition i64_vec :: "i64 list \<Rightarrow> bool" where
  "i64_vec xs \<longleftrightarrow> list_all i64_ok xs \<and> length xs < 2 ^ 32"

lemma encode_canonical_inject:
  assumes "i64_vec xs" "i64_vec ys"
  shows "encode_canonical xs @ r = encode_canonical ys @ s \<longleftrightarrow> xs = ys \<and> r = s"
proof
  assume eq: "encode_canonical xs @ r = encode_canonical ys @ s"
  then have "of_nat (length xs) = (of_nat (length ys) :: u32)"
    by (simp add: encode_canonical_def)
  then have "unat (of_nat (length xs) :: u32) = unat (of_nat (length ys) :: u32)"
    by simp
  then have "length xs = length ys"
    using assms by (simp add: i64_vec_def unat_of_nat)
  with eq assms show "xs = ys \<and> r = s"
    by (simp add: encode_canonical_def i64_vec_def concat_i64_be_inject)
qed simp

end
