(* ===== verification/Byte_Primitives.thy ===== *)
theory Byte_Primitives
  imports Weights
begin

text \<open>
  The two arithmetic primitives, \<open>ternary_vm/src/primitives/byte_add_with_carry.rs\<close> and
  \<open>byte_sub_with_borrow.rs\<close>: the four analytically built layers of each, input encoding,
  output decoding and the one-shot run. The theorems of this theory say that the networks
  compute byte addition with carry and byte subtraction with borrow on every input.
\<close>

section \<open>byte\_add\_with\_carry\<close>

definition A_MAX :: i64 where "A_MAX = 255"
definition B_MAX :: i64 where "B_MAX = 255"
definition C_MAX :: i64 where "C_MAX = 1"
definition TOTAL_MAX :: i64 where "TOTAL_MAX = A_MAX + B_MAX + C_MAX"
definition ADD_THERMO_LEN :: usize where "ADD_THERMO_LEN = nat (TOTAL_MAX + 1) + 1"
definition ADD_INPUT_DIM :: usize where
  "ADD_INPUT_DIM = nat (A_MAX + 1) + nat (B_MAX + 1) + nat (C_MAX + 1)"
definition ADD_OUTPUT_DIM :: usize where "ADD_OUTPUT_DIM = 256 + 1"

definition add_layer1_total :: sparse_ternary_layer where
  "add_layer1_total =
     \<lparr> l_input_dim = ADD_INPUT_DIM, l_output_dim = 1,
       pos_indices = [map of_nat [0..<ADD_INPUT_DIM]], neg_indices = [[]],
       bias = [- 3], relu = False \<rparr>"

definition add_layer2_parallel_relu :: sparse_ternary_layer where
  "add_layer2_parallel_relu =
     \<lparr> l_input_dim = 1, l_output_dim = 2 * ADD_THERMO_LEN,
       pos_indices = concat (map (\<lambda>i. [[0], [0]]) [0..<ADD_THERMO_LEN]),
       neg_indices = concat (map (\<lambda>i. [[], []]) [0..<ADD_THERMO_LEN]),
       bias = concat (map (\<lambda>i. [1 - int i, - int i]) [0..<ADD_THERMO_LEN]), relu = True \<rparr>"

definition add_layer3_thermo_decode :: sparse_ternary_layer where
  "add_layer3_thermo_decode =
     \<lparr> l_input_dim = 2 * ADD_THERMO_LEN, l_output_dim = ADD_THERMO_LEN,
       pos_indices = map (\<lambda>i. [of_nat (2 * i)]) [0..<ADD_THERMO_LEN],
       neg_indices = map (\<lambda>i. [of_nat (2 * i + 1)]) [0..<ADD_THERMO_LEN],
       bias = replicate ADD_THERMO_LEN 0, relu = False \<rparr>"

definition add_layer4_projection :: sparse_ternary_layer where
  "add_layer4_projection =
     \<lparr> l_input_dim = ADD_THERMO_LEN, l_output_dim = ADD_OUTPUT_DIM,
       pos_indices = map (\<lambda>k. [of_nat k, of_nat (k + 256)]) [0..<256] @ [[256]],
       neg_indices = map (\<lambda>k. [of_nat (k + 1), of_nat (k + 257)]) [0..<256] @ [[]],
       bias = replicate ADD_OUTPUT_DIM 0, relu = False \<rparr>"

definition byte_add_layers :: "sparse_ternary_layer list" where
  "byte_add_layers =
     [add_layer1_total, add_layer2_parallel_relu, add_layer3_thermo_decode, add_layer4_projection]"

definition byte_add_build :: "xof \<Rightarrow> (ternary_network, ternary_error) res" where
  "byte_add_build xof =
     build_network xof (ascii ''byte_add_with_carry'') (of_nat ADD_INPUT_DIM) (of_nat ADD_OUTPUT_DIM)
       byte_add_layers"

definition byte_add_encode_input :: "u8 \<Rightarrow> u8 \<Rightarrow> u8 \<Rightarrow> (i64 list, ternary_error) res" where
  "byte_add_encode_input a b c =
     (if c > 1 then Err (InputRange (ascii ''byte_add_with_carry'') (uint c) 1)
      else Ok (thermo_encode (uint a) A_MAX @ thermo_encode (uint b) B_MAX
               @ thermo_encode (uint c) C_MAX))"

definition byte_add_decode_output :: "i64 list \<Rightarrow> (u8 \<times> u8, ternary_error) res" where
  "byte_add_decode_output out =
     (if length out \<noteq> ADD_OUTPUT_DIM
      then Err (OutputDecode (ExpectedOutputs (ascii ''byte_add'') ADD_OUTPUT_DIM (length out)))
      else and_then (argmax (take 256 out)) (\<lambda>sum_byte.
           let carry = out ! 256
           in if \<not> (0 \<le> carry \<and> carry \<le> 1)
              then Err (OutputDecode (OutOfRange (ascii ''byte_add carry_out'') carry))
              else Ok (of_nat sum_byte, of_int carry)))"

definition byte_add_run :: "ternary_network \<Rightarrow> u8 \<Rightarrow> u8 \<Rightarrow> u8 \<Rightarrow> (u8 \<times> u8, ternary_error) res" where
  "byte_add_run net a b c =
     and_then (byte_add_encode_input a b c) (\<lambda>input.
     and_then (forward net input) byte_add_decode_output)"

section \<open>byte\_sub\_with\_borrow\<close>

definition M_MAX :: i64 where "M_MAX = 255"
definition S_MAX :: i64 where "S_MAX = 255"
definition BORROW_MAX :: i64 where "BORROW_MAX = 1"
definition TOTAL_SHIFTED_MAX :: i64 where
  "TOTAL_SHIFTED_MAX = M_MAX + (S_MAX + 1) + (BORROW_MAX + 1) - 1"
definition SUB_THERMO_LEN :: usize where "SUB_THERMO_LEN = nat (TOTAL_SHIFTED_MAX + 1) + 1"
definition SUB_INPUT_DIM :: usize where
  "SUB_INPUT_DIM = nat (M_MAX + 1) + nat (S_MAX + 1) + nat (BORROW_MAX + 1)"
definition SUB_OUTPUT_DIM :: usize where "SUB_OUTPUT_DIM = 256 + 1"

definition sub_layer1_total_shifted :: sparse_ternary_layer where
  "sub_layer1_total_shifted =
     (let m_lo = 0; m_hi = nat (M_MAX + 1);
          s_lo = m_hi; s_hi = s_lo + nat (S_MAX + 1);
          b_lo = s_hi; b_hi = b_lo + nat (BORROW_MAX + 1)
      in \<lparr> l_input_dim = SUB_INPUT_DIM, l_output_dim = 1,
           pos_indices = [map of_nat [m_lo..<m_hi]],
           neg_indices = [map of_nat [s_lo..<s_hi] @ map of_nat [b_lo..<b_hi]],
           bias = [257], relu = False \<rparr>)"

definition sub_layer2_parallel_relu :: sparse_ternary_layer where
  "sub_layer2_parallel_relu =
     \<lparr> l_input_dim = 1, l_output_dim = 2 * SUB_THERMO_LEN,
       pos_indices = concat (map (\<lambda>i. [[0], [0]]) [0..<SUB_THERMO_LEN]),
       neg_indices = concat (map (\<lambda>i. [[], []]) [0..<SUB_THERMO_LEN]),
       bias = concat (map (\<lambda>i. [1 - int i, - int i]) [0..<SUB_THERMO_LEN]), relu = True \<rparr>"

definition sub_layer3_thermo_decode :: sparse_ternary_layer where
  "sub_layer3_thermo_decode =
     \<lparr> l_input_dim = 2 * SUB_THERMO_LEN, l_output_dim = SUB_THERMO_LEN,
       pos_indices = map (\<lambda>i. [of_nat (2 * i)]) [0..<SUB_THERMO_LEN],
       neg_indices = map (\<lambda>i. [of_nat (2 * i + 1)]) [0..<SUB_THERMO_LEN],
       bias = replicate SUB_THERMO_LEN 0, relu = False \<rparr>"

definition sub_layer4_projection :: sparse_ternary_layer where
  "sub_layer4_projection =
     \<lparr> l_input_dim = SUB_THERMO_LEN, l_output_dim = SUB_OUTPUT_DIM,
       pos_indices = map (\<lambda>k. [of_nat k, of_nat (k + 256)]) [0..<256] @ [[]],
       neg_indices = map (\<lambda>k. [of_nat (k + 1), of_nat (k + 257)]) [0..<256] @ [[256]],
       bias = (replicate SUB_OUTPUT_DIM 0)[256 := 1], relu = False \<rparr>"

definition byte_sub_layers :: "sparse_ternary_layer list" where
  "byte_sub_layers =
     [sub_layer1_total_shifted, sub_layer2_parallel_relu, sub_layer3_thermo_decode,
      sub_layer4_projection]"

definition byte_sub_build :: "xof \<Rightarrow> (ternary_network, ternary_error) res" where
  "byte_sub_build xof =
     build_network xof (ascii ''byte_sub_with_borrow'') (of_nat SUB_INPUT_DIM) (of_nat SUB_OUTPUT_DIM)
       byte_sub_layers"

definition byte_sub_encode_input :: "u8 \<Rightarrow> u8 \<Rightarrow> u8 \<Rightarrow> (i64 list, ternary_error) res" where
  "byte_sub_encode_input m s b =
     (if b > 1 then Err (InputRange (ascii ''byte_sub_with_borrow'') (uint b) 1)
      else Ok (thermo_encode (uint m) M_MAX @ thermo_encode (uint s) S_MAX
               @ thermo_encode (uint b) BORROW_MAX))"

definition byte_sub_decode_output :: "i64 list \<Rightarrow> (u8 \<times> u8, ternary_error) res" where
  "byte_sub_decode_output out =
     (if length out \<noteq> SUB_OUTPUT_DIM
      then Err (OutputDecode (ExpectedOutputs (ascii ''byte_sub'') SUB_OUTPUT_DIM (length out)))
      else and_then (argmax (take 256 out)) (\<lambda>diff_byte.
           let borrow = out ! 256
           in if \<not> (0 \<le> borrow \<and> borrow \<le> 1)
              then Err (OutputDecode (OutOfRange (ascii ''byte_sub borrow_out'') borrow))
              else Ok (of_nat diff_byte, of_int borrow)))"

definition byte_sub_run :: "ternary_network \<Rightarrow> u8 \<Rightarrow> u8 \<Rightarrow> u8 \<Rightarrow> (u8 \<times> u8, ternary_error) res" where
  "byte_sub_run net m s b =
     and_then (byte_sub_encode_input m s b) (\<lambda>input.
     and_then (forward net input) byte_sub_decode_output)"

section \<open>The shared layers\<close>

lemma unat_index: "k < 4294967296 \<Longrightarrow> unat (of_nat k :: u32) = k"
  by (simp add: unat_of_nat)

lemma gather_range:
  assumes "hi \<le> length x" "hi \<le> 4294967296"
  shows "map (\<lambda>j. x ! unat (j :: u32)) (map of_nat [lo..<hi]) = take (hi - lo) (drop lo x)"
  using assms by (intro nth_equalityI) (auto simp: unat_index simp del: of_nat_add)

lemma concat_pairs_nth:
  "k < 2 * n \<Longrightarrow> concat (map (\<lambda>i. [f i, g i]) [0..<n]) ! k =
     (if even k then f (k div 2) else g (k div 2))"
proof (induction n)
  case 0
  then show ?case by simp
next
  case (Suc n)
  have len: "length (concat (map (\<lambda>i. [f i, g i]) [0..<n])) = 2 * n"
    by (simp add: length_concat comp_def sum_list_triv)
  consider "k < 2 * n" | "k = 2 * n" | "k = Suc (2 * n)"
    using Suc.prems by (cases "k < 2 * n"; cases "k = 2 * n") auto
  then show ?case
    using Suc.IH by cases (simp_all add: nth_append len)
qed

lemma length_concat_pairs [simp]: "length (concat (map (\<lambda>i. [f i, g i]) [0..<n])) = 2 * n"
  by (simp add: length_concat comp_def sum_list_triv)

text \<open>The parallel ReLU stage and the pairwise difference, for any thermometer length.\<close>

definition relu_stage :: "nat \<Rightarrow> sparse_ternary_layer" where
  "relu_stage n =
     \<lparr> l_input_dim = 1, l_output_dim = 2 * n,
       pos_indices = concat (map (\<lambda>i. [[0], [0]]) [0..<n]),
       neg_indices = concat (map (\<lambda>i. [[], []]) [0..<n]),
       bias = concat (map (\<lambda>i. [1 - int i, - int i]) [0..<n]), relu = True \<rparr>"

definition diff_stage :: "nat \<Rightarrow> sparse_ternary_layer" where
  "diff_stage n =
     \<lparr> l_input_dim = 2 * n, l_output_dim = n,
       pos_indices = map (\<lambda>i. [of_nat (2 * i)]) [0..<n],
       neg_indices = map (\<lambda>i. [of_nat (2 * i + 1)]) [0..<n],
       bias = replicate n 0, relu = False \<rparr>"

definition thermo_vec :: "nat \<Rightarrow> int \<Rightarrow> int list" where
  "thermo_vec n t = map (\<lambda>i. if int i \<le> t then 1 else 0) [0..<n]"

lemma layer_wf_relu_stage: "layer_wf (relu_stage n)"
  by (simp add: layer_wf_def relu_stage_def list_all_length concat_pairs_nth)

lemma layer_wf_diff_stage: "n \<le> 1000000 \<Longrightarrow> layer_wf (diff_stage n)"
  by (simp add: layer_wf_def diff_stage_def list_all_length unat_index del: of_nat_add of_nat_mult of_nat_Suc)

lemma relu_stage_value:
  assumes t: "\<bar>t\<bar> \<le> 1000000" and n: "n \<le> 1000000"
  shows "layer_forward (relu_stage n) [t] (replicate (2 * n) 0) li =
    Ok (map (\<lambda>k. max 0 ((if even k then 1 else 0) - int (k div 2) + t)) [0..<2 * n])"
proof -
  have "layer_forward (relu_stage n) [t] (replicate (2 * n) 0) li =
      Ok (map (row_value (relu_stage n) [t]) [0..<l_output_dim (relu_stage n)])"
  proof (rule layer_forward_value [OF layer_wf_relu_stage])
    show "headroom (relu_stage n) 1000000"
      using n by (auto simp: headroom_def relu_stage_def list_all_length concat_pairs_nth i64_max_def)
  qed (use t in \<open>simp_all add: relu_stage_def magnitude_def\<close>)
  also have "\<dots> = Ok (map (\<lambda>k. max 0 ((if even k then 1 else 0) - int (k div 2) + t)) [0..<2 * n])"
    by (auto simp: relu_stage_def row_value_def row_sum_def concat_pairs_nth)
  finally show ?thesis .
qed

lemma diff_stage_value:
  assumes t: "\<bar>t\<bar> \<le> 1000000" and n: "n \<le> 1000000"
  defines "y \<equiv> map (\<lambda>k. max 0 ((if even k then 1 else 0) - int (k div 2) + t)) [0..<2 * n]"
  shows "layer_forward (diff_stage n) y (replicate n 0) li = Ok (thermo_vec n t)"
proof -
  have "layer_forward (diff_stage n) y (replicate n 0) li =
      Ok (map (row_value (diff_stage n) y) [0..<l_output_dim (diff_stage n)])"
  proof (rule layer_forward_value [OF layer_wf_diff_stage [OF n]])
    show "magnitude y 3000000"
      using t n by (auto simp: y_def magnitude_def list_all_length)
  qed (simp_all add: diff_stage_def y_def headroom_def list_all_length i64_max_def)
  also have "\<dots> = Ok (thermo_vec n t)"
    using n
    by (auto simp: diff_stage_def row_value_def row_sum_def y_def thermo_vec_def unat_index
        simp del: of_nat_add of_nat_mult of_nat_Suc)
  finally show ?thesis .
qed

lemma thermo_vec_nth [simp]: "i < n \<Longrightarrow> thermo_vec n t ! i = (if int i \<le> t then 1 else 0)"
  by (simp add: thermo_vec_def)

lemma length_thermo_vec [simp]: "length (thermo_vec n t) = n"
  by (simp add: thermo_vec_def)

lemma magnitude_thermo_vec: "magnitude (thermo_vec n t) 1"
  by (auto simp: thermo_vec_def magnitude_def list_all_length)

section \<open>Encoded inputs\<close>

lemma uint_u8_bounds [simp]: "0 \<le> uint (b :: u8)" "uint (b :: u8) \<le> 255"
proof -
  have "uint b < 2 ^ LENGTH(8)" by (rule unsigned_less)
  then show "uint b \<le> 255" by simp
qed simp

lemma magnitude_thermo_encode: "magnitude (thermo_encode v m) 1"
  using thermo_encode_bits by (fastforce simp: magnitude_def list_all_iff)

lemma magnitude_append: "magnitude (x @ y) M \<longleftrightarrow> magnitude x M \<and> magnitude y M"
  by (auto simp: magnitude_def)

lemma carry_bound: "c \<le> 1 \<Longrightarrow> uint (c :: u8) \<le> 1"
  by (simp add: word_le_def)


lemmas add_consts = A_MAX_def B_MAX_def C_MAX_def TOTAL_MAX_def ADD_THERMO_LEN_def
  ADD_INPUT_DIM_def ADD_OUTPUT_DIM_def

lemmas sub_consts = M_MAX_def S_MAX_def BORROW_MAX_def TOTAL_SHIFTED_MAX_def SUB_THERMO_LEN_def
  SUB_INPUT_DIM_def SUB_OUTPUT_DIM_def

lemma thermo_lens: "ADD_THERMO_LEN = 513" "SUB_THERMO_LEN = 514"
  by (simp_all add: add_consts sub_consts)

lemma shared_stages:
  "add_layer2_parallel_relu = relu_stage 513" "add_layer3_thermo_decode = diff_stage 513"
  "sub_layer2_parallel_relu = relu_stage 514" "sub_layer3_thermo_decode = diff_stage 514"
  by (simp_all add: add_layer2_parallel_relu_def add_layer3_thermo_decode_def
      sub_layer2_parallel_relu_def sub_layer3_thermo_decode_def relu_stage_def diff_stage_def
      thermo_lens)

section \<open>The first layers compute the totals\<close>

lemma add_layer1_value:
  fixes a b c :: u8
  assumes "c \<le> 1"
  defines "x \<equiv> thermo_encode (uint a) A_MAX @ thermo_encode (uint b) B_MAX @ thermo_encode (uint c) C_MAX"
  shows "layer_forward add_layer1_total x [0] li = Ok [uint a + uint b + uint c]"
proof -
  have len: "length x = 514" by (simp add: x_def add_consts)
  have "layer_forward add_layer1_total x [0] li =
      Ok (map (row_value add_layer1_total x) [0..<l_output_dim add_layer1_total])"
  proof (rule layer_forward_value [where M = 1])
    show "layer_wf add_layer1_total"
      by (simp add: layer_wf_def add_layer1_total_def list_all_length add_consts unat_index)
    show "magnitude x 1"
      by (simp add: x_def magnitude_append magnitude_thermo_encode)
    show "headroom add_layer1_total 1"
      by (simp add: headroom_def add_layer1_total_def add_consts i64_max_def)
  qed (simp_all add: add_layer1_total_def len add_consts)
  moreover have "row_value add_layer1_total x 0 = - 3 + sum_list x"
    using gather_range [of 514 x 0] len
    by (simp add: row_value_def row_sum_def add_layer1_total_def add_consts)
  moreover have "sum_list x = uint a + uint b + uint c + 3"
    using assms(1) by (simp add: x_def sum_thermo_encode add_consts carry_bound)
  ultimately show ?thesis by (simp add: add_layer1_total_def)
qed

lemma sub_layer1_value:
  fixes m s b :: u8
  assumes "b \<le> 1"
  defines "x \<equiv> thermo_encode (uint m) M_MAX @ thermo_encode (uint s) S_MAX @ thermo_encode (uint b) BORROW_MAX"
  shows "layer_forward sub_layer1_total_shifted x [0] li =
    Ok [uint m - uint s - uint b + 256]"
proof -
  have len: "length x = 514" by (simp add: x_def sub_consts)
  have neg: "map of_nat [256..<256 + 256] @ map of_nat [256 + 256..<256 + 256 + 2] =
      (map of_nat [256..<256 + 256 + 2] :: u32 list)"
    using upt_add_eq_append [of 256 "256 + 256" 2] by (metis le_add1 map_append)
  have dims: "nat (M_MAX + 1) = 256" "nat (S_MAX + 1) = 256" "nat (BORROW_MAX + 1) = 2"
    "SUB_INPUT_DIM = 514"
    by (simp_all add: sub_consts)
  have l1: "sub_layer1_total_shifted =
      \<lparr> l_input_dim = 514, l_output_dim = 1, pos_indices = [map of_nat [0..<256]],
        neg_indices = [map of_nat [256..<256 + 256 + 2]], bias = [257], relu = False \<rparr>"
    by (simp only: sub_layer1_total_shifted_def Let_def dims neg)
  have "layer_forward sub_layer1_total_shifted x [0] li =
      Ok (map (row_value sub_layer1_total_shifted x) [0..<l_output_dim sub_layer1_total_shifted])"
  proof (rule layer_forward_value [where M = 1])
    show "layer_wf sub_layer1_total_shifted"
      by (simp add: layer_wf_def l1 list_all_length unat_index del: of_nat_add of_nat_Suc)
    show "magnitude x 1"
      by (simp add: x_def magnitude_append magnitude_thermo_encode)
    show "headroom sub_layer1_total_shifted 1"
      by (simp add: headroom_def l1 i64_max_def)
  qed (simp_all add: l1 len)
  moreover have "take 256 x = thermo_encode (uint m) 255"
    "drop 256 x = thermo_encode (uint s) 255 @ thermo_encode (uint b) 1"
    by (simp_all add: x_def sub_consts)
  then have "row_value sub_layer1_total_shifted x 0 = uint m - uint s - uint b + 256"
    using gather_range [of 256 x 0] gather_range [of 514 x 256] len assms(1)
    by (simp add: row_value_def row_sum_def l1 sum_thermo_encode carry_bound)
  ultimately show ?thesis by (simp add: l1)
qed

section \<open>The projection layers decode the thermometer\<close>

definition one_hot :: "nat \<Rightarrow> nat \<Rightarrow> int list" where
  "one_hot n k = map (\<lambda>i. if i = k then 1 else 0) [0..<n]"

lemma one_hot_step:
  assumes "k < 256" "0 \<le> t" "t \<le> 511"
  shows "(if int k \<le> t then 1 else 0) + (if int (k + 256) \<le> t then 1 else 0)
      - ((if int (k + 1) \<le> t then 1 else 0) + (if int (k + 257) \<le> t then 1 else 0))
    = (if k = nat t mod 256 then 1 else (0::int))"
proof (cases "t < 256")
  case True
  with assms have "nat t mod 256 = nat t" by simp
  with assms True show ?thesis by auto
next
  case False
  with assms have "nat t mod 256 = nat t - 256" by (simp add: mod_if)
  with assms False show ?thesis by auto
qed

lemma add_layer4_value:
  assumes t: "0 \<le> t" "t \<le> 511"
  shows "layer_forward add_layer4_projection (thermo_vec 513 t) (replicate 257 0) li =
    Ok (one_hot 256 (nat t mod 256) @ [if 256 \<le> t then 1 else 0])"
proof -
  let ?x = "thermo_vec 513 t" and ?l = add_layer4_projection
  have "layer_forward ?l ?x (replicate 257 0) li =
      Ok (map (row_value ?l ?x) [0..<l_output_dim ?l])"
  proof (rule layer_forward_value [where M = 1])
    show "layer_wf ?l"
      by (auto simp add: layer_wf_def add_layer4_projection_def add_consts list_all_iff unat_index
          simp del: of_nat_add of_nat_Suc)
    show "headroom ?l 1"
      by (auto simp: headroom_def add_layer4_projection_def list_all_iff add_consts i64_max_def nth_append)
  qed (simp_all add: add_layer4_projection_def add_consts magnitude_thermo_vec)
  also have "map (row_value ?l ?x) [0..<l_output_dim ?l] = map (row_value ?l ?x) [0..<256] @ [row_value ?l ?x 256]"
    using upt_Suc_append [of 0 256] by (simp add: add_layer4_projection_def add_consts)
  also have "map (row_value ?l ?x) [0..<256] = one_hot 256 (nat t mod 256)"
    unfolding one_hot_def
  proof (rule map_cong [OF refl])
    fix k :: nat assume "k \<in> set [0..<256]"
    then have k: "k < 256" by simp
    then show "row_value ?l ?x k = (if k = nat t mod 256 then 1 else 0)"
      using one_hot_step [OF k t]
      by (simp add: row_value_def row_sum_def add_layer4_projection_def add_consts nth_append
          unat_index del: of_nat_add of_nat_Suc)
  qed
  also have "row_value ?l ?x 256 = (if 256 \<le> t then 1 else 0)"
    by (simp add: row_value_def row_sum_def add_layer4_projection_def add_consts nth_append)
  finally show ?thesis .
qed

lemma sub_layer4_value:
  assumes t: "0 \<le> t" "t \<le> 511"
  shows "layer_forward sub_layer4_projection (thermo_vec 514 t) (replicate 257 0) li =
    Ok (one_hot 256 (nat t mod 256) @ [if 256 \<le> t then 0 else 1])"
proof -
  let ?x = "thermo_vec 514 t" and ?l = sub_layer4_projection
  have "layer_forward ?l ?x (replicate 257 0) li =
      Ok (map (row_value ?l ?x) [0..<l_output_dim ?l])"
  proof (rule layer_forward_value [where M = 1])
    show "layer_wf ?l"
      by (auto simp add: layer_wf_def sub_layer4_projection_def sub_consts list_all_iff unat_index
          simp del: of_nat_add of_nat_Suc)
    show "headroom ?l 1"
      by (auto simp: headroom_def sub_layer4_projection_def list_all_iff sub_consts i64_max_def
          nth_append nth_list_update)
  qed (simp_all add: sub_layer4_projection_def sub_consts magnitude_thermo_vec)
  also have "map (row_value ?l ?x) [0..<l_output_dim ?l] = map (row_value ?l ?x) [0..<256] @ [row_value ?l ?x 256]"
    using upt_Suc_append [of 0 256] by (simp add: sub_layer4_projection_def sub_consts)
  also have "map (row_value ?l ?x) [0..<256] = one_hot 256 (nat t mod 256)"
    unfolding one_hot_def
  proof (rule map_cong [OF refl])
    fix k :: nat assume "k \<in> set [0..<256]"
    then have k: "k < 256" by simp
    then show "row_value ?l ?x k = (if k = nat t mod 256 then 1 else 0)"
      using one_hot_step [OF k t]
      by (simp add: row_value_def row_sum_def sub_layer4_projection_def sub_consts nth_append
          nth_list_update unat_index del: of_nat_add of_nat_Suc)
  qed
  also have "row_value ?l ?x 256 = (if 256 \<le> t then 0 else 1)"
    by (simp add: row_value_def row_sum_def sub_layer4_projection_def sub_consts nth_append)
  finally show ?thesis .
qed

section \<open>The networks are built and compute byte arithmetic\<close>

lemma sum_lengths_pairs:
  "sum_list (map length (concat (map (\<lambda>i. [f i, g i]) [0..<n]))) =
     sum_list (map (\<lambda>i. length (f i) + length (g i)) [0..<n])"
  by (induction n) auto

lemma packable_stages:
  "n \<le> 1000000 \<Longrightarrow> packable (relu_stage n)" "n \<le> 1000000 \<Longrightarrow> packable (diff_stage n)"
  by (simp_all add: packable_def csr_ok_def relu_stage_def diff_stage_def sum_lengths_pairs
      comp_def sum_list_triv)

lemma packable_byte_layers: "list_all packable byte_add_layers" "list_all packable byte_sub_layers"
proof -
  have "packable add_layer1_total" "packable add_layer4_projection"
    by (simp_all add: packable_def csr_ok_def add_layer1_total_def add_layer4_projection_def
        add_consts comp_def sum_list_triv)
  moreover have "packable sub_layer1_total_shifted" "packable sub_layer4_projection"
    by (simp_all add: packable_def csr_ok_def sub_layer1_total_shifted_def sub_layer4_projection_def
        sub_consts comp_def sum_list_triv)
  ultimately show "list_all packable byte_add_layers" "list_all packable byte_sub_layers"
    by (simp_all add: byte_add_layers_def byte_sub_layers_def shared_stages packable_stages)
qed

definition byte_add_net :: "xof \<Rightarrow> ternary_network" where
  "byte_add_net xof = network_of xof (ascii ''byte_add_with_carry'') (of_nat ADD_INPUT_DIM)
     (of_nat ADD_OUTPUT_DIM) byte_add_layers"

definition byte_sub_net :: "xof \<Rightarrow> ternary_network" where
  "byte_sub_net xof = network_of xof (ascii ''byte_sub_with_borrow'') (of_nat SUB_INPUT_DIM)
     (of_nat SUB_OUTPUT_DIM) byte_sub_layers"

lemma byte_builds_ok [simp]:
  "byte_add_build xof = Ok (byte_add_net xof)" "byte_sub_build xof = Ok (byte_sub_net xof)"
  by (simp_all add: byte_add_build_def byte_sub_build_def byte_add_net_def byte_sub_net_def
      build_network_ok packable_byte_layers)

lemma layers_byte_nets [simp]:
  "layers (byte_add_net xof) = byte_add_layers" "layers (byte_sub_net xof) = byte_sub_layers"
  by (simp_all add: byte_add_net_def byte_sub_net_def)

lemma argmax_one_hot_256: "k < 256 \<Longrightarrow> argmax (take 256 (one_hot 256 k @ [v])) = Ok k"
  by (rule argmax_one_hot) (auto simp: one_hot_def)

lemma length_one_hot [simp]: "length (one_hot n k) = n"
  by (simp add: one_hot_def)

lemma byte_add_forward:
  fixes a b c :: u8
  assumes "c \<le> 1" "layers net = byte_add_layers"
  defines "t \<equiv> uint a + uint b + uint c"
  shows "forward net (thermo_encode (uint a) A_MAX @ thermo_encode (uint b) B_MAX @ thermo_encode (uint c) C_MAX)
    = Ok (one_hot 256 (nat t mod 256) @ [if 256 \<le> t then 1 else 0])"
proof -
  have t: "0 \<le> t" "t \<le> 511" "\<bar>t\<bar> \<le> 1000000"
    using uint_u8_bounds [of a] uint_u8_bounds [of b] uint_u8_bounds [of c] carry_bound [OF assms(1)]
    unfolding t_def by linarith+
  have dims: "l_output_dim add_layer1_total = 1" "l_output_dim (relu_stage 513) = 2 * 513"
    "l_output_dim (diff_stage 513) = 513" "l_output_dim add_layer4_projection = 257"
    "l_input_dim add_layer1_total = 514"
    by (simp_all add: add_layer1_total_def relu_stage_def diff_stage_def add_layer4_projection_def add_consts)
  have repl: "replicate 1 (0::int) = [0]" by simp
  show ?thesis
    unfolding forward_def assms(2) byte_add_layers_def shared_stages
    by (simp only: list.case forward_layers.simps and_then.simps dims repl
        add_layer1_value [OF assms(1)] relu_stage_value [OF t(3)] diff_stage_value [OF t(3)]
        add_layer4_value [OF t(1,2)] flip: t_def) (simp add: add_consts)
qed

lemma byte_sub_forward:
  fixes m s b :: u8
  assumes "b \<le> 1" "layers net = byte_sub_layers"
  defines "t \<equiv> uint m - uint s - uint b + 256"
  shows "forward net (thermo_encode (uint m) M_MAX @ thermo_encode (uint s) S_MAX @ thermo_encode (uint b) BORROW_MAX)
    = Ok (one_hot 256 (nat t mod 256) @ [if 256 \<le> t then 0 else 1])"
proof -
  have t: "0 \<le> t" "t \<le> 511" "\<bar>t\<bar> \<le> 1000000"
    using uint_u8_bounds [of m] uint_u8_bounds [of s] uint_u8_bounds [of b] carry_bound [OF assms(1)]
    unfolding t_def by linarith+
  have dims: "l_output_dim sub_layer1_total_shifted = 1" "l_output_dim (relu_stage 514) = 2 * 514"
    "l_output_dim (diff_stage 514) = 514" "l_output_dim sub_layer4_projection = 257"
    "l_input_dim sub_layer1_total_shifted = 514"
    by (simp_all add: sub_layer1_total_shifted_def relu_stage_def diff_stage_def
        sub_layer4_projection_def sub_consts)
  have repl: "replicate 1 (0::int) = [0]" by simp
  show ?thesis
    unfolding forward_def assms(2) byte_sub_layers_def shared_stages
    by (simp only: list.case forward_layers.simps and_then.simps dims repl
        sub_layer1_value [OF assms(1)] relu_stage_value [OF t(3)] diff_stage_value [OF t(3)]
        sub_layer4_value [OF t(1,2)] flip: t_def) (simp add: sub_consts)
qed

lemma uint_as_nat: "uint (x :: u8) = int (unat x)"
  by simp

lemma byte_decode_outputs:
  assumes "k < 256" "v = 0 \<or> v = 1"
  shows "byte_add_decode_output (one_hot 256 k @ [v]) = Ok (of_nat k, of_int v)"
    "byte_sub_decode_output (one_hot 256 k @ [v]) = Ok (of_nat k, of_int v)"
  using assms argmax_one_hot_256 [OF assms(1), of v]
  by (auto simp: byte_add_decode_output_def byte_sub_decode_output_def add_consts sub_consts nth_append)

lemma byte_add_run_value:
  assumes "c \<le> 1" "layers net = byte_add_layers"
  shows "byte_add_run net a b c =
    Ok (of_nat ((unat a + unat b + unat c) mod 256), of_nat ((unat a + unat b + unat c) div 256))"
proof -
  let ?t = "uint a + uint b + uint c" and ?n = "unat a + unat b + unat c"
  have t: "nat ?t = ?n" by (simp add: nat_add_distrib)
  have cmp: "256 \<le> ?t \<longleftrightarrow> 256 \<le> ?n" unfolding uint_as_nat by linarith
  have "?n div 256 = (if 256 \<le> ?n then 1 else 0)"
  proof -
    have "c \<le> 1 \<Longrightarrow> unat c \<le> 1" by (simp add: word_le_nat_alt)
    then have "?n < 512" using assms(1) unat_u8_le [of a] unat_u8_le [of b] by simp
    then show ?thesis by (simp add: div_nat_eqI)
  qed
  moreover have "byte_add_run net a b c = Ok (of_nat (nat ?t mod 256), of_int (if 256 \<le> ?t then 1 else 0))"
    using assms(1)
    by (simp add: byte_add_run_def byte_add_encode_input_def byte_add_forward [OF assms]
        byte_decode_outputs leD)
  ultimately show ?thesis unfolding t cmp by simp
qed

lemma byte_sub_run_value:
  assumes "b \<le> 1" "layers net = byte_sub_layers"
  shows "byte_sub_run net m s b =
    Ok (of_nat ((256 + unat m - unat s - unat b) mod 256),
        if unat m < unat s + unat b then 1 else 0)"
proof -
  let ?t = "uint m - uint s - uint b + 256"
  have b: "unat b \<le> 1" using assms(1) by (simp add: word_le_nat_alt)
  have t: "nat ?t = 256 + unat m - unat s - unat b"
    unfolding uint_as_nat using unat_u8_le [of s] b by linarith
  have cmp: "256 \<le> ?t \<longleftrightarrow> \<not> unat m < unat s + unat b" unfolding uint_as_nat by linarith
  have "byte_sub_run net m s b = Ok (of_nat (nat ?t mod 256), of_int (if 256 \<le> ?t then 0 else 1))"
    using assms(1)
    by (simp add: byte_sub_run_def byte_sub_encode_input_def byte_sub_forward [OF assms]
        byte_decode_outputs leD)
  then show ?thesis unfolding t cmp by simp
qed

end
