(* ===== verification/Byte_Chains.thy ===== *)
theory Byte_Chains
  imports Byte_Primitives
begin

text \<open>
  The multi-byte programs composed from the byte networks:
  \<open>ternary_vm/src/primitives/transfer_check.rs\<close>, \<open>transfer_finalize.rs\<close> and the chains of
  \<open>agent_contracts/src/guarded.rs\<close> with their wrapped transfer. The interface of a byte
  adder and of a byte subtractor is a locale each; the chain theorems are proved there once
  and used through the interpretation on the two networks.
\<close>

section \<open>Carry chains\<close>

text \<open>
  The loop all chains share: byte \<open>i\<close> of both operands and the carry of byte \<open>i - 1\<close> go
  through the byte operation. Operands of different length cannot occur for fixed arrays;
  the index would be out of range.
\<close>

fun carry_loop ::
  "(u8 \<Rightarrow> u8 \<Rightarrow> u8 \<Rightarrow> (u8 \<times> u8, 'e) res) \<Rightarrow> bytes \<Rightarrow> bytes \<Rightarrow> u8 \<Rightarrow> (bytes \<times> u8, 'e) res" where
  "carry_loop f [] [] c = Ok ([], c)"
| "carry_loop f (a # as) (b # bs) c =
     and_then (f a b c) (\<lambda>(s, c').
     and_then (carry_loop f as bs c') (\<lambda>(ss, c''). Ok (s # ss, c'')))"
| "carry_loop f _ _ c = Panic"

definition transfer_check_run :: "ternary_network \<Rightarrow> bytes \<Rightarrow> bytes \<Rightarrow> (u8, ternary_error) res" where
  "transfer_check_run net from amount =
     and_then (carry_loop (byte_sub_run net) from amount 0) (\<lambda>(_, borrow). Ok (1 - borrow))"

definition transfer_finalize_run :: "ternary_network \<Rightarrow> bytes \<Rightarrow> (bytes, ternary_error) res" where
  "transfer_finalize_run net nonce =
     and_then (carry_loop (byte_add_run net) nonce (replicate 8 0) 1) (\<lambda>(new_nonce, _).
     Ok new_nonce)"

section \<open>Guarded transfers\<close>

datatype contract_error =
    C_InputShape rstring usize usize
  | C_Primitive ternary_error
  | C_Precondition rstring
  | C_Overflow rstring

definition u128_sub_chain :: "ternary_network \<Rightarrow> bytes \<Rightarrow> bytes \<Rightarrow> (bytes \<times> u8, contract_error) res" where
  "u128_sub_chain byte_sub a b = map_err C_Primitive (carry_loop (byte_sub_run byte_sub) a b 0)"

definition u128_add_chain :: "ternary_network \<Rightarrow> bytes \<Rightarrow> bytes \<Rightarrow> (bytes \<times> u8, contract_error) res" where
  "u128_add_chain byte_add a b = map_err C_Primitive (carry_loop (byte_add_run byte_add) a b 0)"

definition u64_ge :: "ternary_network \<Rightarrow> bytes \<Rightarrow> bytes \<Rightarrow> (u8, contract_error) res" where
  "u64_ge byte_sub a b =
     map_err C_Primitive (transfer_check_run byte_sub (a @ replicate 8 0) (b @ replicate 8 0))"

definition no_op_output :: "usize \<Rightarrow> bytes" where
  "no_op_output len = replicate len 0"

definition wrapped_transfer ::
  "ternary_network \<Rightarrow> ternary_network \<Rightarrow> bytes \<Rightarrow> bytes \<Rightarrow> bytes \<Rightarrow> bytes \<Rightarrow> (bytes, contract_error) res" where
  "wrapped_transfer byte_add byte_sub from_balance to_balance amount nonce =
     and_then (map_err C_Primitive (transfer_check_run byte_sub from_balance amount)) (\<lambda>ok.
     if ok \<noteq> 1 then Ok (no_op_output 40)
     else and_then (u128_sub_chain byte_sub from_balance amount) (\<lambda>(new_from, _).
          and_then (u128_add_chain byte_add to_balance amount) (\<lambda>(new_to, carry).
          if carry = 1 then Ok (no_op_output 40)
          else and_then (map_err C_Primitive (transfer_finalize_run byte_add nonce)) (\<lambda>new_nonce.
               Ok (new_from @ new_to @ new_nonce)))))"

section \<open>The interface of the byte operations\<close>

locale byte_adder =
  fixes add :: "u8 \<Rightarrow> u8 \<Rightarrow> u8 \<Rightarrow> (u8 \<times> u8, 'e) res"
  assumes add_byte: "c \<le> 1 \<Longrightarrow> add a b c =
    Ok (of_nat ((unat a + unat b + unat c) mod 256), of_nat ((unat a + unat b + unat c) div 256))"
begin

lemma carry_le_1:
  assumes "c \<le> 1"
  shows "unat (of_nat ((unat (a :: u8) + unat (b :: u8) + unat c) div 256) :: u8) =
      (unat a + unat b + unat c) div 256"
    and "of_nat ((unat a + unat b + unat c) div 256) \<le> (1 :: u8)"
proof -
  have "unat c \<le> 1" using assms by (simp add: word_le_nat_alt)
  then have small: "(unat a + unat b + unat c) div 256 \<le> 1"
    using unat_u8_le [of a] unat_u8_le [of b] by simp
  then show "unat (of_nat ((unat a + unat b + unat c) div 256) :: u8) = (unat a + unat b + unat c) div 256"
    using small by (simp add: unat_of_nat)
  with small show "of_nat ((unat a + unat b + unat c) div 256) \<le> (1 :: u8)"
    by (simp add: word_le_nat_alt)
qed

lemma add_chain:
  assumes "length as = length bs" "c \<le> 1"
  shows "carry_loop add as bs c =
    Ok (le_bytes (length as) (le_nat as + le_nat bs + unat c),
        of_nat ((le_nat as + le_nat bs + unat c) div 256 ^ length as))"
  using assms
proof (induction as bs arbitrary: c rule: list_induct2)
  case Nil
  then show ?case by simp
next
  case (Cons a as b bs)
  let ?s = "unat a + unat b + unat c"
  let ?T = "unat a + 256 * le_nat as + (unat b + 256 * le_nat bs) + unat c"
  have split: "?T = ?s + 256 * (le_nat as + le_nat bs)" by simp
  have low: "of_nat ?T = (of_nat (?s mod 256) :: u8)"
    unfolding split by (rule of_nat_low_byte)
  have high: "?T div 256 = le_nat as + le_nat bs + ?s div 256"
    unfolding split by simp
  have "carry_loop add as bs (of_nat (?s div 256)) =
      Ok (le_bytes (length as) (?T div 256), of_nat (?T div 256 div 256 ^ length as))"
    using Cons.IH [OF carry_le_1(2) [OF Cons.prems]] by (simp only: carry_le_1(1) [OF Cons.prems] high)
  then show ?case
    using low by (simp add: add_byte [OF Cons.prems] div_mult2_eq del: of_nat_add of_nat_mult)
qed

end

locale byte_subtractor =
  fixes sub :: "u8 \<Rightarrow> u8 \<Rightarrow> u8 \<Rightarrow> (u8 \<times> u8, 'e) res"
  assumes sub_byte: "b \<le> 1 \<Longrightarrow> sub m s b =
    Ok (of_nat ((256 + unat m - unat s - unat b) mod 256), if unat m < unat s + unat b then 1 else 0)"
begin

lemma sub_chain:
  assumes "length as = length bs" "c \<le> 1"
  shows "carry_loop sub as bs c =
    Ok (le_bytes (length as) (256 ^ length as + le_nat as - le_nat bs - unat c),
        if le_nat as < le_nat bs + unat c then 1 else 0)"
  using assms
proof (induction as bs arbitrary: c rule: list_induct2)
  case Nil
  then show ?case by (auto simp: word_le_nat_alt word_unat_eq_iff le_Suc_eq)
next
  case (Cons a as b bs)
  let ?P = "256 ^ length as" and ?A = "le_nat as" and ?B = "le_nat bs"
  define d where "d = (if unat a < unat b + unat c then 1 else (0::nat))"
  define e where "e = 256 + unat a - unat b - unat c"
  have c: "unat c \<le> 1" using Cons.prems by (simp add: word_le_nat_alt)
  have bounds: "?A < ?P" "?B < ?P" "unat a \<le> 255" "unat b \<le> 255"
    using le_nat_bound [of as] le_nat_bound [of bs] Cons.hyps by (simp_all add: unat_u8_le)
  have e: "e = 256 * (1 - d) + e mod 256" "e \<le> 511"
    using c bounds by (auto simp: e_def d_def mod_if)
  have total: "256 * ?P + (unat a + 256 * ?A) - (unat b + 256 * ?B) - unat c = e mod 256 + 256 * (?P + ?A - ?B - d)"
    using e bounds c by (auto simp: e_def d_def mod_if)
  have step: "sub a b c = Ok (of_nat (e mod 256), of_nat d)"
    using sub_byte [OF Cons.prems, of a b] by (simp add: e_def d_def)
  have "of_nat d \<le> (1::u8)" "unat (of_nat d :: u8) = d" by (auto simp: d_def)
  then have rest: "carry_loop sub as bs (of_nat d) =
      Ok (le_bytes (length as) (?P + ?A - ?B - d), if ?A < ?B + d then 1 else 0)"
    using Cons.IH [of "of_nat d"] by simp
  have cmp: "(unat a + 256 * ?A < unat b + 256 * ?B + unat c) = (?A < ?B + d)"
    using bounds c by (auto simp: d_def)
  have low: "of_nat (e mod 256 + 256 * n) = (of_nat (e mod 256) :: u8)" for n
    using of_nat_low_byte [of "e mod 256" n] by simp
  have "le_bytes (length (a # as)) (256 ^ length (a # as) + le_nat (a # as) - le_nat (b # bs) - unat c)
      = of_nat (e mod 256) # le_bytes (length as) (?P + ?A - ?B - d)"
    using total low by (simp del: of_nat_add of_nat_mult)
  moreover have "carry_loop sub (a # as) (b # bs) c =
      Ok (of_nat (e mod 256) # le_bytes (length as) (?P + ?A - ?B - d), if ?A < ?B + d then 1 else 0)"
    by (simp only: carry_loop.simps step and_then.simps case_prod_conv rest)
  ultimately show ?case using cmp by simp
qed

end

section \<open>The networks provide the interface\<close>

interpretation net_add: byte_adder "byte_add_run (byte_add_net xof)" for xof
  by unfold_locales (simp add: byte_add_run_value)

interpretation net_sub: byte_subtractor "byte_sub_run (byte_sub_net xof)" for xof
  by unfold_locales (simp add: byte_sub_run_value)

lemma transfer_check_value:
  assumes "length from = length amount"
  shows "transfer_check_run (byte_sub_net xof) from amount =
    Ok (if le_nat amount \<le> le_nat from then 1 else 0)"
  using assms by (simp add: transfer_check_run_def net_sub.sub_chain)

lemma transfer_finalize_value:
  assumes "length nonce = 8"
  shows "transfer_finalize_run (byte_add_net xof) nonce = Ok (le_bytes 8 (le_nat nonce + 1))"
  using assms by (simp add: transfer_finalize_run_def net_add.add_chain)

lemma u128_sub_chain_value:
  assumes "length a = 16" "length b = 16" "le_nat b \<le> le_nat a"
  shows "u128_sub_chain (byte_sub_net xof) a b = Ok (le_bytes 16 (le_nat a - le_nat b), 0)"
proof -
  have "le_bytes 16 (256 ^ 16 + n) = le_bytes 16 n" for n
    by (rule le_nat_inject [THEN iffD1]) (simp_all add: le_nat_le_bytes)
  moreover have "256 ^ 16 + le_nat a - le_nat b = 256 ^ 16 + (le_nat a - le_nat b)"
    using assms(3) by (rule diff_add_assoc)
  ultimately have "le_bytes 16 (256 ^ 16 + le_nat a - le_nat b) = le_bytes 16 (le_nat a - le_nat b)"
    by (simp only:)
  then show ?thesis
    using assms by (simp add: u128_sub_chain_def net_sub.sub_chain del: power_numeral)
qed

lemma u128_add_chain_value:
  assumes "length a = 16" "length b = 16"
  shows "u128_add_chain (byte_add_net xof) a b =
    Ok (le_bytes 16 (le_nat a + le_nat b), if le_nat a + le_nat b < 2 ^ 128 then 0 else 1)"
proof -
  have "le_nat a < 256 ^ 16" "le_nat b < 256 ^ 16"
    using le_nat_bound [of a] le_nat_bound [of b] assms by simp_all
  then have "(le_nat a + le_nat b) div 256 ^ 16 = (if le_nat a + le_nat b < 2 ^ 128 then 0 else 1)"
    by (simp add: div_nat_eqI)
  then show ?thesis using assms by (simp add: u128_add_chain_def net_add.add_chain)
qed

lemma u64_ge_value:
  assumes "length a = 8" "length b = 8"
  shows "u64_ge (byte_sub_net xof) a b = Ok (if le_nat b \<le> le_nat a then 1 else 0)"
  using assms by (simp add: u64_ge_def transfer_check_value le_nat_append)

text \<open>What a transfer promises, on numbers: debit, credit and nonce step, or the no-op.\<close>

definition transfer_spec :: "nat \<Rightarrow> nat \<Rightarrow> nat \<Rightarrow> nat \<Rightarrow> bytes" where
  "transfer_spec from to amount nonce =
     (if amount \<le> from \<and> to + amount < 2 ^ 128
      then le_bytes 16 (from - amount) @ le_bytes 16 (to + amount) @ le_bytes 8 (nonce + 1)
      else no_op_output 40)"

lemma wrapped_transfer_value:
  assumes "length f = 16" "length t = 16" "length a = 16" "length n = 8"
  shows "wrapped_transfer (byte_add_net xof) (byte_sub_net xof) f t a n =
    Ok (transfer_spec (le_nat f) (le_nat t) (le_nat a) (le_nat n))"
  using assms
  by (simp add: wrapped_transfer_def transfer_check_value transfer_finalize_value
      u128_sub_chain_value u128_add_chain_value transfer_spec_def)

end
