(* ===== verification/Contracts.thy ===== *)
theory Contracts
  imports Byte_Chains
begin

text \<open>
  The standard contract library, \<open>agent_contracts/src\<close>: program hashes and the program
  interface (\<open>program.rs\<close>), \<open>transfer.rs\<close>, \<open>swap.rs\<close>, the escrow trio (\<open>escrow.rs\<close>), the
  three conditional contracts (\<open>conditional.rs\<close>) and the model-gated transfer
  (\<open>inference.rs\<close>). The contract every guarded transfer shares is the locale
  \<open>guarded_transfer\<close>, interpreted for each of the eight of them.
\<close>

section \<open>Program identity\<close>

definition program_hash_v1 :: "xof \<Rightarrow> rstring \<Rightarrow> ternary_network list \<Rightarrow> bytes" where
  "program_hash_v1 xof name networks =
     xof (name @ concat (map (\<lambda>n. weights_hash (header n)) networks)) 32"

definition program_hash_v2 :: "xof \<Rightarrow> rstring \<Rightarrow> ternary_network list \<Rightarrow> bytes" where
  "program_hash_v2 xof name networks =
     xof (name @ concat (map (\<lambda>n. weights_hash_v2 (header n)) networks)) 64"

definition build_program_hashes :: "xof \<Rightarrow> rstring \<Rightarrow> ternary_network list \<Rightarrow> bytes \<times> bytes" where
  "build_program_hashes xof name networks =
     (program_hash_v2 xof name networks, program_hash_v1 xof name networks)"

text \<open>The trait object: name, run and the two stored digests.\<close>

record ternary_program =
  tp_name :: rstring
  tp_run :: "bytes \<Rightarrow> (bytes, contract_error) res"
  tp_program_hash :: bytes
  tp_program_hash_v2 :: bytes

definition program_trace_hash :: "xof \<Rightarrow> ternary_program \<Rightarrow> bytes \<Rightarrow> bytes \<Rightarrow> bytes" where
  "program_trace_hash xof p input output =
     xof (tp_program_hash p @ u32_be (of_nat (length input)) @ input
          @ u32_be (of_nat (length output)) @ output) 32"

text \<open>The seven contracts without a model have the same four fields.\<close>

record contract =
  byte_add :: ternary_network
  byte_sub :: ternary_network
  c_program_hash :: bytes
  c_program_hash_v2 :: bytes

definition build_subnets :: "xof \<Rightarrow> (ternary_network \<times> ternary_network, ternary_error) res" where
  "build_subnets xof =
     and_then (byte_add_build xof) (\<lambda>a. and_then (byte_sub_build xof) (\<lambda>s. Ok (a, s)))"

definition hash_program :: "xof \<Rightarrow> rstring \<Rightarrow> ternary_network \<Rightarrow> ternary_network \<Rightarrow> bytes \<times> bytes" where
  "hash_program xof name ba bs =
     (let (v2, v1) = build_program_hashes xof name [ba, bs] in (v1, v2))"

definition contract_build :: "xof \<Rightarrow> rstring \<Rightarrow> (contract, ternary_error) res" where
  "contract_build xof name =
     and_then (build_subnets xof) (\<lambda>(ba, bs).
     let (v1, v2) = hash_program xof name ba bs
     in Ok \<lparr> byte_add = ba, byte_sub = bs, c_program_hash = v1, c_program_hash_v2 = v2 \<rparr>)"

section \<open>transfer\<close>

definition TRANSFER_INPUT_LEN :: usize where "TRANSFER_INPUT_LEN = 16 + 16 + 16 + 8"

definition transfer_build :: "xof \<Rightarrow> (contract, ternary_error) res" where
  "transfer_build xof =
     and_then (byte_add_build xof) (\<lambda>ba.
     and_then (byte_sub_build xof) (\<lambda>bs.
     let (v2, v1) = build_program_hashes xof (ascii ''transfer'') [ba, bs]
     in Ok \<lparr> byte_add = ba, byte_sub = bs, c_program_hash = v1, c_program_hash_v2 = v2 \<rparr>))"

definition transfer_run :: "contract \<Rightarrow> bytes \<Rightarrow> (bytes, contract_error) res" where
  "transfer_run self input =
     (if length input \<noteq> TRANSFER_INPUT_LEN
      then Err (C_InputShape (ascii ''transfer'') (length input) TRANSFER_INPUT_LEN)
      else let from_balance = subslice input 0 16; to_balance = subslice input 16 32;
               amount = subslice input 32 48; nonce = subslice input 48 56
           in wrapped_transfer (byte_add self) (byte_sub self) from_balance to_balance amount nonce)"

section \<open>swap\<close>

definition SWAP_INPUT_LEN :: usize where "SWAP_INPUT_LEN = 16 * 6 + 8"
definition SWAP_OUTPUT_LEN :: usize where "SWAP_OUTPUT_LEN = 16 * 4 + 8"

definition swap_build :: "xof \<Rightarrow> (contract, ternary_error) res" where
  "swap_build xof =
     and_then (byte_add_build xof) (\<lambda>ba.
     and_then (byte_sub_build xof) (\<lambda>bs.
     let (v2, v1) = build_program_hashes xof (ascii ''swap'') [ba, bs]
     in Ok \<lparr> byte_add = ba, byte_sub = bs, c_program_hash = v1, c_program_hash_v2 = v2 \<rparr>))"

text \<open>The chains of \<open>swap.rs\<close>, private copies of the ones in \<open>guarded.rs\<close>.\<close>

definition swap_u128_sub_chain :: "ternary_network \<Rightarrow> bytes \<Rightarrow> bytes \<Rightarrow> (bytes \<times> u8, contract_error) res" where
  "swap_u128_sub_chain bs a b = map_err C_Primitive (carry_loop (byte_sub_run bs) a b 0)"

definition swap_u128_add_chain :: "ternary_network \<Rightarrow> bytes \<Rightarrow> bytes \<Rightarrow> (bytes \<times> u8, contract_error) res" where
  "swap_u128_add_chain ba a b = map_err C_Primitive (carry_loop (byte_add_run ba) a b 0)"

definition swap_run :: "contract \<Rightarrow> bytes \<Rightarrow> (bytes, contract_error) res" where
  "swap_run self input =
     (if length input \<noteq> SWAP_INPUT_LEN
      then Err (C_InputShape (ascii ''swap'') (length input) SWAP_INPUT_LEN)
      else let sender_in = subslice input 0 16; sender_out = subslice input 16 32;
               recipient_in = subslice input 32 48; recipient_out = subslice input 48 64;
               amount_in = subslice input 64 80; amount_out = subslice input 80 96;
               sender_nonce = subslice input 96 104
           in
     and_then (map_err C_Primitive (transfer_check_run (byte_sub self) sender_in amount_in)) (\<lambda>ok1.
     if ok1 \<noteq> 1 then Ok (replicate SWAP_OUTPUT_LEN 0) else
     and_then (map_err C_Primitive (transfer_check_run (byte_sub self) recipient_out amount_out)) (\<lambda>ok2.
     if ok2 \<noteq> 1 then Ok (replicate SWAP_OUTPUT_LEN 0) else
     and_then (swap_u128_sub_chain (byte_sub self) sender_in amount_in) (\<lambda>(new_sender_in, _).
     and_then (swap_u128_add_chain (byte_add self) sender_out amount_out) (\<lambda>(new_sender_out, c1).
     and_then (swap_u128_add_chain (byte_add self) recipient_in amount_in) (\<lambda>(new_recipient_in, c2).
     and_then (swap_u128_sub_chain (byte_sub self) recipient_out amount_out) (\<lambda>(new_recipient_out, _).
     if c1 = 1 \<or> c2 = 1 then Ok (replicate SWAP_OUTPUT_LEN 0) else
     and_then (map_err C_Primitive (transfer_finalize_run (byte_add self) sender_nonce)) (\<lambda>new_sender_nonce.
     Ok (new_sender_in @ new_sender_out @ new_recipient_in @ new_recipient_out @ new_sender_nonce)))))))))"

section \<open>escrow\<close>

definition escrow_create_run :: "contract \<Rightarrow> bytes \<Rightarrow> (bytes, contract_error) res" where
  "escrow_create_run self input =
     (if length input \<noteq> 56 then Err (C_InputShape (ascii ''escrow_create'') (length input) 56)
      else let from_balance = subslice input 0 16; escrow_balance = subslice input 16 32;
               amount = subslice input 32 48; nonce = subslice input 48 56
           in wrapped_transfer (byte_add self) (byte_sub self) from_balance escrow_balance amount nonce)"

definition escrow_release_run :: "contract \<Rightarrow> bytes \<Rightarrow> (bytes, contract_error) res" where
  "escrow_release_run self input =
     (if length input \<noteq> 57 then Err (C_InputShape (ascii ''escrow_release'') (length input) 57)
      else let release_flag = input ! 48
           in if release_flag \<noteq> 1 then Ok (no_op_output 40)
              else let escrow = subslice input 0 16; recipient = subslice input 16 32;
                       amount = subslice input 32 48; nonce = subslice input 49 57
                   in wrapped_transfer (byte_add self) (byte_sub self) escrow recipient amount nonce)"

definition escrow_refund_run :: "contract \<Rightarrow> bytes \<Rightarrow> (bytes, contract_error) res" where
  "escrow_refund_run self input =
     (if length input \<noteq> 57 then Err (C_InputShape (ascii ''escrow_refund'') (length input) 57)
      else let refund_flag = input ! 48
           in if refund_flag \<noteq> 1 then Ok (no_op_output 40)
              else let escrow = subslice input 0 16; sender = subslice input 16 32;
                       amount = subslice input 32 48; nonce = subslice input 49 57
                   in wrapped_transfer (byte_add self) (byte_sub self) escrow sender amount nonce)"

section \<open>conditional contracts\<close>

definition time_locked_release_run :: "contract \<Rightarrow> bytes \<Rightarrow> (bytes, contract_error) res" where
  "time_locked_release_run self input =
     (if length input \<noteq> 72 then Err (C_InputShape (ascii ''time_locked_release'') (length input) 72)
      else let current_time = subslice input 56 64; unlock_time = subslice input 64 72
           in and_then (u64_ge (byte_sub self) current_time unlock_time) (\<lambda>ge.
              if ge \<noteq> 1 then Ok (no_op_output 40)
              else let from = subslice input 0 16; to = subslice input 16 32;
                       amount = subslice input 32 48; nonce = subslice input 48 56
                   in wrapped_transfer (byte_add self) (byte_sub self) from to amount nonce))"

definition multisig_2of3_run :: "contract \<Rightarrow> bytes \<Rightarrow> (bytes, contract_error) res" where
  "multisig_2of3_run self input =
     (if length input \<noteq> 59 then Err (C_InputShape (ascii ''multisig_2of3'') (length input) 59)
      else let s0 = input ! 56; s1 = input ! 57; s2 = input ! 58
           in if s0 > 1 \<or> s1 > 1 \<or> s2 > 1 then Ok (no_op_output 40)
              else let count = (ucast s0 + ucast s1 + ucast s2 :: u32)
                   in if count < 2 then Ok (no_op_output 40)
                      else let from = subslice input 0 16; to = subslice input 16 32;
                               amount = subslice input 32 48; nonce = subslice input 48 56
                           in wrapped_transfer (byte_add self) (byte_sub self) from to amount nonce)"

definition conditional_payment_run :: "contract \<Rightarrow> bytes \<Rightarrow> (bytes, contract_error) res" where
  "conditional_payment_run self input =
     (if length input \<noteq> 57 then Err (C_InputShape (ascii ''conditional_payment'') (length input) 57)
      else let cond = input ! 56
           in if cond \<noteq> 1 then Ok (no_op_output 40)
              else let from = subslice input 0 16; to = subslice input 16 32;
                       amount = subslice input 32 48; nonce = subslice input 48 56
                   in wrapped_transfer (byte_add self) (byte_sub self) from to amount nonce)"

section \<open>risk\_gated\_transfer\<close>

definition MODEL_NAME :: rstring where "MODEL_NAME = ascii ''credit_risk_model_v1''"
definition MIN_NET_CREDIT :: i64 where "MIN_NET_CREDIT = 500"
definition MAX_RISK_FLAGS :: i64 where "MAX_RISK_FLAGS = 10"
definition RISK_INPUT_LEN :: usize where "RISK_INPUT_LEN = 56 + 8"
definition RISK_OUTPUT_LEN :: usize where "RISK_OUTPUT_LEN = 40"

definition credit_layers :: "sparse_ternary_layer list" where
  "credit_layers =
     [\<lparr> l_input_dim = 4, l_output_dim = 2, pos_indices = [[0, 2], []], neg_indices = [[1], [3]],
        bias = [0, MAX_RISK_FLAGS], relu = False \<rparr>,
      \<lparr> l_input_dim = 2, l_output_dim = 4, pos_indices = [[0], [0], [1], [1]],
        neg_indices = [[], [], [], []],
        bias = [1 - MIN_NET_CREDIT, - MIN_NET_CREDIT, 1, 0], relu = True \<rparr>,
      \<lparr> l_input_dim = 4, l_output_dim = 2, pos_indices = [[0], [2]], neg_indices = [[1], [3]],
        bias = [0, 0], relu = False \<rparr>,
      \<lparr> l_input_dim = 2, l_output_dim = 1, pos_indices = [[0, 1]], neg_indices = [[]],
        bias = [- 1], relu = True \<rparr>]"

definition build_credit_model :: "xof \<Rightarrow> (ternary_network, ternary_error) res" where
  "build_credit_model xof = build_network xof MODEL_NAME 4 1 credit_layers"

record risk_contract = contract +
  risk_model :: ternary_network

definition risk_gated_transfer_build :: "xof \<Rightarrow> (risk_contract, ternary_error) res" where
  "risk_gated_transfer_build xof =
     and_then (build_credit_model xof) (\<lambda>rm.
     and_then (byte_add_build xof) (\<lambda>ba.
     and_then (byte_sub_build xof) (\<lambda>bs.
     let (v2, v1) = build_program_hashes xof (ascii ''risk_gated_transfer'') [rm, ba, bs]
     in Ok \<lparr> byte_add = ba, byte_sub = bs, c_program_hash = v1, c_program_hash_v2 = v2,
             risk_model = rm \<rparr>)))"

definition first_or_0 :: "i64 list \<Rightarrow> i64" where
  "first_or_0 out = (case out of [] \<Rightarrow> 0 | d # _ \<Rightarrow> d)"

definition model_decision :: "risk_contract \<Rightarrow> u16 list \<Rightarrow> (bool, contract_error) res" where
  "model_decision self features =
     and_then (map_err C_Primitive (forward (risk_model self)
       [uint (features ! 0), uint (features ! 1), uint (features ! 2), uint (features ! 3)])) (\<lambda>out.
     Ok (first_or_0 out = 1))"

definition pack_input :: "u128 \<Rightarrow> u128 \<Rightarrow> u128 \<Rightarrow> u64 \<Rightarrow> u16 list \<Rightarrow> bytes" where
  "pack_input from to amount nonce features =
     u128_le from @ u128_le to @ u128_le amount @ u64_le nonce @ concat (map u16_le features)"

definition risk_gated_transfer_run :: "risk_contract \<Rightarrow> bytes \<Rightarrow> (bytes, contract_error) res" where
  "risk_gated_transfer_run self input =
     (if length input \<noteq> RISK_INPUT_LEN
      then Err (C_InputShape (ascii ''risk_gated_transfer'') (length input) RISK_INPUT_LEN)
      else let income = uint (u16_from_le [input ! 56, input ! 57]);
               debt = uint (u16_from_le [input ! 58, input ! 59]);
               collateral = uint (u16_from_le [input ! 60, input ! 61]);
               risk_flags = uint (u16_from_le [input ! 62, input ! 63])
           in and_then (map_err C_Primitive (forward (risk_model self) [income, debt, collateral, risk_flags]))
              (\<lambda>decision.
              if first_or_0 decision \<noteq> 1 then Ok (no_op_output RISK_OUTPUT_LEN)
              else let from = subslice input 0 16; to = subslice input 16 32;
                       amount = subslice input 32 48; nonce = subslice input 48 56
                   in wrapped_transfer (byte_add self) (byte_sub self) from to amount nonce))"

section \<open>The constructors and the program interface of each contract\<close>

definition escrow_create_build :: "xof \<Rightarrow> (contract, ternary_error) res" where
  "escrow_create_build xof = contract_build xof (ascii ''escrow_create'')"

definition escrow_release_build :: "xof \<Rightarrow> (contract, ternary_error) res" where
  "escrow_release_build xof = contract_build xof (ascii ''escrow_release'')"

definition escrow_refund_build :: "xof \<Rightarrow> (contract, ternary_error) res" where
  "escrow_refund_build xof = contract_build xof (ascii ''escrow_refund'')"

definition time_locked_release_build :: "xof \<Rightarrow> (contract, ternary_error) res" where
  "time_locked_release_build xof = contract_build xof (ascii ''time_locked_release'')"

definition multisig_2of3_build :: "xof \<Rightarrow> (contract, ternary_error) res" where
  "multisig_2of3_build xof = contract_build xof (ascii ''multisig_2of3'')"

definition conditional_payment_build :: "xof \<Rightarrow> (contract, ternary_error) res" where
  "conditional_payment_build xof = contract_build xof (ascii ''conditional_payment'')"

text \<open>Each \<open>impl TernaryProgram\<close>: the name, the two stored digests and the run method.\<close>

definition program_of ::
  "rstring \<Rightarrow> ('c contract_scheme \<Rightarrow> bytes \<Rightarrow> (bytes, contract_error) res) \<Rightarrow> 'c contract_scheme \<Rightarrow> ternary_program" where
  "program_of name run c =
     \<lparr> tp_name = name, tp_run = run c, tp_program_hash = c_program_hash c,
       tp_program_hash_v2 = c_program_hash_v2 c \<rparr>"

definition transfer_program :: "contract \<Rightarrow> ternary_program" where
  "transfer_program = program_of (ascii ''transfer'') transfer_run"

definition swap_program :: "contract \<Rightarrow> ternary_program" where
  "swap_program = program_of (ascii ''swap'') swap_run"

definition escrow_create_program :: "contract \<Rightarrow> ternary_program" where
  "escrow_create_program = program_of (ascii ''escrow_create'') escrow_create_run"

definition escrow_release_program :: "contract \<Rightarrow> ternary_program" where
  "escrow_release_program = program_of (ascii ''escrow_release'') escrow_release_run"

definition escrow_refund_program :: "contract \<Rightarrow> ternary_program" where
  "escrow_refund_program = program_of (ascii ''escrow_refund'') escrow_refund_run"

definition time_locked_release_program :: "contract \<Rightarrow> ternary_program" where
  "time_locked_release_program = program_of (ascii ''time_locked_release'') time_locked_release_run"

definition multisig_2of3_program :: "contract \<Rightarrow> ternary_program" where
  "multisig_2of3_program = program_of (ascii ''multisig_2of3'') multisig_2of3_run"

definition conditional_payment_program :: "contract \<Rightarrow> ternary_program" where
  "conditional_payment_program = program_of (ascii ''conditional_payment'') conditional_payment_run"

definition risk_gated_transfer_program :: "risk_contract \<Rightarrow> ternary_program" where
  "risk_gated_transfer_program = program_of (ascii ''risk_gated_transfer'') risk_gated_transfer_run"

lemmas contract_build_defs = escrow_create_build_def escrow_release_build_def
  escrow_refund_build_def time_locked_release_build_def multisig_2of3_build_def
  conditional_payment_build_def

lemmas contract_program_defs = transfer_program_def swap_program_def escrow_create_program_def
  escrow_release_program_def escrow_refund_program_def time_locked_release_program_def
  multisig_2of3_program_def conditional_payment_program_def risk_gated_transfer_program_def

section \<open>Builds succeed\<close>

definition std_contract :: "xof \<Rightarrow> rstring \<Rightarrow> contract" where
  "std_contract xof name =
     \<lparr> byte_add = byte_add_net xof, byte_sub = byte_sub_net xof,
       c_program_hash = program_hash_v1 xof name [byte_add_net xof, byte_sub_net xof],
       c_program_hash_v2 = program_hash_v2 xof name [byte_add_net xof, byte_sub_net xof] \<rparr>"

lemma std_contract_nets [simp]:
  "byte_add (std_contract xof name) = byte_add_net xof"
  "byte_sub (std_contract xof name) = byte_sub_net xof"
  by (simp_all add: std_contract_def)

lemma contract_builds:
  "transfer_build xof = Ok (std_contract xof (ascii ''transfer''))"
  "swap_build xof = Ok (std_contract xof (ascii ''swap''))"
  "contract_build xof name = Ok (std_contract xof name)"
  by (simp_all add: transfer_build_def swap_build_def contract_build_def build_subnets_def
      hash_program_def build_program_hashes_def std_contract_def)

definition credit_net :: "xof \<Rightarrow> ternary_network" where
  "credit_net xof = network_of xof MODEL_NAME 4 1 credit_layers"

definition std_risk_contract :: "xof \<Rightarrow> risk_contract" where
  "std_risk_contract xof =
     (let nets = [credit_net xof, byte_add_net xof, byte_sub_net xof];
          name = ascii ''risk_gated_transfer''
      in \<lparr> byte_add = byte_add_net xof, byte_sub = byte_sub_net xof,
           c_program_hash = program_hash_v1 xof name nets,
           c_program_hash_v2 = program_hash_v2 xof name nets, risk_model = credit_net xof \<rparr>)"

lemma build_credit_model_ok: "build_credit_model xof = Ok (credit_net xof)"
  by (simp add: build_credit_model_def credit_net_def build_network_ok credit_layers_def
      packable_def csr_ok_def)

lemma risk_build_ok: "risk_gated_transfer_build xof = Ok (std_risk_contract xof)"
  by (simp add: risk_gated_transfer_build_def build_credit_model_ok build_program_hashes_def
      std_risk_contract_def Let_def)

lemma std_risk_contract_nets [simp]:
  "byte_add (std_risk_contract xof) = byte_add_net xof"
  "byte_sub (std_risk_contract xof) = byte_sub_net xof"
  "risk_model (std_risk_contract xof) = credit_net xof"
  by (simp_all add: std_risk_contract_def Let_def)

end
