(* ===== verification/Contract_Laws.thy ===== *)
theory Contract_Laws
  imports Contracts
begin

text \<open>
  What the contracts promise. The locale \<open>guarded_transfer\<close> states the contract shared by
  the eight transfers (length check, guard, then the transfer on numbers) and derives
  totality, output shape, conservation of the two balances and the nonce step from it once;
  the interpretations discharge its laws for each contract as built.
\<close>

section \<open>The guarded-transfer contract\<close>

definition num_field :: "bytes \<Rightarrow> nat \<Rightarrow> nat \<Rightarrow> nat" where
  "num_field b lo hi = le_nat (subslice b lo hi)"

lemma num_field_bound: "hi \<le> length b \<Longrightarrow> num_field b lo hi < 256 ^ (hi - lo)"
  using le_nat_bound [of "subslice b lo hi"] by (simp add: num_field_def)

lemma num_field_append1: "hi \<le> length x \<Longrightarrow> num_field (x @ y) lo hi = num_field x lo hi"
  by (simp add: num_field_def subslice_def)

lemma num_field_append2:
  "length x \<le> lo \<Longrightarrow> num_field (x @ y) lo hi = num_field y (lo - length x) (hi - length x)"
  by (simp add: num_field_def subslice_def)

lemma num_field_le_bytes: "n = length x \<Longrightarrow> num_field x 0 n = le_nat x"
  by (simp add: num_field_def subslice_def)

lemmas num_field_simps = num_field_append1 num_field_append2 num_field_le_bytes le_nat_le_bytes

lemma transfer_spec_fields:
  assumes "a \<le> f" "f < 2 ^ 128" "t + a < 2 ^ 128"
  shows "num_field (transfer_spec f t a n) 0 16 = f - a"
    "num_field (transfer_spec f t a n) 16 32 = t + a"
    "num_field (transfer_spec f t a n) 32 40 = (n + 1) mod 2 ^ 64"
  using assms by (simp_all add: transfer_spec_def num_field_simps)

lemma length_transfer_spec [simp]: "length (transfer_spec f t a n) = 40"
  by (simp add: transfer_spec_def no_op_output_def)

locale guarded_transfer =
  fixes run :: "bytes \<Rightarrow> (bytes, contract_error) res"
    and name :: rstring and len :: nat and guard :: "bytes \<Rightarrow> bool" and nonce_at :: nat
  assumes layout: "48 \<le> nonce_at" "nonce_at + 8 \<le> len"
    and wrong_length: "length input \<noteq> len \<Longrightarrow> run input = Err (C_InputShape name (length input) len)"
    and right_length: "length input = len \<Longrightarrow> run input =
      Ok (if guard input
          then transfer_spec (num_field input 0 16) (num_field input 16 32) (num_field input 32 48)
                 (num_field input nonce_at (nonce_at + 8))
          else no_op_output 40)"
begin

text \<open>No input makes the contract panic, and only the length decides between value and error.\<close>

lemma total: "run input \<noteq> Panic" "is_Ok (run input) \<longleftrightarrow> length input = len"
  by (cases "length input = len"; simp add: wrong_length right_length)+

lemma output_shape: "run input = Ok out \<Longrightarrow> length out = 40"
  by (cases "length input = len") (auto simp: wrong_length right_length no_op_output_def)

lemma fires:
  assumes "length input = len" "guard input"
    and "num_field input 32 48 \<le> num_field input 0 16"
    and "num_field input 16 32 + num_field input 32 48 < 2 ^ 128"
  shows "\<exists>out. run input = Ok out \<and>
    num_field out 0 16 = num_field input 0 16 - num_field input 32 48 \<and>
    num_field out 16 32 = num_field input 16 32 + num_field input 32 48 \<and>
    num_field out 32 40 = (num_field input nonce_at (nonce_at + 8) + 1) mod 2 ^ 64"
proof -
  have "num_field input 0 16 < 2 ^ 128"
    using num_field_bound [of 16 input 0] assms(1) layout by simp
  then show ?thesis
    using assms transfer_spec_fields by (simp add: right_length)
qed

lemma blocked:
  assumes "length input = len"
    and "\<not> guard input \<or> num_field input 0 16 < num_field input 32 48 \<or>
      2 ^ 128 \<le> num_field input 16 32 + num_field input 32 48"
  shows "run input = Ok (no_op_output 40)"
  using assms by (auto simp: right_length transfer_spec_def)

text \<open>The whole behaviour, on the numbers in the input and the output.\<close>

lemma decides:
  assumes "length input = len"
  shows "\<exists>out. run input = Ok out \<and> length out = 40 \<and>
    (if guard input \<and> num_field input 32 48 \<le> num_field input 0 16 \<and>
        num_field input 16 32 + num_field input 32 48 < 2 ^ 128
     then num_field out 0 16 = num_field input 0 16 - num_field input 32 48 \<and>
          num_field out 16 32 = num_field input 16 32 + num_field input 32 48 \<and>
          num_field out 32 40 = (num_field input nonce_at (nonce_at + 8) + 1) mod 2 ^ 64
     else out = replicate 40 0)"
proof (cases "guard input \<and> num_field input 32 48 \<le> num_field input 0 16 \<and>
    num_field input 16 32 + num_field input 32 48 < 2 ^ 128")
  case True
  then show ?thesis using fires [OF assms] output_shape by auto
next
  case False
  then have "run input = Ok (no_op_output 40)" using blocked [OF assms] by (auto simp: not_le not_less)
  with False show ?thesis by (auto simp: no_op_output_def)
qed

lemma conserves:
  assumes "run input = Ok out" "out \<noteq> no_op_output 40"
  shows "guard input"
    "num_field out 0 16 + num_field out 16 32 = num_field input 0 16 + num_field input 16 32"
proof -
  have len: "length input = len" using assms(1) wrong_length by (cases "length input = len") auto
  then have g: "guard input" "num_field input 32 48 \<le> num_field input 0 16"
    "num_field input 16 32 + num_field input 32 48 < 2 ^ 128"
    using assms blocked [OF len] by (fastforce simp: not_less)+
  from fires [OF len g] assms(1) g show "guard input"
    "num_field out 0 16 + num_field out 16 32 = num_field input 0 16 + num_field input 16 32"
    by auto
qed

end

section \<open>The interpretations\<close>

definition one_byte_guard :: "nat \<Rightarrow> bytes \<Rightarrow> bool" where
  "one_byte_guard i input \<longleftrightarrow> input ! i = 1"

definition time_guard :: "bytes \<Rightarrow> bool" where
  "time_guard input \<longleftrightarrow> num_field input 64 72 \<le> num_field input 56 64"

definition multisig_guard :: "bytes \<Rightarrow> bool" where
  "multisig_guard input \<longleftrightarrow>
     list_all (\<lambda>s. unat s \<le> 1) [input ! 56, input ! 57, input ! 58] \<and>
     2 \<le> unat (input ! 56) + unat (input ! 57) + unat (input ! 58)"

lemma multisig_guard_words:
  "multisig_guard input \<longleftrightarrow>
     \<not> (input ! 56 > 1 \<or> input ! 57 > 1 \<or> input ! 58 > 1) \<and>
     \<not> (ucast (input ! 56) + ucast (input ! 57) + ucast (input ! 58) :: u32) < 2"
proof -
  have up: "unat (ucast a :: u32) = unat a" for a :: u8
    by (simp add: unsigned_ucast_eq take_bit_nat_eq_self unat_u8_le order.strict_trans1 [OF unat_u8_le])
  have "unat (ucast a + ucast b + ucast c :: u32) = unat a + unat b + unat c" for a b c :: u8
    using unat_u8_le [of a] unat_u8_le [of b] unat_u8_le [of c]
    by (simp add: unat_word_ariths up)
  then show ?thesis
    by (auto simp: multisig_guard_def word_less_nat_alt)
qed

lemma wrapped_fields:
  "length input = len \<Longrightarrow> 48 \<le> n \<Longrightarrow> n + 8 \<le> len \<Longrightarrow>
     wrapped_transfer (byte_add_net xof) (byte_sub_net xof)
       (subslice input 0 16) (subslice input 16 32) (subslice input 32 48) (subslice input n (n + 8)) =
     Ok (transfer_spec (num_field input 0 16) (num_field input 16 32) (num_field input 32 48)
          (num_field input n (n + 8)))"
  by (simp add: wrapped_transfer_value num_field_def)

lemmas guarded_defs = transfer_run_def escrow_create_run_def escrow_release_run_def
  escrow_refund_run_def time_locked_release_run_def multisig_2of3_run_def
  conditional_payment_run_def TRANSFER_INPUT_LEN_def Let_def one_byte_guard_def

interpretation transfer: guarded_transfer "transfer_run (std_contract xof n)" "ascii ''transfer''"
    56 "\<lambda>_. True" 48 for xof n
  using wrapped_fields [where n = 48] by unfold_locales (simp_all add: guarded_defs)

interpretation escrow_create: guarded_transfer "escrow_create_run (std_contract xof n)"
    "ascii ''escrow_create''" 56 "\<lambda>_. True" 48 for xof n
  using wrapped_fields [where n = 48] by unfold_locales (simp_all add: guarded_defs)

interpretation escrow_release: guarded_transfer "escrow_release_run (std_contract xof n)"
    "ascii ''escrow_release''" 57 "one_byte_guard 48" 49 for xof n
  using wrapped_fields [where n = 49] by unfold_locales (simp_all add: guarded_defs)

interpretation escrow_refund: guarded_transfer "escrow_refund_run (std_contract xof n)"
    "ascii ''escrow_refund''" 57 "one_byte_guard 48" 49 for xof n
  using wrapped_fields [where n = 49] by unfold_locales (simp_all add: guarded_defs)

interpretation conditional: guarded_transfer "conditional_payment_run (std_contract xof n)"
    "ascii ''conditional_payment''" 57 "one_byte_guard 56" 48 for xof n
  using wrapped_fields [where n = 48] by unfold_locales (simp_all add: guarded_defs)

interpretation time_locked: guarded_transfer "time_locked_release_run (std_contract xof n)"
    "ascii ''time_locked_release''" 72 time_guard 48 for xof n
  using wrapped_fields [where n = 48]
  by unfold_locales (simp_all add: guarded_defs u64_ge_value time_guard_def num_field_def)

interpretation multisig: guarded_transfer "multisig_2of3_run (std_contract xof n)"
    "ascii ''multisig_2of3''" 59 multisig_guard 48 for xof n
  using wrapped_fields [where n = 48]
  by unfold_locales (simp_all add: guarded_defs multisig_guard_words)

section \<open>The credit model\<close>

definition approves :: "int \<Rightarrow> int \<Rightarrow> int \<Rightarrow> int \<Rightarrow> bool" where
  "approves income debt collateral risk_flags \<longleftrightarrow>
     500 \<le> income + collateral - debt \<and> risk_flags \<le> 10"

lemma credit_model_forward:
  assumes "layers net = credit_layers"
    and "0 \<le> f0" "f0 \<le> 65535" "0 \<le> f1" "f1 \<le> 65535" "0 \<le> f2" "f2 \<le> 65535" "0 \<le> f3" "f3 \<le> 65535"
  shows "forward net [f0, f1, f2, f3] = Ok [if approves f0 f1 f2 f3 then 1 else 0]"
proof -
  let ?n0 = "f0 + f2 - f1" and ?n1 = "10 - f3"
  let ?relu = "\<lambda>v. max 0 (v::int)"
  note ls = credit_layers_def MIN_NET_CREDIT_def MAX_RISK_FLAGS_def
  note vals = row_value_def row_sum_def layer_wf_def headroom_def i64_max_def magnitude_def
  have bounds: "\<bar>?n0\<bar> \<le> 200000" "\<bar>?n1\<bar> \<le> 200000"
    using assms by linarith+
  have l1: "layer_forward (credit_layers ! 0) [f0, f1, f2, f3] (replicate 2 0) 0 = Ok [?n0, ?n1]"
    by (subst layer_forward_value [where M = 65535]) (use assms in \<open>simp_all add: ls vals\<close>)
  have l2: "layer_forward (credit_layers ! 1) [?n0, ?n1] (replicate 4 0) (Suc 0) =
      Ok [?relu (?n0 - 499), ?relu (?n0 - 500), ?relu (?n1 + 1), ?relu ?n1]"
    by (subst layer_forward_value [where M = 200000])
      (use bounds in \<open>simp_all add: ls vals\<close>)
  have l3: "layer_forward (credit_layers ! 2)
      [?relu (?n0 - 499), ?relu (?n0 - 500), ?relu (?n1 + 1), ?relu ?n1] (replicate 2 0) (Suc (Suc 0)) =
      Ok [if 500 \<le> ?n0 then 1 else 0, if f3 \<le> 10 then 1 else 0]"
    by (subst layer_forward_value [where M = 200000]) (use assms in \<open>simp_all add: ls vals max_def\<close>)
  have l4: "layer_forward (credit_layers ! 3)
      [if 500 \<le> ?n0 then 1 else 0, if f3 \<le> 10 then 1 else 0] (replicate 1 0) (Suc (Suc (Suc 0))) =
      Ok [if approves f0 f1 f2 f3 then 1 else 0]"
    by (subst layer_forward_value [where M = 1]) (simp_all add: ls vals approves_def)
  obtain L0 L1 L2 L3 where cl: "credit_layers = [L0, L1, L2, L3]"
    and dims: "l_input_dim L0 = 4" "l_output_dim L0 = 2" "l_output_dim L1 = 4"
      "l_output_dim L2 = 2" "l_output_dim L3 = 1"
    by (simp add: credit_layers_def)
  show ?thesis
    using l1 l2 l3 l4 unfolding forward_def assms(1) cl
    by (simp add: dims)
qed


definition feature :: "bytes \<Rightarrow> nat \<Rightarrow> int" where
  "feature input i = int (num_field input (56 + 2 * i) (58 + 2 * i))"

definition credit_guard :: "bytes \<Rightarrow> bool" where
  "credit_guard input \<longleftrightarrow> approves (feature input 0) (feature input 1) (feature input 2) (feature input 3)"

lemma subslice_pair: "k + 1 < length xs \<Longrightarrow> n = k + 2 \<Longrightarrow> m = k + 1 \<Longrightarrow> subslice xs k n = [xs ! k, xs ! m]"
  by (simp add: subslice_def take_Suc_conv_app_nth numeral_2_eq_2)

lemma feature_word:
  assumes "58 + 2 * i \<le> length input"
  shows "uint (u16_from_le [input ! (56 + 2 * i), input ! (57 + 2 * i)]) = feature input i"
proof -
  have "subslice input (56 + 2 * i) (58 + 2 * i) = [input ! (56 + 2 * i), input ! (57 + 2 * i)]"
    using assms by (simp add: subslice_pair)
  then show ?thesis
    by (simp add: feature_def num_field_def uint_nat unat_from_le del: le_nat.simps)
qed

lemma feature_bounds:
  "58 + 2 * i \<le> length input \<Longrightarrow> 0 \<le> feature input i \<and> feature input i \<le> 65535"
  using num_field_bound [of "58 + 2 * i" input "56 + 2 * i"] by (simp add: feature_def)

lemma credit_net_layers [simp]: "layers (credit_net xof) = credit_layers"
  by (simp add: credit_net_def network_of_def)

lemma credit_net_decides:
  assumes "length input = 64"
  shows "forward (credit_net xof) [feature input 0, feature input 1, feature input 2, feature input 3] =
    Ok [if credit_guard input then 1 else 0]"
  using feature_bounds [of 0 input] feature_bounds [of 1 input] feature_bounds [of 2 input]
    feature_bounds [of 3 input] assms
  by (simp add: credit_model_forward credit_guard_def)

interpretation risk_gated: guarded_transfer "risk_gated_transfer_run (std_risk_contract xof)"
    "ascii ''risk_gated_transfer''" 64 credit_guard 48 for xof
proof (unfold_locales, goal_cases)
  case (4 input)
  have words: "uint (u16_from_le [input ! 56, input ! 57]) = feature input 0"
    "uint (u16_from_le [input ! 58, input ! 59]) = feature input 1"
    "uint (u16_from_le [input ! 60, input ! 61]) = feature input 2"
    "uint (u16_from_le [input ! 62, input ! 63]) = feature input 3"
    using 4 feature_word [of 0 input] feature_word [of 1 input] feature_word [of 2 input]
      feature_word [of 3 input] by simp_all
  show ?case
    using 4 wrapped_fields [where n = 48]
    by (simp add: risk_gated_transfer_run_def RISK_INPUT_LEN_def RISK_OUTPUT_LEN_def Let_def words
        credit_net_decides [simplified] first_or_0_def)
qed (simp_all add: risk_gated_transfer_run_def RISK_INPUT_LEN_def)

section \<open>The swap\<close>

definition swap_spec :: "nat \<Rightarrow> nat \<Rightarrow> nat \<Rightarrow> nat \<Rightarrow> nat \<Rightarrow> nat \<Rightarrow> nat \<Rightarrow> bytes" where
  "swap_spec s_in s_out r_in r_out a_in a_out n =
     (if a_in \<le> s_in \<and> a_out \<le> r_out \<and> s_out + a_out < 2 ^ 128 \<and> r_in + a_in < 2 ^ 128
      then le_bytes 16 (s_in - a_in) @ le_bytes 16 (s_out + a_out) @ le_bytes 16 (r_in + a_in) @
           le_bytes 16 (r_out - a_out) @ le_bytes 8 (n + 1)
      else replicate 72 0)"

lemma swap_chain_values:
  "swap_u128_sub_chain = u128_sub_chain" "swap_u128_add_chain = u128_add_chain"
  by (simp_all add: fun_eq_iff swap_u128_sub_chain_def swap_u128_add_chain_def u128_sub_chain_def
      u128_add_chain_def)

lemma swap_run_value:
  assumes "length input = 104"
  shows "swap_run (std_contract xof n) input =
    Ok (swap_spec (num_field input 0 16) (num_field input 16 32) (num_field input 32 48)
         (num_field input 48 64) (num_field input 64 80) (num_field input 80 96) (num_field input 96 104))"
  using assms
  by (simp add: swap_run_def SWAP_INPUT_LEN_def SWAP_OUTPUT_LEN_def Let_def num_field_def
      transfer_check_value transfer_finalize_value swap_chain_values u128_sub_chain_value
      u128_add_chain_value swap_spec_def)

section \<open>The library as one table\<close>

text \<open>The eight guarded transfers as built: name, run function, input length, guard and place of the nonce.\<close>

definition guarded_programs ::
  "xof \<Rightarrow> (rstring \<times> (bytes \<Rightarrow> (bytes, contract_error) res) \<times> nat \<times> (bytes \<Rightarrow> bool) \<times> nat) list" where
  "guarded_programs xof =
     [(ascii ''transfer'', transfer_run (std_contract xof (ascii ''transfer'')), 56, \<lambda>_. True, 48),
      (ascii ''escrow_create'', escrow_create_run (std_contract xof (ascii ''escrow_create'')), 56, \<lambda>_. True, 48),
      (ascii ''escrow_release'', escrow_release_run (std_contract xof (ascii ''escrow_release'')), 57, one_byte_guard 48, 49),
      (ascii ''escrow_refund'', escrow_refund_run (std_contract xof (ascii ''escrow_refund'')), 57, one_byte_guard 48, 49),
      (ascii ''time_locked_release'', time_locked_release_run (std_contract xof (ascii ''time_locked_release'')), 72, time_guard, 48),
      (ascii ''multisig_2of3'', multisig_2of3_run (std_contract xof (ascii ''multisig_2of3'')), 59, multisig_guard, 48),
      (ascii ''conditional_payment'', conditional_payment_run (std_contract xof (ascii ''conditional_payment'')), 57, one_byte_guard 56, 48),
      (ascii ''risk_gated_transfer'', risk_gated_transfer_run (std_risk_contract xof), 64, credit_guard, 48)]"

lemmas guarded_axioms = transfer.guarded_transfer_axioms escrow_create.guarded_transfer_axioms
  escrow_release.guarded_transfer_axioms escrow_refund.guarded_transfer_axioms
  time_locked.guarded_transfer_axioms multisig.guarded_transfer_axioms
  conditional.guarded_transfer_axioms risk_gated.guarded_transfer_axioms

lemma guarded_programs_laws:
  assumes "(name, run, len, guard, n) \<in> set (guarded_programs xof)"
  shows "guarded_transfer run name len guard n"
  using assms unfolding guarded_programs_def by (auto intro: guarded_axioms)

end
