(* ===== verification/Record_Primitives.thy ===== *)
theory Record_Primitives
  imports Byte_Primitives
begin

text \<open>
  The three record primitives: \<open>ternary_vm/src/primitives/freeze_setup.rs\<close> (positional
  projection of the flag and of byte 47), \<open>freeze_apply.rs\<close> (replace the top bit of a byte)
  and \<open>mpt_emit_record.rs\<close> (64-byte pass-through). Fixed-size array arguments are byte
  lists of that length.
\<close>

section \<open>freeze\_setup\<close>

definition SETUP_FLAG_LEN :: usize where "SETUP_FLAG_LEN = 2"
definition BYTE_THERMO_LEN :: usize where "BYTE_THERMO_LEN = 256"
definition N_BYTES :: usize where "N_BYTES = 64"
definition TARGET_BYTE :: usize where "TARGET_BYTE = 47"
definition SETUP_INPUT_DIM :: usize where
  "SETUP_INPUT_DIM = SETUP_FLAG_LEN + N_BYTES * BYTE_THERMO_LEN"
definition SETUP_OUTPUT_DIM :: usize where "SETUP_OUTPUT_DIM = 2"

definition setup_layer1 :: sparse_ternary_layer where
  "setup_layer1 =
     (let byte_lo = SETUP_FLAG_LEN + TARGET_BYTE * BYTE_THERMO_LEN;
          byte_hi = byte_lo + BYTE_THERMO_LEN
      in \<lparr> l_input_dim = SETUP_INPUT_DIM, l_output_dim = 2,
           pos_indices = [[1], map of_nat [byte_lo..<byte_hi]], neg_indices = [[], []],
           bias = [0, - 1], relu = False \<rparr>)"

definition freeze_setup_build :: "xof \<Rightarrow> (ternary_network, ternary_error) res" where
  "freeze_setup_build xof =
     build_network xof (ascii ''freeze_setup'') (of_nat SETUP_INPUT_DIM) (of_nat SETUP_OUTPUT_DIM)
       [setup_layer1]"

definition freeze_setup_encode_input :: "bytes \<Rightarrow> (i64 list, ternary_error) res" where
  "freeze_setup_encode_input witness =
     (let flag = witness ! 0
      in if flag > 1 then Err (InputRange (ascii ''freeze_setup'') (uint flag) 1)
         else Ok (thermo_encode (uint flag) 1
                  @ concat (map (\<lambda>i. thermo_encode (uint (witness ! (1 + i))) 255) [0..<N_BYTES])))"

definition freeze_setup_decode_output :: "i64 list \<Rightarrow> (u8 \<times> u8, ternary_error) res" where
  "freeze_setup_decode_output out =
     (if length out \<noteq> SETUP_OUTPUT_DIM
      then Err (OutputDecode (ExpectedOutputs (ascii ''freeze_setup'') SETUP_OUTPUT_DIM (length out)))
      else let flag = out ! 0; byte47 = out ! 1
           in if \<not> (0 \<le> flag \<and> flag \<le> 1)
              then Err (OutputDecode (OutOfRange (ascii ''flag'') flag))
              else if \<not> (0 \<le> byte47 \<and> byte47 \<le> 255)
              then Err (OutputDecode (OutOfRange (ascii ''byte47'') byte47))
              else Ok (of_int flag, of_int byte47))"

definition freeze_setup_run :: "ternary_network \<Rightarrow> bytes \<Rightarrow> (u8 \<times> u8, ternary_error) res" where
  "freeze_setup_run net witness =
     and_then (freeze_setup_encode_input witness) (\<lambda>input.
     and_then (forward net input) freeze_setup_decode_output)"

section \<open>freeze\_apply\<close>

definition FLAG_MAX :: i64 where "FLAG_MAX = 1"
definition BYTE_MAX :: i64 where "BYTE_MAX = 255"
definition APPLY_FLAG_LEN :: usize where "APPLY_FLAG_LEN = nat (FLAG_MAX + 1)"
definition APPLY_INPUT_DIM :: usize where "APPLY_INPUT_DIM = APPLY_FLAG_LEN + nat (BYTE_MAX + 1)"
definition APPLY_OUTPUT_DIM :: usize where "APPLY_OUTPUT_DIM = 2"

definition apply_layer1 :: sparse_ternary_layer where
  "apply_layer1 =
     (let byte_lo = APPLY_FLAG_LEN; h_idx = byte_lo + 128
      in \<lparr> l_input_dim = APPLY_INPUT_DIM, l_output_dim = 257,
           pos_indices = map (\<lambda>k. [of_nat (byte_lo + k)]) [0..<128]
                         @ map (\<lambda>k. [of_nat (byte_lo + k)]) [128..<256] @ [[1]],
           neg_indices = map (\<lambda>k. [of_nat (byte_lo + k + 128), of_nat h_idx]) [0..<128]
                         @ map (\<lambda>k. []) [128..<256] @ [[]],
           bias = replicate 257 0, relu = True \<rparr>)"

definition apply_layer2 :: sparse_ternary_layer where
  "apply_layer2 =
     \<lparr> l_input_dim = 257, l_output_dim = 2,
       pos_indices = [map of_nat [0..<128] @ map of_nat [128..<256], [256]],
       neg_indices = [[], []], bias = [- 1, 0], relu = False \<rparr>"

definition freeze_apply_build :: "xof \<Rightarrow> (ternary_network, ternary_error) res" where
  "freeze_apply_build xof =
     build_network xof (ascii ''freeze_apply'') (of_nat APPLY_INPUT_DIM) (of_nat APPLY_OUTPUT_DIM)
       [apply_layer1, apply_layer2]"

definition freeze_apply_encode_input :: "u8 \<Rightarrow> u8 \<Rightarrow> (i64 list, ternary_error) res" where
  "freeze_apply_encode_input flag byte47 =
     (if flag > 1 then Err (InputRange (ascii ''freeze_apply'') (uint flag) 1)
      else Ok (thermo_encode (uint flag) FLAG_MAX @ thermo_encode (uint byte47) BYTE_MAX))"

definition freeze_apply_decode_output :: "i64 list \<Rightarrow> (u8, ternary_error) res" where
  "freeze_apply_decode_output out =
     (if length out \<noteq> APPLY_OUTPUT_DIM
      then Err (OutputDecode (ExpectedOutputs (ascii ''freeze_apply'') APPLY_OUTPUT_DIM (length out)))
      else let low7 = out ! 0; flag = out ! 1
           in if \<not> (0 \<le> low7 \<and> low7 \<le> 127)
              then Err (OutputDecode (OutOfRange (ascii ''LOW7'') low7))
              else if \<not> (0 \<le> flag \<and> flag \<le> 1)
              then Err (OutputDecode (OutOfRange (ascii ''flag'') flag))
              else Ok (of_int (low7 + 128 * flag)))"

definition freeze_apply_run :: "ternary_network \<Rightarrow> u8 \<Rightarrow> u8 \<Rightarrow> (u8, ternary_error) res" where
  "freeze_apply_run net flag byte47 =
     and_then (freeze_apply_encode_input flag byte47) (\<lambda>input.
     and_then (forward net input) freeze_apply_decode_output)"

section \<open>mpt\_emit\_record\<close>

definition RECORD_LEN :: usize where "RECORD_LEN = 64"
definition EMIT_INPUT_DIM :: usize where "EMIT_INPUT_DIM = RECORD_LEN * BYTE_THERMO_LEN"
definition EMIT_OUTPUT_DIM :: usize where "EMIT_OUTPUT_DIM = RECORD_LEN"

definition emit_layer1 :: sparse_ternary_layer where
  "emit_layer1 =
     \<lparr> l_input_dim = EMIT_INPUT_DIM, l_output_dim = EMIT_OUTPUT_DIM,
       pos_indices = map (\<lambda>i. let lo = i * BYTE_THERMO_LEN; hi = lo + BYTE_THERMO_LEN
                              in map of_nat [lo..<hi]) [0..<RECORD_LEN],
       neg_indices = map (\<lambda>i. []) [0..<RECORD_LEN],
       bias = replicate RECORD_LEN (- 1), relu = False \<rparr>"

definition mpt_emit_build :: "xof \<Rightarrow> (ternary_network, ternary_error) res" where
  "mpt_emit_build xof =
     build_network xof (ascii ''mpt_emit_record'') (of_nat EMIT_INPUT_DIM) (of_nat EMIT_OUTPUT_DIM)
       [emit_layer1]"

definition mpt_emit_encode_input :: "bytes \<Rightarrow> i64 list" where
  "mpt_emit_encode_input rec = concat (map (\<lambda>b. thermo_encode (uint b) 255) rec)"

fun mpt_emit_decode_bytes :: "usize \<Rightarrow> i64 list \<Rightarrow> (bytes, ternary_error) res" where
  "mpt_emit_decode_bytes i [] = Ok []"
| "mpt_emit_decode_bytes i (b # bs) =
     (if \<not> (0 \<le> b \<and> b \<le> 255) then Err (OutputDecode (RecordByte i b))
      else and_then (mpt_emit_decode_bytes (Suc i) bs) (\<lambda>rest. Ok (of_int b # rest)))"

definition mpt_emit_decode_output :: "i64 list \<Rightarrow> (bytes, ternary_error) res" where
  "mpt_emit_decode_output out =
     (if length out \<noteq> EMIT_OUTPUT_DIM
      then Err (OutputDecode (ExpectedOutputs (ascii ''mpt_emit'') EMIT_OUTPUT_DIM (length out)))
      else mpt_emit_decode_bytes 0 out)"

definition mpt_emit_run :: "ternary_network \<Rightarrow> bytes \<Rightarrow> (bytes, ternary_error) res" where
  "mpt_emit_run net rec =
     and_then (forward net (mpt_emit_encode_input rec)) mpt_emit_decode_output"

section \<open>Blocks of equal length\<close>

lemma concat_block:
  assumes "i < length xss" "\<And>xs. xs \<in> set xss \<Longrightarrow> length xs = n"
  shows "take n (drop (i * n) (concat xss)) = xss ! i"
  using assms
proof (induction xss arbitrary: i)
  case Nil
  then show ?case by simp
next
  case (Cons xs xss)
  have xs: "length xs = n" using Cons.prems(2) by simp
  show ?case
  proof (cases i)
    case 0
    with xs show ?thesis by simp
  next
    case (Suc j)
    with Cons have "take n (drop (j * n) (concat xss)) = xss ! j" by simp
    with Suc xs show ?thesis by simp
  qed
qed

lemma sum_gather:
  assumes "hi \<le> length x" "hi \<le> 4294967296"
  shows "sum_list (map (\<lambda>j. x ! unat (j :: u32)) (map of_nat [lo..<hi])) =
    sum_list (take (hi - lo) (drop lo x))"
  by (simp only: gather_range [OF assms])

lemmas record_consts = SETUP_FLAG_LEN_def BYTE_THERMO_LEN_def N_BYTES_def TARGET_BYTE_def
  SETUP_INPUT_DIM_def SETUP_OUTPUT_DIM_def FLAG_MAX_def BYTE_MAX_def APPLY_FLAG_LEN_def
  APPLY_INPUT_DIM_def APPLY_OUTPUT_DIM_def RECORD_LEN_def EMIT_INPUT_DIM_def EMIT_OUTPUT_DIM_def

lemma forward_single:
  "layers net = [l] \<Longrightarrow> length x = l_input_dim l \<Longrightarrow>
     forward net x = layer_forward l x (replicate (l_output_dim l) 0) 0"
  by (cases "layer_forward l x (replicate (l_output_dim l) 0) 0") (auto simp: forward_def)

section \<open>The builds\<close>

definition freeze_setup_net :: "xof \<Rightarrow> ternary_network" where
  "freeze_setup_net xof = network_of xof (ascii ''freeze_setup'') (of_nat SETUP_INPUT_DIM)
     (of_nat SETUP_OUTPUT_DIM) [setup_layer1]"

definition freeze_apply_net :: "xof \<Rightarrow> ternary_network" where
  "freeze_apply_net xof = network_of xof (ascii ''freeze_apply'') (of_nat APPLY_INPUT_DIM)
     (of_nat APPLY_OUTPUT_DIM) [apply_layer1, apply_layer2]"

definition mpt_emit_net :: "xof \<Rightarrow> ternary_network" where
  "mpt_emit_net xof = network_of xof (ascii ''mpt_emit_record'') (of_nat EMIT_INPUT_DIM)
     (of_nat EMIT_OUTPUT_DIM) [emit_layer1]"

lemma packable_record_layers:
  "packable setup_layer1" "packable apply_layer1" "packable apply_layer2" "packable emit_layer1"
  by (simp_all add: packable_def csr_ok_def setup_layer1_def apply_layer1_def apply_layer2_def
      emit_layer1_def record_consts comp_def sum_list_triv Let_def)

lemma record_builds_ok [simp]:
  "freeze_setup_build xof = Ok (freeze_setup_net xof)"
  "freeze_apply_build xof = Ok (freeze_apply_net xof)"
  "mpt_emit_build xof = Ok (mpt_emit_net xof)"
  by (simp_all add: freeze_setup_build_def freeze_apply_build_def mpt_emit_build_def
      freeze_setup_net_def freeze_apply_net_def mpt_emit_net_def build_network_ok
      packable_record_layers)

lemma layers_record_nets [simp]:
  "layers (freeze_setup_net xof) = [setup_layer1]"
  "layers (freeze_apply_net xof) = [apply_layer1, apply_layer2]"
  "layers (mpt_emit_net xof) = [emit_layer1]"
  by (simp_all add: freeze_setup_net_def freeze_apply_net_def mpt_emit_net_def)

section \<open>freeze\_setup projects the flag and byte 47\<close>

definition setup_input :: "bytes \<Rightarrow> i64 list" where
  "setup_input w = thermo_encode (uint (w ! 0)) 1
     @ concat (map (\<lambda>i. thermo_encode (uint (w ! (1 + i))) 255) [0..<64])"

lemma length_setup_input: "length (setup_input w) = 16386"
  by (simp add: setup_input_def length_concat comp_def sum_list_triv)

lemma magnitude_concat: "(\<And>x. x \<in> set xss \<Longrightarrow> magnitude x 1) \<Longrightarrow> magnitude (concat xss) 1"
  by (induction xss) (auto simp: magnitude_append, simp add: magnitude_def)

lemma setup_layer1_eq:
  "setup_layer1 = \<lparr> l_input_dim = 16386, l_output_dim = 2,
     pos_indices = [[1], map of_nat [12034..<12290]], neg_indices = [[], []],
     bias = [0, - 1], relu = False \<rparr>"
  by (simp add: setup_layer1_def record_consts)

lemma flag_bit: "(c :: u8) \<le> 1 \<Longrightarrow> (if 1 \<le> uint c then 1 else 0) = uint c"
proof (cases "1 \<le> uint c")
  case True
  then show "c \<le> 1 \<Longrightarrow> ?thesis" using carry_bound [of c] by simp
next
  case False
  then have "uint c = 0" using uint_u8_bounds(1) [of c] by linarith
  then show ?thesis by simp
qed

lemma setup_layer1_value:
  assumes "w ! 0 \<le> 1"
  shows "layer_forward setup_layer1 (setup_input w) (replicate 2 0) li =
    Ok [uint (w ! 0), uint (w ! 48)]"
proof -
  let ?x = "setup_input w"
  have "layer_forward setup_layer1 ?x (replicate 2 0) li =
      Ok (map (row_value setup_layer1 ?x) [0..<l_output_dim setup_layer1])"
  proof (rule layer_forward_value [where M = 1])
    show "layer_wf setup_layer1"
      by (auto simp: layer_wf_def setup_layer1_eq list_all_iff unat_index)
    show "headroom setup_layer1 1"
      by (simp add: headroom_def setup_layer1_eq i64_max_def)
    show "magnitude ?x 1"
      unfolding setup_input_def magnitude_append
      by (auto intro!: magnitude_concat simp: magnitude_thermo_encode)
  qed (simp_all add: length_setup_input setup_layer1_eq)
  moreover have "row_value setup_layer1 ?x 0 = uint (w ! 0)"
  proof -
    have "?x ! 1 = (if 1 \<le> uint (w ! 0) then 1 else 0)"
      using carry_bound [OF assms] by (simp add: setup_input_def nth_append thermo_encode_nth)
    then have "?x ! 1 = uint (w ! 0)" by (simp only: flag_bit [OF assms])
    then show ?thesis by (simp add: row_value_def row_sum_def setup_layer1_eq)
  qed
  moreover have "row_value setup_layer1 ?x 1 = uint (w ! 48)"
  proof -
    let ?bs = "map (\<lambda>i. thermo_encode (uint (w ! (1 + i))) 255) [0..<64]"
    have "take 256 (drop (47 * 256) (concat ?bs)) = ?bs ! 47"
      by (rule concat_block) auto
    then have "take 256 (drop 12034 ?x) = thermo_encode (uint (w ! 48)) 255"
      by (simp add: setup_input_def)
    then show ?thesis
      using sum_gather [of 12290 ?x 12034]
      by (simp add: row_value_def row_sum_def setup_layer1_eq length_setup_input sum_thermo_encode)
  qed
  ultimately show ?thesis by (simp add: setup_layer1_eq)
qed

lemma freeze_setup_run_value:
  assumes "w ! 0 \<le> 1" "layers net = [setup_layer1]"
  shows "freeze_setup_run net w = Ok (w ! 0, w ! 48)"
proof -
  have enc: "freeze_setup_encode_input w = Ok (setup_input w)"
    using assms(1) by (simp add: freeze_setup_encode_input_def setup_input_def record_consts leD)
  have "forward net (setup_input w) = Ok [uint (w ! 0), uint (w ! 48)]"
    using setup_layer1_value [OF assms(1)] assms(2)
    by (subst forward_single [of _ setup_layer1]) (simp_all add: length_setup_input setup_layer1_eq)
  then show ?thesis
    using enc carry_bound [OF assms(1)]
    by (simp add: freeze_setup_run_def freeze_setup_decode_output_def record_consts)
qed

section \<open>mpt\_emit\_record is the identity\<close>

lemma mpt_emit_decode_bytes_uint:
  "mpt_emit_decode_bytes i (map uint bs) = Ok bs"
  by (induction bs arbitrary: i) simp_all

lemma emit_layer1_value:
  assumes "length rec = 64"
  shows "layer_forward emit_layer1 (mpt_emit_encode_input rec) (replicate 64 0) li = Ok (map uint rec)"
proof -
  let ?x = "mpt_emit_encode_input rec"
  have len: "length ?x = 16384"
    using assms by (simp add: mpt_emit_encode_input_def length_concat comp_def sum_list_triv)
  have "layer_forward emit_layer1 ?x (replicate 64 0) li =
      Ok (map (row_value emit_layer1 ?x) [0..<l_output_dim emit_layer1])"
  proof (rule layer_forward_value [where M = 1])
    show "layer_wf emit_layer1"
      by (auto simp: layer_wf_def emit_layer1_def list_all_iff unat_index record_consts Let_def)
    show "headroom emit_layer1 1"
      by (simp add: headroom_def emit_layer1_def i64_max_def list_all_length record_consts Let_def)
    show "magnitude ?x 1"
      unfolding mpt_emit_encode_input_def
      by (auto intro!: magnitude_concat simp: magnitude_thermo_encode)
  qed (simp_all add: len emit_layer1_def record_consts)
  also have "map (row_value emit_layer1 ?x) [0..<l_output_dim emit_layer1] = map uint rec"
  proof (rule nth_equalityI)
    fix i assume "i < length (map (row_value emit_layer1 ?x) [0..<l_output_dim emit_layer1])"
    then have i: "i < 64" by (simp add: emit_layer1_def record_consts)
    let ?bs = "map (\<lambda>b. thermo_encode (uint b) 255) rec"
    have "take 256 (drop (i * 256) (concat ?bs)) = ?bs ! i"
      using i assms by (intro concat_block) auto
    then have "take 256 (drop (i * 256) ?x) = thermo_encode (uint (rec ! i)) 255"
      using i assms by (simp add: mpt_emit_encode_input_def)
    then show "map (row_value emit_layer1 ?x) [0..<l_output_dim emit_layer1] ! i = map uint rec ! i"
      using sum_gather [of "i * 256 + 256" ?x "i * 256"] i len assms
      by (simp add: row_value_def row_sum_def emit_layer1_def record_consts sum_thermo_encode Let_def)
  qed (simp add: assms emit_layer1_def record_consts)
  finally show ?thesis .
qed

lemma mpt_emit_run_value:
  assumes "length rec = 64" "layers net = [emit_layer1]"
  shows "mpt_emit_run net rec = Ok rec"
proof -
  have "length (mpt_emit_encode_input rec) = 16384"
    using assms(1) by (simp add: mpt_emit_encode_input_def length_concat comp_def sum_list_triv)
  then have "forward net (mpt_emit_encode_input rec) = Ok (map uint rec)"
    using emit_layer1_value [OF assms(1)] assms(2)
    by (subst forward_single [of _ emit_layer1]) (simp_all add: emit_layer1_def record_consts)
  then show ?thesis
    using assms(1)
    by (simp add: mpt_emit_run_def mpt_emit_decode_output_def record_consts mpt_emit_decode_bytes_uint)
qed

section \<open>freeze\_apply replaces the top bit\<close>

lemma apply_layer1_eq:
  "apply_layer1 = \<lparr> l_input_dim = 258, l_output_dim = 257,
     pos_indices = map (\<lambda>k. [of_nat (2 + k)]) [0..<256] @ [[1]],
     neg_indices = map (\<lambda>k. if k < 128 then [of_nat (2 + k + 128), 130] else []) [0..<256] @ [[]],
     bias = replicate 257 0, relu = True \<rparr>"
proof -
  have split: "[0..<256] = [0..<128] @ [128..<256]"
    using upt_add_eq_append [of 0 128 128] by simp
  have neg: "map (\<lambda>k. if k < 128 then [of_nat (2 + k + 128), 130] else []) [0..<256] =
      map (\<lambda>k. [of_nat (2 + k + 128), 130]) [0..<128] @ map (\<lambda>k. [] :: u32 list) [128..<256]"
    unfolding split map_append by (intro arg_cong2 [where f = append] map_cong) auto
  show ?thesis
    unfolding neg unfolding split
    by (simp add: apply_layer1_def record_consts Let_def)
qed

lemma apply_layer2_eq:
  "apply_layer2 = \<lparr> l_input_dim = 257, l_output_dim = 2,
     pos_indices = [map of_nat [0..<256], [256]], neg_indices = [[], []],
     bias = [- 1, 0], relu = False \<rparr>"
  using upt_add_eq_append [of 0 128 128] by (simp add: apply_layer2_def)

definition apply_input :: "u8 \<Rightarrow> u8 \<Rightarrow> i64 list" where
  "apply_input flag b = thermo_encode (uint flag) 1 @ thermo_encode (uint b) 255"

text \<open>The value of the hidden row \<open>k\<close>, for a byte \<open>v\<close>.\<close>

definition hidden :: "int \<Rightarrow> nat \<Rightarrow> int" where
  "hidden v k = (if v < 128 then (if k < 128 \<and> int k \<le> v then 1 else 0)
     else (if 128 \<le> k \<and> int k \<le> v then 1 else 0))"

lemma apply_layer1_value:
  assumes "flag \<le> 1"
  shows "layer_forward apply_layer1 (apply_input flag b) (replicate 257 0) li =
    Ok (map (hidden (uint b)) [0..<256] @ [uint flag])"
proof -
  let ?x = "apply_input flag b" and ?l = apply_layer1
  have len: "length ?x = 258" by (simp add: apply_input_def)
  have nth: "?x ! (2 + k) = (if int k \<le> uint b then 1 else 0)" if "k < 256" for k
    using that by (simp add: apply_input_def nth_append thermo_encode_nth)
  have "layer_forward ?l ?x (replicate 257 0) li = Ok (map (row_value ?l ?x) [0..<l_output_dim ?l])"
  proof (rule layer_forward_value [where M = 1])
    show "layer_wf ?l"
      by (auto simp: layer_wf_def apply_layer1_eq list_all_iff unat_index simp del: of_nat_add of_nat_Suc split: if_splits)
    show "headroom ?l 1"
      by (auto simp: headroom_def apply_layer1_eq list_all_iff i64_max_def nth_append)
    show "magnitude ?x 1"
      by (simp add: apply_input_def magnitude_append magnitude_thermo_encode)
  qed (simp_all add: len apply_layer1_eq)
  also have "map (row_value ?l ?x) [0..<l_output_dim ?l] = map (row_value ?l ?x) [0..<256] @ [row_value ?l ?x 256]"
    using upt_Suc_append [of 0 256] by (simp add: apply_layer1_eq)
  also have "map (row_value ?l ?x) [0..<256] = map (hidden (uint b)) [0..<256]"
  proof (rule map_cong [OF refl])
    fix k :: nat assume "k \<in> set [0..<256]"
    then have k: "k < 256" by simp
    have hb: "?x ! 130 = (if 128 \<le> uint b then 1 else 0)" using nth [of 128] by simp
    show "row_value ?l ?x k = hidden (uint b) k"
    proof (cases "k < 128")
      case True
      then have "row_value ?l ?x k = max 0 (?x ! (2 + k) - (?x ! (2 + (k + 128)) + ?x ! 130))"
        using k by (simp add: row_value_def row_sum_def apply_layer1_eq nth_append unat_index
            add.assoc del: of_nat_add of_nat_Suc)
      then show ?thesis using True nth [OF k] nth [of "k + 128"] hb by (auto simp: hidden_def)
    next
      case False
      then have "row_value ?l ?x k = max 0 (?x ! (2 + k))"
        using k by (simp add: row_value_def row_sum_def apply_layer1_eq nth_append unat_index del: of_nat_add of_nat_Suc)
      then show ?thesis using False nth [OF k] by (auto simp: hidden_def)
    qed
  qed
  also have "row_value ?l ?x 256 = uint flag"
  proof -
    have "?x ! 1 = (if 1 \<le> uint flag then 1 else 0)"
      using carry_bound [OF assms] by (simp add: apply_input_def nth_append thermo_encode_nth)
    then have "?x ! 1 = uint flag" by (simp only: flag_bit [OF assms])
    then show ?thesis by (simp add: row_value_def row_sum_def apply_layer1_eq nth_append)
  qed
  finally show ?thesis .
qed

lemma sum_hidden:
  assumes "0 \<le> v" "v \<le> 255"
  shows "sum_list (map (hidden v) [0..<256]) = v mod 128 + 1"
proof -
  have "sum_list (map (hidden v) [0..<256]) = (\<Sum>k<256. hidden v k)"
    by (simp add: sum_list_distinct_conv_sum_set atLeast0LessThan)
  also have "\<dots> = (\<Sum>k<256. if hidden v k = 1 then 1 else 0)"
    by (intro sum.cong) (auto simp: hidden_def)
  also have "\<dots> = int (card {k. k < 256 \<and> hidden v k = 1})"
    by (simp add: sum.If_cases lessThan_def Collect_conj_eq)
  also have "card {k. k < 256 \<and> hidden v k = 1} = nat (v mod 128) + 1"
  proof (cases "v < 128")
    case True
    then have "{k. k < 256 \<and> hidden v k = 1} = {0..nat v}"
      using assms by (auto simp: hidden_def)
    with True assms show ?thesis by simp
  next
    case False
    then have "{k. k < 256 \<and> hidden v k = 1} = {128..nat v}"
      using assms by (auto simp: hidden_def)
    moreover have "v mod 128 = v - 128" using False assms by presburger
    ultimately show ?thesis using False assms by simp
  qed
  finally show ?thesis by simp
qed

lemma apply_layer2_value:
  assumes "0 \<le> v" "v \<le> 255" "\<bar>f\<bar> \<le> 1"
  shows "layer_forward apply_layer2 (map (hidden v) [0..<256] @ [f]) (replicate 2 0) li = Ok [v mod 128, f]"
proof -
  let ?x = "map (hidden v) [0..<256] @ [f]"
  have "layer_forward apply_layer2 ?x (replicate 2 0) li =
      Ok (map (row_value apply_layer2 ?x) [0..<l_output_dim apply_layer2])"
  proof (rule layer_forward_value [where M = 1])
    show "layer_wf apply_layer2"
      by (auto simp: layer_wf_def apply_layer2_eq list_all_iff unat_index)
    show "headroom apply_layer2 1"
      by (simp add: headroom_def apply_layer2_eq i64_max_def)
    show "magnitude ?x 1"
      using assms(3) by (auto simp: magnitude_def list_all_iff hidden_def)
  qed (simp_all add: apply_layer2_eq)
  moreover have "row_value apply_layer2 ?x 0 = v mod 128"
    using sum_gather [of 256 ?x 0] sum_hidden [OF assms(1,2)]
    by (simp add: row_value_def row_sum_def apply_layer2_eq)
  moreover have "row_value apply_layer2 ?x 1 = f"
    by (simp add: row_value_def row_sum_def apply_layer2_eq nth_append)
  ultimately show ?thesis by (simp add: apply_layer2_eq)
qed

lemma freeze_apply_run_value:
  assumes "flag \<le> 1" "layers net = [apply_layer1, apply_layer2]"
  shows "freeze_apply_run net flag b = Ok (of_nat (unat b mod 128 + 128 * unat flag))"
proof -
  have enc: "freeze_apply_encode_input flag b = Ok (apply_input flag b)"
    using assms(1) by (simp add: freeze_apply_encode_input_def apply_input_def record_consts leD)
  have flag: "\<bar>uint flag\<bar> \<le> 1" "uint flag \<le> 1"
    using carry_bound [OF assms(1)] by simp_all
  have dims: "l_output_dim apply_layer1 = 257" "l_output_dim apply_layer2 = 2"
    "length (apply_input flag b) = l_input_dim apply_layer1"
    by (simp_all add: apply_layer1_eq apply_layer2_eq apply_input_def)
  have fwd: "forward net (apply_input flag b) = Ok [uint b mod 128, uint flag]"
    unfolding forward_def assms(2)
    using apply_layer2_value [of "uint b" "uint flag"] flag dims
    by (simp add: apply_layer1_value [OF assms(1)])
  let ?n = "unat b mod 128 + 128 * unat flag"
  have n: "uint b mod 128 + 128 * uint flag = int ?n"
    unfolding uint_as_nat by (simp only: of_nat_add of_nat_mult zmod_int of_nat_numeral)
  have "freeze_apply_decode_output [uint b mod 128, uint flag] = Ok (of_int (uint b mod 128 + 128 * uint flag))"
    using flag by (simp add: freeze_apply_decode_output_def record_consts Let_def)
  then show ?thesis
    unfolding n of_int_of_nat_eq freeze_apply_run_def enc and_then.simps fwd .
qed

end
