(* ===== verification/Kernel_Properties.thy ===== *)
theory Kernel_Properties
  imports Contract_Laws Record_Primitives
begin

text \<open>
  The properties of the ternary virtual machine and of the contract library: what the built
  networks compute, that the integer kernel is exact and never wraps, that weight files and
  trace hashes identify what they should, and that the contracts move value correctly.
  The digest function is a parameter throughout; witnesses use a constant one.
\<close>

definition zero_xof :: xof where "zero_xof = (\<lambda>_ n. replicate n 0)"

lemma length_zero_xof [simp]: "length (zero_xof m n) = n"
  by (simp add: zero_xof_def)

section \<open>The primitives\<close>

text \<open>
  C13. The network that \<open>byte_add_with_carry::build\<close> constructs adds: for all \<open>2^17\<close> inputs the
  forward pass and the decoding return the sum byte and the carry of \<open>a + b + c\<close>, and a carry
  input above 1 is the range error. No weight table is trusted: the build itself is evaluated.
\<close>

theorem byte_add_correct:
  "and_then (byte_add_build xof) (\<lambda>net. byte_add_run net a b c) =
     (if c \<le> 1
      then Ok (of_nat ((unat a + unat b + unat c) mod 256), of_nat ((unat a + unat b + unat c) div 256))
      else Err (InputRange (ascii ''byte_add_with_carry'') (uint c) 1))"
  by (simp add: byte_add_run_value)
     (simp add: byte_add_run_def byte_add_encode_input_def not_le)

text \<open>
  The network that \<open>byte_sub_with_borrow::build\<close> constructs subtracts: the difference byte is
  \<open>m - s - b\<close> modulo 256 and the borrow is set exactly when the minuend is too small.
\<close>

theorem byte_sub_correct:
  "and_then (byte_sub_build xof) (\<lambda>net. byte_sub_run net m s b) =
     (if b \<le> 1
      then Ok (of_nat ((256 + unat m - unat s - unat b) mod 256),
               if unat m < unat s + unat b then 1 else 0)
      else Err (InputRange (ascii ''byte_sub_with_borrow'') (uint b) 1))"
  by (simp add: byte_sub_run_value)
     (simp add: byte_sub_run_def byte_sub_encode_input_def not_le)

text \<open>
  \<open>freeze_setup\<close> followed by \<open>freeze_apply\<close>: on a witness of a flag byte and a 64-byte record,
  the first network extracts the flag and record byte 47, the second clears that byte's top
  bit and puts the flag there; a flag above 1 is the range error of the first network.
\<close>

theorem freeze_pipeline_correct:
  "and_then (freeze_setup_build xof) (\<lambda>setup.
   and_then (freeze_apply_build xof) (\<lambda>app.
   and_then (freeze_setup_run setup w) (\<lambda>(flag, byte47). freeze_apply_run app flag byte47))) =
     (if w ! 0 \<le> 1 then Ok (of_nat (unat (w ! 48) mod 128 + 128 * unat (w ! 0)))
      else Err (InputRange (ascii ''freeze_setup'') (uint (w ! 0)) 1))"
  by (simp add: freeze_setup_run_value freeze_apply_run_value freeze_setup_net_def freeze_apply_net_def)
     (simp add: freeze_setup_run_def freeze_setup_encode_input_def not_le)

text \<open>
  The record emitter is the identity on 64-byte records: every byte survives the
  thermometer encoding, the network of 64 rows and the decoding.
\<close>

theorem mpt_emit_correct:
  assumes "length rec = 64"
  shows "and_then (mpt_emit_build xof) (\<lambda>net. mpt_emit_run net rec) = Ok rec"
  using assms by (simp add: mpt_emit_run_value mpt_emit_net_def)

theorem mpt_emit_correct_witness:
  "length (replicate 64 7 :: bytes) = 64 \<and>
   and_then (mpt_emit_build zero_xof) (\<lambda>net. mpt_emit_run net (replicate 64 7)) = Ok (replicate 64 7)"
  using mpt_emit_correct [of "replicate 64 7" zero_xof] by simp

section \<open>The kernel\<close>

text \<open>
  The sparse kernel is exact: on a well-formed layer whose sums have headroom in \<open>i64\<close>,
  every row is bias plus the positive gather minus the negative gather, clamped at zero
  when the layer has a rectifier; no overflow error and no index panic can occur.
\<close>

theorem layer_exact:
  assumes "layer_wf l" "length x = l_input_dim l" "magnitude x M" "headroom l M"
    and "length y = l_output_dim l"
  shows "layer_forward l x y li = Ok (map (row_value l x) [0..<l_output_dim l])"
  using assms by (rule layer_forward_value)

definition sample_layer :: sparse_ternary_layer where
  "sample_layer = \<lparr> l_input_dim = 2, l_output_dim = 2, pos_indices = [[0], [1]],
     neg_indices = [[1], []], bias = [1, 0], relu = True \<rparr>"

theorem layer_exact_witness:
  "layer_forward sample_layer [3, 9] [0, 0] 0 = Ok [0, 9]"
  using layer_exact [of sample_layer "[3, 9]" 9 "[0, 0]" 0]
  by (simp add: sample_layer_def layer_wf_def magnitude_def headroom_def i64_max_def row_value_def
      row_sum_def)

text \<open>
  The documented invariant of a layer, with the columns of a row listed once: no column is both
  positive and negative. Then a row has at most one weight per column and the non-zero
  weights never outnumber the slots, as long as the number of slots fits into sixty-four
  bits.
\<close>

definition ternary_rows :: "sparse_ternary_layer \<Rightarrow> bool" where
  "ternary_rows l \<longleftrightarrow> list_all2 (\<lambda>ps ns. distinct (ps @ ns)) (pos_indices l) (neg_indices l)"

lemma row_within_columns:
  assumes "distinct (js :: u32 list)" "list_all (\<lambda>j. unat j < n) js"
  shows "length js \<le> n"
proof -
  have "inj_on unat (set js)" by (rule inj_onI) (simp add: word_unat_eq_iff)
  then have "length js = card (unat ` set js)"
    using assms(1) by (simp add: card_image distinct_card)
  also have "\<dots> \<le> card {..<n}"
    using assms(2) by (intro card_mono) (auto simp: list_all_iff)
  finally show ?thesis by simp
qed

lemma rows_within_slots:
  assumes "list_all2 (\<lambda>ps ns. distinct (ps @ ns)) pss nss"
    and "list_all (list_all (\<lambda>j. unat (j :: u32) < n)) pss" "list_all (list_all (\<lambda>j. unat j < n)) nss"
  shows "sum_list (map length pss) + sum_list (map length nss) \<le> n * length pss"
  using assms
proof (induction rule: list_all2_induct)
  case (Cons ps pss ns nss)
  then show ?case using row_within_columns [of "ps @ ns" n] by simp
qed simp

theorem nnz_within_slots:
  assumes "list_all layer_wf (layers net)" "list_all ternary_rows (layers net)"
    and "sum_list (map (\<lambda>l. l_input_dim l * l_output_dim l) (layers net)) < 2 ^ 64"
  shows "total_nnz net \<le> total_slots net"
proof -
  have fits: "l_input_dim l * l_output_dim l < 2 ^ 64" if "l \<in> set (layers net)" for l
    using member_le_sum_list [of "l_input_dim l * l_output_dim l" "map (\<lambda>l. l_input_dim l * l_output_dim l) (layers net)"] that assms(3)
    by force
  then have slots: "map (\<lambda>l. saturating_mul_usize (l_input_dim l) (l_output_dim l)) (layers net) =
      map (\<lambda>l. l_input_dim l * l_output_dim l) (layers net)"
    by (intro map_cong refl) (fastforce simp: saturating_mul_usize_def)
  have "nnz l \<le> l_input_dim l * l_output_dim l" if "l \<in> set (layers net)" for l
    using that assms(1,2) rows_within_slots [of "pos_indices l" "neg_indices l" "l_input_dim l"]
    by (simp add: list_all_iff layer_wf_def ternary_rows_def nnz_def)
  then show ?thesis
    using assms(3) unfolding total_nnz_def total_slots_def slots by (simp add: sum_list_mono)
qed

theorem nnz_within_slots_witness:
  "total_nnz \<lparr> header = h, layers = [sample_layer] \<rparr> = 3 \<and>
   total_nnz \<lparr> header = h, layers = [sample_layer] \<rparr> \<le> total_slots \<lparr> header = h, layers = [sample_layer] \<rparr>"
  using nnz_within_slots [of "\<lparr> header = h, layers = [sample_layer] \<rparr>"]
  by (simp add: sample_layer_def layer_wf_def ternary_rows_def total_nnz_def nnz_def)

lemma layer_rows_in_range:
  "layer_rows l x li i ys = Ok z \<Longrightarrow> list_all i64_ok (bias l) \<Longrightarrow> list_all i64_ok z"
  by (induction ys arbitrary: i z) (auto simp: and_then_Ok_iff intro: layer_row_in_range)

lemma layer_forward_in_range:
  "layer_forward l x y li = Ok z \<Longrightarrow> list_all i64_ok (bias l) \<Longrightarrow> list_all i64_ok z"
  by (auto simp: layer_forward_def layer_rows_in_range split: if_splits)

lemma forward_layers_in_range:
  assumes "forward_layers li ls x = Ok z" "list_all (\<lambda>l. list_all i64_ok (bias l)) ls" "ls \<noteq> []"
  shows "list_all i64_ok z \<and> length z = l_output_dim (last ls)"
  using assms
proof (induction ls arbitrary: li x)
  case (Cons l ls)
  then obtain y where y: "layer_forward l x (replicate (l_output_dim l) 0) li = Ok y"
    "forward_layers (Suc li) ls y = Ok z"
    by (auto simp: and_then_Ok_iff)
  with Cons show ?case
    by (cases "ls = []") (auto intro: layer_forward_in_range length_layer_forward)
qed simp

text \<open>
  Overflow is never silent: whatever a forward pass returns lies in the \<open>i64\<close> range and has
  the output dimension of the last layer.
\<close>

theorem forward_in_range:
  assumes "forward net x = Ok z" "layers net \<noteq> []" "list_all (\<lambda>l. list_all i64_ok (bias l)) (layers net)"
  shows "list_all i64_ok z \<and> length z = l_output_dim (last (layers net))"
  using assms forward_layers_in_range [of 0 "layers net" x z]
  by (auto simp: forward_def split: list.splits if_splits)

theorem forward_in_range_witness:
  "list_all i64_ok [1] \<and> length [1::i64] = l_output_dim (last (layers (credit_net zero_xof)))"
  by (rule forward_in_range [of "credit_net zero_xof" "[900, 100, 0, 0]"])
     (simp_all add: credit_model_forward approves_def credit_layers_def MIN_NET_CREDIT_def
       MAX_RISK_FLAGS_def i64_ok_def i64_min_def i64_max_def)

lemma best_of_unique:
  assumes "best_of xs (Some (k, v))" "j < length xs" "\<forall>i < length xs. xs ! i \<le> xs ! j" "\<forall>i < j. xs ! i < xs ! j"
  shows "j = k"
  using assms by (auto simp: best_of_def) (metis antisym_conv3 leD)

text \<open>
  \<open>argmax\<close> returns exactly the first index of a largest value, and is an error only on the
  empty vector.
\<close>

theorem argmax_first_max:
  "argmax xs = Ok k \<longleftrightarrow>
     k < length xs \<and> (\<forall>i < length xs. xs ! i \<le> xs ! k) \<and> (\<forall>i < k. xs ! i < xs ! k)"
proof (cases "argmax_scan 0 xs None")
  case None
  with argmax_best [of xs] show ?thesis by (simp add: argmax_def best_of_def)
next
  case (Some p)
  obtain j v where p: "p = (j, v)" by force
  with Some argmax_best [of xs] have best: "best_of xs (Some (j, v))" by simp
  have "argmax xs = Ok j" by (simp add: argmax_def Some p)
  with best best_of_unique [OF best, of k] show ?thesis
    by (auto simp: best_of_def)
qed

theorem argmax_first_max_witness: "argmax [2, 7, 7] = Ok 1"
  unfolding argmax_first_max by (simp add: less_Suc_eq)

section \<open>Weight files and trace hashes\<close>

text \<open>
  C16. A weight file unpacks to what was packed: for a network whose name, dimensions and tables
  fit the format, unpacking the packed bytes returns the same layers, and the header that the
  build put on the network, both digests included.
\<close>

theorem weights_roundtrip:
  assumes "storable_network name ls" "\<And>m. length (xof m 32) = 32"
  shows "and_then (pack_weights xof name i out ls) (\<lambda>(buf, digest). unpack_weights xof buf) =
    Ok (header (network_of xof name i out ls), ls)"
proof -
  have "list_all packable ls"
    using assms(1) by (auto simp: storable_network_def storable_def list_all_iff)
  then show ?thesis
    using assms unpack_payload [OF assms(1), of xof i out]
    by (simp add: pack_weights_payload network_of_def weights_hash_v2_of_def)
qed

theorem weights_roundtrip_witness:
  "and_then (pack_weights zero_xof (ascii ''m'') 2 2 [sample_layer])
     (\<lambda>(buf, digest). unpack_weights zero_xof buf) =
   Ok (header (network_of zero_xof (ascii ''m'') 2 2 [sample_layer]), [sample_layer])"
  by (rule weights_roundtrip)
     (simp_all add: storable_network_def storable_def packable_def csr_ok_def sample_layer_def
       i64_ok_def i64_min_def i64_max_def ascii_def)

definition bad_csr_payload :: bytes where
  "bad_csr_payload =
     MAGIC @ u32_be 1 @ u16_be 0 @ u32_be 1 @ u32_be 1 @ u32_be 1
     @ u32_be 1 @ u32_be 1 @ [0] @ u64_be 0 @ u64_be 0
     @ u32_be 0 @ u32_be 5 @ u32_be 0 @ u32_be 0 @ i64_be 0"

lemma unpack_layer_bad_csr:
  "unpack_layer (cursor_at pre (u32_be 1 @ u32_be 1 @ 0 # u64_be 0 @ u64_be 0
     @ u32_be 0 @ u32_be 5 @ u32_be 0 @ u32_be 0 @ i64_be 0)) = Panic"
proof -
  have two: "Suc (unat (1::u32)) = Suc (Suc 0)" "unat (1::u32) = Suc 0" by simp_all
  have "read_i64 (cursor_at p (i64_be 0)) = Ok (0, cursor_at (p @ i64_be 0) [])" for p
    using read_i64_at [of 0 p "[]"] by (simp add: i64_ok_def i64_min_def i64_max_def)
  then show ?thesis by (simp add: unpack_layer_def cursor_read two)
qed

text \<open>
  A weight file with a valid digest and a malformed row-offset table makes \<open>unpack_weights\<close>
  panic on the slice, although the crate promises an error for every shape mismatch.
\<close>

theorem unpack_panics_on_bad_csr:
  assumes "length (xof bad_csr_payload 32) = 32"
  shows "unpack_weights xof (bad_csr_payload @ xof bad_csr_payload 32) = Panic"
proof -
  have magic: "length MAGIC = 8" by (simp add: MAGIC_def)
  have one: "unat (1::u32) = Suc 0" by simp
  have start: "\<lparr>c_buf = b, c_off = 0\<rparr> = cursor_at [] b" for b by (simp add: cursor_at_def)
  show ?thesis
    using assms magic unfolding unpack_weights_def Let_def
    by (simp add: start)
       (simp add: bad_csr_payload_def cursor_take_at cursor_read magic one unpack_layer_bad_csr
         cursor_take_at [of 0 "[]", simplified])
qed

theorem unpack_panics_on_bad_csr_witness:
  "unpack_weights zero_xof (bad_csr_payload @ zero_xof bad_csr_payload 32) = Panic"
  by (rule unpack_panics_on_bad_csr) simp

definition trace_message :: "ternary_network \<Rightarrow> i64 list \<Rightarrow> i64 list \<Rightarrow> bytes" where
  "trace_message net x y = weights_hash (header net) @ encode_canonical x @ encode_canonical y"

text \<open>
  A trace hash binds the whole execution: when the digest does not collide on the two
  messages hashed, two networks with 32-byte weight digests that give equal trace hashes have
  the same weight digest, the same input vector and the same output vector.
\<close>

theorem trace_hash_binds:
  assumes "trace_hash_ternary xof n1 x1 y1 = trace_hash_ternary xof n2 x2 y2"
    and "inj_on (\<lambda>m. xof m 32) {trace_message n1 x1 y1, trace_message n2 x2 y2}"
    and "length (weights_hash (header n1)) = 32" "length (weights_hash (header n2)) = 32"
    and "i64_vec x1" "i64_vec y1" "i64_vec x2" "i64_vec y2"
  shows "weights_hash (header n1) = weights_hash (header n2) \<and> x1 = x2 \<and> y1 = y2"
proof -
  have "trace_message n1 x1 y1 = trace_message n2 x2 y2"
    using assms(1) [unfolded trace_hash_ternary_def trace_hash_v1_def, folded trace_message_def]
    by (rule inj_onD [OF assms(2)]) simp_all
  then have "weights_hash (header n1) = weights_hash (header n2)"
    "encode_canonical x1 @ encode_canonical y1 = encode_canonical x2 @ encode_canonical y2"
    using assms(3,4) by (simp_all add: trace_message_def)
  then show ?thesis
    using encode_canonical_inject [OF assms(5,7)] encode_canonical_inject [OF assms(6,8), of "[]" "[]"]
    by simp
qed

theorem trace_hash_binds_witness:
  "weights_hash (header (credit_net zero_xof)) = weights_hash (header (credit_net zero_xof)) \<and>
   [900, 100, 0, 0] = [900, 100, 0, 0::i64] \<and> [1] = [1::i64]"
  by (rule trace_hash_binds [of zero_xof])
     (simp_all add: credit_net_def network_of_def i64_vec_def i64_ok_def i64_min_def i64_max_def)

section \<open>The contracts\<close>

text \<open>
  C34. The built transfer contract implements its specification on numbers: given 56 bytes it
  debits, credits and steps the nonce when the sender has the funds and the recipient does
  not overflow, and returns the zero output otherwise; any other length is the shape error.
\<close>

theorem transfer_refines_spec:
  "and_then (transfer_build xof) (\<lambda>c. Ok (transfer_run c input)) = Ok (
     if length input = 56
     then Ok (transfer_spec (num_field input 0 16) (num_field input 16 32) (num_field input 32 48)
                (num_field input 48 56))
     else Err (C_InputShape (ascii ''transfer'') (length input) 56) :: (bytes, contract_error) res)"
  by (simp add: contract_builds transfer.right_length transfer.wrong_length)

text \<open>
  C10. Every one of the eight guarded transfers pays exactly when it should: on an input of its length
  it returns 40 bytes; if its guard holds, the first balance covers the amount and the second
  does not overflow, the amount has moved from the first balance to the second and the
  nonce has stepped modulo \<open>2^64\<close>, and in every other case the output is all zero. Any other
  length is the shape error under the contract's name.
\<close>

theorem guarded_contract_pays:
  assumes "(name, run, len, guard, n) \<in> set (guarded_programs xof)"
  shows "if length input \<noteq> len then run input = Err (C_InputShape name (length input) len)
    else \<exists>out. run input = Ok out \<and> length out = 40 \<and>
      (if guard input \<and> num_field input 32 48 \<le> num_field input 0 16 \<and>
          num_field input 16 32 + num_field input 32 48 < 2 ^ 128
       then num_field out 0 16 = num_field input 0 16 - num_field input 32 48 \<and>
            num_field out 16 32 = num_field input 16 32 + num_field input 32 48 \<and>
            num_field out 32 40 = (num_field input n (n + 8) + 1) mod 2 ^ 64
       else out = replicate 40 0)"
  using guarded_programs_laws [OF assms] guarded_transfer.decides guarded_transfer.wrong_length by simp

definition sample_multisig_input :: bytes where
  "sample_multisig_input =
     le_bytes 16 1000 @ le_bytes 16 5 @ le_bytes 16 300 @ le_bytes 8 7 @ [1, 0, 1]"

lemma sample_multisig_fields:
  "num_field sample_multisig_input 0 16 = 1000" "num_field sample_multisig_input 16 32 = 5"
  "num_field sample_multisig_input 32 48 = 300" "num_field sample_multisig_input 48 56 = 7"
  "length sample_multisig_input = 59" "multisig_guard sample_multisig_input"
  by (simp_all add: sample_multisig_input_def num_field_simps multisig_guard_def nth_append)

text \<open>The same input with one approval only.\<close>

definition sample_unsigned_input :: bytes where
  "sample_unsigned_input =
     le_bytes 16 1000 @ le_bytes 16 5 @ le_bytes 16 300 @ le_bytes 8 7 @ [1, 0, 0]"

lemma sample_unsigned: "length sample_unsigned_input = 59" "\<not> multisig_guard sample_unsigned_input"
  by (simp_all add: sample_unsigned_input_def multisig_guard_def nth_append)

theorem guarded_contract_pays_witness:
  "(\<exists>out. multisig_2of3_run (std_contract zero_xof (ascii ''multisig_2of3'')) sample_multisig_input = Ok out \<and>
      num_field out 0 16 = 700 \<and> num_field out 16 32 = 305 \<and> num_field out 32 40 = 8) \<and>
   multisig_2of3_run (std_contract zero_xof (ascii ''multisig_2of3'')) sample_unsigned_input = Ok (replicate 40 0)"
proof -
  have "(ascii ''multisig_2of3'', multisig_2of3_run (std_contract zero_xof (ascii ''multisig_2of3'')), 59, multisig_guard, 48)
      \<in> set (guarded_programs zero_xof)"
    by (simp add: guarded_programs_def)
  from guarded_contract_pays [OF this, of sample_multisig_input] guarded_contract_pays [OF this, of sample_unsigned_input]
  show ?thesis by (simp add: sample_multisig_fields sample_unsigned) blast
qed

text \<open>
  No guarded transfer creates or destroys value, and none pays without its guard: whenever
  the output is not the zero output, the guard held and the two balances have the same sum
  after as before.
\<close>

theorem guarded_contract_conserves:
  assumes "(name, run, len, guard, n) \<in> set (guarded_programs xof)" "run input = Ok out" "out \<noteq> no_op_output 40"
  shows "guard input \<and>
    num_field out 0 16 + num_field out 16 32 = num_field input 0 16 + num_field input 16 32"
  using guarded_programs_laws [OF assms(1)] guarded_transfer.conserves assms(2,3) by blast

theorem guarded_contract_conserves_witness:
  "\<exists>out. multisig_2of3_run (std_contract zero_xof (ascii ''multisig_2of3'')) sample_multisig_input = Ok out \<and>
     num_field out 0 16 + num_field out 16 32 = 1005"
proof -
  let ?run = "multisig_2of3_run (std_contract zero_xof (ascii ''multisig_2of3''))"
  obtain out where out: "?run sample_multisig_input = Ok out" "num_field out 0 16 = 700"
    using multisig.fires [of sample_multisig_input] by (auto simp: sample_multisig_fields)
  have "num_field (no_op_output 40) 0 16 = 0"
    by (simp add: num_field_def no_op_output_def subslice_def)
  with out(2) have "out \<noteq> no_op_output 40" by auto
  then show ?thesis
    using out(1) guarded_contract_conserves [of "ascii ''multisig_2of3''" ?run 59 multisig_guard 48 zero_xof sample_multisig_input out]
    by (auto simp: sample_multisig_fields guarded_programs_def)
qed

text \<open>
  C33. The four-layer credit network decides the lending rule exactly: the model-gated transfer
  is the transfer when income plus collateral minus debt is at least 500 and there are at
  most 10 risk flags, and the zero output otherwise, for every 64-byte input.
\<close>

theorem risk_gate_decides:
  assumes "length input = 64"
  shows "and_then (risk_gated_transfer_build xof) (\<lambda>c. Ok (risk_gated_transfer_run c input)) = Ok (Ok (
     if approves (feature input 0) (feature input 1) (feature input 2) (feature input 3)
     then transfer_spec (num_field input 0 16) (num_field input 16 32) (num_field input 32 48)
            (num_field input 48 56)
     else no_op_output 40))"
  using assms by (simp add: risk_build_ok risk_gated.right_length credit_guard_def)

theorem risk_gate_decides_witness:
  "and_then (risk_gated_transfer_build zero_xof) (\<lambda>c. Ok (risk_gated_transfer_run c (replicate 64 0))) =
   Ok (Ok (no_op_output 40))"
  by (subst risk_gate_decides)
     (simp_all add: approves_def feature_def num_field_def subslice_def le_nat_replicate_0)

text \<open>
  C14. The swap happens exactly when it can, and then as a whole: on 104 bytes, if each side holds what
  it gives and neither side overflows with what it gets, the four balances change by the two
  amounts and the nonce steps; otherwise the output is all zero and nothing moves. Any
  other length is the shape error.
\<close>

theorem swap_atomic:
  "\<exists>c. swap_build xof = Ok c \<and>
    (if length input \<noteq> 104 then swap_run c input = Err (C_InputShape (ascii ''swap'') (length input) 104)
     else \<exists>out. swap_run c input = Ok out \<and> length out = 72 \<and>
       (if num_field input 64 80 \<le> num_field input 0 16 \<and> num_field input 80 96 \<le> num_field input 48 64 \<and>
           num_field input 16 32 + num_field input 80 96 < 2 ^ 128 \<and>
           num_field input 32 48 + num_field input 64 80 < 2 ^ 128
        then num_field out 0 16 + num_field input 64 80 = num_field input 0 16 \<and>
             num_field out 16 32 = num_field input 16 32 + num_field input 80 96 \<and>
             num_field out 32 48 = num_field input 32 48 + num_field input 64 80 \<and>
             num_field out 48 64 + num_field input 80 96 = num_field input 48 64 \<and>
             num_field out 64 72 = (num_field input 96 104 + 1) mod 2 ^ 64
        else out = replicate 72 0))"
proof (cases "length input = 104")
  case True
  then have "num_field input 0 16 < 2 ^ 128" "num_field input 48 64 < 2 ^ 128"
    using num_field_bound [of 16 input 0] num_field_bound [of 64 input 48] by simp_all
  then show ?thesis
    using True by (simp add: contract_builds swap_run_value swap_spec_def num_field_simps)
next
  case False
  then show ?thesis by (simp add: contract_builds swap_run_def SWAP_INPUT_LEN_def)
qed

text \<open>Both sides give all they have; one unit more on either side is refused.\<close>

definition sample_swap :: "nat \<Rightarrow> nat \<Rightarrow> bytes" where
  "sample_swap give get = le_bytes 16 500 @ le_bytes 16 5 @ le_bytes 16 7 @ le_bytes 16 40 @
     le_bytes 16 give @ le_bytes 16 get @ le_bytes 8 9"

lemma sample_swap_fields:
  "num_field (sample_swap a b) 0 16 = 500" "num_field (sample_swap a b) 16 32 = 5" "num_field (sample_swap a b) 32 48 = 7"
  "num_field (sample_swap a b) 48 64 = 40" "num_field (sample_swap a b) 64 80 = a mod 2 ^ 128"
  "num_field (sample_swap a b) 80 96 = b mod 2 ^ 128" "num_field (sample_swap a b) 96 104 = 9" "length (sample_swap a b) = 104"
  by (simp_all add: sample_swap_def num_field_simps)

theorem swap_atomic_witness:
  "\<exists>c out. swap_build zero_xof = Ok c \<and> swap_run c (sample_swap 500 40) = Ok out \<and>
     num_field out 0 16 = 0 \<and> num_field out 16 32 = 45 \<and> num_field out 32 48 = 507 \<and> num_field out 48 64 = 0 \<and>
     num_field out 64 72 = 10 \<and>
     swap_run c (sample_swap 501 40) = Ok (replicate 72 0) \<and> swap_run c (sample_swap 500 41) = Ok (replicate 72 0)"
proof -
  obtain c where c: "swap_build zero_xof = Ok c" using swap_atomic [of zero_xof] by blast
  show ?thesis
    using c swap_atomic [of zero_xof "sample_swap 500 40"] swap_atomic [of zero_xof "sample_swap 501 40"]
      swap_atomic [of zero_xof "sample_swap 500 41"]
    by (simp add: sample_swap_fields) blast
qed

end
