(* ===== verification/Crypto.thy ===== *)
theory Crypto
  imports Prelude
begin

text \<open>
  \<open>crypto/src/hash.rs\<close>, \<open>trace_hash.rs\<close> and \<open>signature.rs\<close>. BLAKE3 is the parameter \<open>xof\<close> (message
  and output length), read at 32 bytes here. The ed25519 implementation is the record
  \<open>ed25519\<close> of the four operations the code calls; \<open>ed_correct\<close> is its documented contract.
\<close>

section \<open>hash.rs\<close>

type_synonym hash = bytes

definition hash_bytes :: "xof \<Rightarrow> bytes \<Rightarrow> hash" where
  "hash_bytes xof data = xof data 32"

definition hash_concat :: "xof \<Rightarrow> bytes \<Rightarrow> bytes \<Rightarrow> hash" where
  "hash_concat xof a b = xof (a @ b) 32"

definition hash_three :: "xof \<Rightarrow> bytes \<Rightarrow> bytes \<Rightarrow> bytes \<Rightarrow> hash" where
  "hash_three xof a b c = xof (a @ b @ c) 32"

definition ZERO_HASH :: hash where "ZERO_HASH = replicate 32 0"

section \<open>trace\_hash.rs\<close>

text \<open>\<open>tokens.join(" ")\<close>\<close>

fun join_space :: "rstring list \<Rightarrow> rstring" where
  "join_space [] = []"
| "join_space [t] = t"
| "join_space (t # ts) = t @ 32 # join_space ts"

definition hash_trace :: "xof \<Rightarrow> rstring list \<Rightarrow> hash" where
  "hash_trace xof tokens = hash_bytes xof (join_space tokens)"

definition hash_trace_owned :: "xof \<Rightarrow> rstring list \<Rightarrow> hash" where
  "hash_trace_owned xof tokens = hash_bytes xof (join_space tokens)"

section \<open>signature.rs\<close>

datatype sig_error = InvalidPublicKey | InvalidSignature | VerificationFailed

text \<open>
  The operations of \<open>ed25519_dalek\<close>: the public key and the signature of a secret, whether 32
  bytes are a valid verifying key, and whether a signature verifies.
\<close>

record ed25519 =
  ed_public :: "bytes \<Rightarrow> bytes"
  ed_sign :: "bytes \<Rightarrow> bytes \<Rightarrow> bytes"
  ed_key_ok :: "bytes \<Rightarrow> bool"
  ed_check :: "bytes \<Rightarrow> bytes \<Rightarrow> bytes \<Rightarrow> bool"

record keypair =
  secret :: bytes

definition from_seed :: "bytes \<Rightarrow> keypair" where
  "from_seed seed = \<lparr> secret = seed \<rparr>"

definition kp_public :: "ed25519 \<Rightarrow> keypair \<Rightarrow> bytes" where
  "kp_public ed kp = ed_public ed (secret kp)"

definition kp_sign :: "ed25519 \<Rightarrow> keypair \<Rightarrow> bytes \<Rightarrow> bytes" where
  "kp_sign ed kp message = ed_sign ed (secret kp) message"

definition verify :: "ed25519 \<Rightarrow> bytes \<Rightarrow> bytes \<Rightarrow> bytes \<Rightarrow> (unit, sig_error) res" where
  "verify ed pk message signature =
     (if \<not> ed_key_ok ed pk then Err InvalidPublicKey
      else if ed_check ed pk message signature then Ok ()
      else Err VerificationFailed)"

text \<open>What the library documents: public keys are valid and their signatures verify.\<close>

definition ed_correct :: "ed25519 \<Rightarrow> bool" where
  "ed_correct ed \<longleftrightarrow>
     (\<forall>sk m. ed_key_ok ed (ed_public ed sk) \<and> ed_check ed (ed_public ed sk) m (ed_sign ed sk m) \<and>
             length (ed_public ed sk) = 32 \<and> length (ed_sign ed sk m) = 64)"

lemma verify_signed: "ed_correct ed \<Longrightarrow> verify ed (kp_public ed kp) m (kp_sign ed kp m) = Ok ()"
  by (simp add: ed_correct_def verify_def kp_public_def kp_sign_def)

lemma verify_Ok_iff: "verify ed pk m s = Ok () \<longleftrightarrow> ed_key_ok ed pk \<and> ed_check ed pk m s"
  by (simp add: verify_def)

lemma verify_no_panic [simp]: "verify ed pk m s \<noteq> Panic"
  by (simp add: verify_def)

end
