(* ===== verification/Tx_Block.thy ===== *)
theory Tx_Block
  imports Crypto
begin

text \<open>
  Transactions and blocks: \<open>sequencer/src/tx.rs\<close> and \<open>block.rs\<close>. The canonical encodings that are
  signed and hashed, and their injectivity: what two equal encodings say about the two values.
\<close>

section \<open>tx.rs\<close>

datatype tx_kind = Transfer | Mint | Burn | Freeze | MultiAsset

text \<open>\<open>kind as u8\<close>\<close>

fun kind_byte :: "tx_kind \<Rightarrow> u8" where
  "kind_byte Transfer = 0"
| "kind_byte Mint = 1"
| "kind_byte Burn = 2"
| "kind_byte Freeze = 3"
| "kind_byte MultiAsset = 4"

record signed_tx =
  kind :: tx_kind
  asset_id :: u32
  tx_nonce :: u64
  signer :: bytes
  recipient :: "bytes option"
  amount :: bytes
  flag :: u8
  court_order_hash :: "hash option"
  multi_payload :: "bytes option"
  originator_metadata :: "bytes option"
  signature :: bytes

text \<open>A present option is tagged 1, an absent one 0; variable payloads carry a length.\<close>

definition opt_fixed :: "bytes option \<Rightarrow> bytes" where
  "opt_fixed o1 = (case o1 of Some b \<Rightarrow> 1 # b | None \<Rightarrow> [0])"

definition opt_var :: "bytes option \<Rightarrow> bytes" where
  "opt_var o1 = (case o1 of Some b \<Rightarrow> 1 # u32_le (of_nat (length b)) @ b | None \<Rightarrow> [0])"

definition canonical :: "signed_tx \<Rightarrow> bytes" where
  "canonical tx =
     [kind_byte (kind tx)] @ u32_le (asset_id tx) @ u64_le (tx_nonce tx) @ signer tx
     @ opt_fixed (recipient tx) @ amount tx @ [flag tx] @ opt_fixed (court_order_hash tx)
     @ opt_var (multi_payload tx) @ opt_var (originator_metadata tx)"

section \<open>block.rs\<close>

record block_header =
  block_n :: u64
  parent_hash :: hash
  prev_state_root :: hash
  hdr_tx_list_hash :: hash
  hdr_trace_hash :: hash
  new_state_root :: hash
  issuer_registry_root :: hash
  timestamp_ms :: u64
  sequencer_pubkey :: bytes
  sequencer_sig :: bytes

definition signing_bytes :: "block_header \<Rightarrow> bytes" where
  "signing_bytes h =
     u64_le (block_n h) @ parent_hash h @ prev_state_root h @ hdr_tx_list_hash h
     @ hdr_trace_hash h @ new_state_root h @ issuer_registry_root h
     @ u64_le (timestamp_ms h) @ sequencer_pubkey h"

definition header_hash :: "xof \<Rightarrow> block_header \<Rightarrow> hash" where
  "header_hash xof h = hash_bytes xof (signing_bytes h @ sequencer_sig h)"

record block =
  blk_header :: block_header
  blk_txs :: "signed_tx list"

definition tx_list_hash :: "xof \<Rightarrow> signed_tx list \<Rightarrow> hash" where
  "tx_list_hash xof txs =
     xof (concat (map (\<lambda>tx. u32_le (of_nat (length (canonical tx))) @ canonical tx @ signature tx) txs)) 32"

definition combined_trace_hash :: "xof \<Rightarrow> hash list \<Rightarrow> hash" where
  "combined_trace_hash xof per_tx_traces = xof (concat per_tx_traces) 32"

section \<open>The encodings are injective\<close>

lemma kind_byte_inject [simp]: "kind_byte a = kind_byte b \<longleftrightarrow> a = b"
  by (cases a; cases b) simp_all

definition opt_len :: "nat \<Rightarrow> bytes option \<Rightarrow> bool" where
  "opt_len n o1 \<longleftrightarrow> (\<forall>b. o1 = Some b \<longrightarrow> length b = n)"

definition opt_small :: "bytes option \<Rightarrow> bool" where
  "opt_small o1 \<longleftrightarrow> (\<forall>b. o1 = Some b \<longrightarrow> length b < 2 ^ 32)"

text \<open>What the Rust types guarantee: array lengths, and payloads below 4 GiB.\<close>

definition tx_wf :: "signed_tx \<Rightarrow> bool" where
  "tx_wf tx \<longleftrightarrow> length (signer tx) = 32 \<and> opt_len 32 (recipient tx) \<and> length (amount tx) = 16 \<and>
     opt_len 32 (court_order_hash tx) \<and> opt_small (multi_payload tx) \<and>
     opt_small (originator_metadata tx) \<and> length (signature tx) = 64"

lemma opt_fixed_inject:
  assumes "opt_len n a" "opt_len n b"
  shows "opt_fixed a @ r = opt_fixed b @ s \<longleftrightarrow> a = b \<and> r = s"
  using assms by (cases a; cases b) (auto simp: opt_fixed_def opt_len_def)

lemma opt_var_inject:
  assumes "opt_small a" "opt_small b"
  shows "opt_var a @ r = opt_var b @ s \<longleftrightarrow> a = b \<and> r = s"
proof (cases "a = None \<or> b = None")
  case True
  then show ?thesis by (cases a; cases b) (auto simp: opt_var_def)
next
  case False
  then obtain x y where xy: "a = Some x" "b = Some y" by auto
  have "of_nat (length x) = (of_nat (length y) :: u32) \<longleftrightarrow> length x = length y"
    using assms xy by (simp add: word_unat_eq_iff unat_of_nat opt_small_def)
  then show ?thesis by (auto simp: xy opt_var_def)
qed

lemma canonical_prefix_inject:
  assumes "tx_wf t1" "tx_wf t2"
  shows "canonical t1 @ r = canonical t2 @ s \<longleftrightarrow>
    t1\<lparr>signature := []\<rparr> = t2\<lparr>signature := []\<rparr> \<and> r = s"
proof -
  have "canonical t1 @ r = canonical t2 @ s \<longleftrightarrow>
      kind t1 = kind t2 \<and> asset_id t1 = asset_id t2 \<and> tx_nonce t1 = tx_nonce t2 \<and> signer t1 = signer t2 \<and>
      recipient t1 = recipient t2 \<and> amount t1 = amount t2 \<and> flag t1 = flag t2 \<and>
      court_order_hash t1 = court_order_hash t2 \<and> multi_payload t1 = multi_payload t2 \<and>
      originator_metadata t1 = originator_metadata t2 \<and> r = s"
    using assms unfolding canonical_def tx_wf_def
    by (simp add: opt_fixed_inject [of 32] opt_var_inject)
  also have "\<dots> \<longleftrightarrow> t1\<lparr>signature := []\<rparr> = t2\<lparr>signature := []\<rparr> \<and> r = s"
    by (cases t1; cases t2) auto
  finally show ?thesis .
qed

lemma canonical_inject:
  "tx_wf t1 \<Longrightarrow> tx_wf t2 \<Longrightarrow>
     canonical t1 = canonical t2 \<longleftrightarrow> t1\<lparr>signature := []\<rparr> = t2\<lparr>signature := []\<rparr>"
  using canonical_prefix_inject [of t1 t2 "[]" "[]"] by simp

definition header_wf :: "block_header \<Rightarrow> bool" where
  "header_wf h \<longleftrightarrow> length (parent_hash h) = 32 \<and> length (prev_state_root h) = 32 \<and>
     length (hdr_tx_list_hash h) = 32 \<and> length (hdr_trace_hash h) = 32 \<and>
     length (new_state_root h) = 32 \<and> length (issuer_registry_root h) = 32 \<and>
     length (sequencer_pubkey h) = 32 \<and> length (sequencer_sig h) = 64"

lemma signing_bytes_inject:
  assumes "header_wf h1" "header_wf h2"
  shows "signing_bytes h1 @ r = signing_bytes h2 @ s \<longleftrightarrow>
    h1\<lparr>sequencer_sig := []\<rparr> = h2\<lparr>sequencer_sig := []\<rparr> \<and> r = s"
proof -
  have "signing_bytes h1 @ r = signing_bytes h2 @ s \<longleftrightarrow>
      block_n h1 = block_n h2 \<and> parent_hash h1 = parent_hash h2 \<and> prev_state_root h1 = prev_state_root h2 \<and>
      hdr_tx_list_hash h1 = hdr_tx_list_hash h2 \<and> hdr_trace_hash h1 = hdr_trace_hash h2 \<and>
      new_state_root h1 = new_state_root h2 \<and> issuer_registry_root h1 = issuer_registry_root h2 \<and>
      timestamp_ms h1 = timestamp_ms h2 \<and> sequencer_pubkey h1 = sequencer_pubkey h2 \<and> r = s"
    using assms unfolding signing_bytes_def header_wf_def by simp
  also have "\<dots> \<longleftrightarrow> h1\<lparr>sequencer_sig := []\<rparr> = h2\<lparr>sequencer_sig := []\<rparr> \<and> r = s"
    by (cases h1; cases h2) auto
  finally show ?thesis .
qed

lemma header_message_inject:
  assumes "header_wf h1" "header_wf h2"
  shows "signing_bytes h1 @ sequencer_sig h1 = signing_bytes h2 @ sequencer_sig h2 \<longleftrightarrow> h1 = h2"
  using signing_bytes_inject [OF assms] by (cases h1; cases h2) auto

text \<open>The list message is self-delimiting: each entry is length, canonical bytes, signature.\<close>

definition tx_entry :: "signed_tx \<Rightarrow> bytes" where
  "tx_entry tx = u32_le (of_nat (length (canonical tx))) @ canonical tx @ signature tx"

lemma tx_entry_inject:
  assumes "tx_wf t1" "tx_wf t2"
  shows "tx_entry t1 @ r = tx_entry t2 @ s \<longleftrightarrow> t1 = t2 \<and> r = s"
proof
  assume "tx_entry t1 @ r = tx_entry t2 @ s"
  then have "t1\<lparr>signature := []\<rparr> = t2\<lparr>signature := []\<rparr>" "signature t1 @ r = signature t2 @ s"
    using canonical_prefix_inject [OF assms, of "signature t1 @ r" "signature t2 @ s"]
    by (simp_all add: tx_entry_def)
  moreover from this(2) have "signature t1 = signature t2" "r = s" using assms by (simp_all add: tx_wf_def)
  ultimately show "t1 = t2 \<and> r = s" by (cases t1; cases t2) simp
qed simp

lemma tx_entries_inject:
  "list_all tx_wf xs \<Longrightarrow> list_all tx_wf ys \<Longrightarrow>
     concat (map tx_entry xs) = concat (map tx_entry ys) \<longleftrightarrow> xs = ys"
proof (induction xs arbitrary: ys)
  case Nil
  then show ?case by (cases ys) (auto simp: tx_entry_def canonical_def)
next
  case (Cons x xs)
  show ?case
  proof (cases ys)
    case Nil
    then show ?thesis by (auto simp: tx_entry_def canonical_def)
  next
    case (Cons y ys')
    with Cons.prems Cons.IH show ?thesis by (simp add: tx_entry_inject)
  qed
qed

lemma tx_list_hash_entries: "tx_list_hash xof txs = xof (concat (map tx_entry txs)) 32"
  by (simp add: tx_list_hash_def tx_entry_def [abs_def])

end
