(* ===== verification/Account.thy ===== *)
theory Account
  imports Prelude
begin

unbundle bit_operations_syntax

text \<open>
  The 64-byte account record of \<open>crypto/src/account.rs\<close>: public key, balance, nonce and epoch of
  last activity at fixed offsets, with the frozen flag in the top bit of the balance field.
  The lemmas give each accessor as a number read from the 16-byte balance field, and the
  laws between every setter and every getter.
\<close>

section \<open>The record\<close>

definition ACCOUNT_BYTES :: usize where "ACCOUNT_BYTES = 64"
definition PUBKEY_OFFSET :: usize where "PUBKEY_OFFSET = 0"
definition PUBKEY_LEN :: usize where "PUBKEY_LEN = 32"
definition BALANCE_OFFSET :: usize where "BALANCE_OFFSET = 32"
definition BALANCE_LEN :: usize where "BALANCE_LEN = 16"
definition NONCE_OFFSET :: usize where "NONCE_OFFSET = 48"
definition NONCE_LEN :: usize where "NONCE_LEN = 8"
definition LAST_ACTIVE_OFFSET :: usize where "LAST_ACTIVE_OFFSET = 56"
definition LAST_ACTIVE_LEN :: usize where "LAST_ACTIVE_LEN = 8"
definition FLAGS_BYTE :: usize where "FLAGS_BYTE = 47"
definition FROZEN_FLAG :: u8 where "FROZEN_FLAG = 0x80"

record account =
  abytes :: bytes

text \<open>\<open>self.bytes[off..off + n].copy_from_slice(new)\<close>\<close>

definition overwrite :: "usize \<Rightarrow> 'a list \<Rightarrow> 'a list \<Rightarrow> 'a list" where
  "overwrite off new xs = take off xs @ new @ drop (off + length new) xs"

definition account_default :: account where
  "account_default = \<lparr> abytes = replicate ACCOUNT_BYTES 0 \<rparr>"

definition account_new :: "bytes \<Rightarrow> account" where
  "account_new pk = \<lparr> abytes = overwrite PUBKEY_OFFSET pk (replicate ACCOUNT_BYTES 0) \<rparr>"

definition pubkey :: "account \<Rightarrow> bytes" where
  "pubkey a = subslice (abytes a) PUBKEY_OFFSET (PUBKEY_OFFSET + PUBKEY_LEN)"

definition balance :: "account \<Rightarrow> u128" where
  "balance a =
     (let b = subslice (abytes a) BALANCE_OFFSET (BALANCE_OFFSET + BALANCE_LEN);
          i = FLAGS_BYTE - BALANCE_OFFSET
      in u128_from_le (b[i := b ! i AND NOT FROZEN_FLAG]))"

definition is_frozen :: "account \<Rightarrow> bool" where
  "is_frozen a \<longleftrightarrow> abytes a ! FLAGS_BYTE AND FROZEN_FLAG \<noteq> 0"

definition set_frozen :: "bool \<Rightarrow> account \<Rightarrow> account" where
  "set_frozen frozen a =
     (let b = abytes a ! FLAGS_BYTE
      in a\<lparr>abytes := (abytes a)[FLAGS_BYTE := (if frozen then b OR FROZEN_FLAG else b AND NOT FROZEN_FLAG)]\<rparr>)"

definition set_balance :: "u128 \<Rightarrow> account \<Rightarrow> account" where
  "set_balance bal a =
     (let frozen = is_frozen a;
          a' = a\<lparr>abytes := overwrite BALANCE_OFFSET (u128_le bal) (abytes a)\<rparr>
      in if frozen then set_frozen True a' else a')"

definition nonce :: "account \<Rightarrow> u64" where
  "nonce a = u64_from_le (subslice (abytes a) NONCE_OFFSET (NONCE_OFFSET + NONCE_LEN))"

definition set_nonce :: "u64 \<Rightarrow> account \<Rightarrow> account" where
  "set_nonce n a = a\<lparr>abytes := overwrite NONCE_OFFSET (u64_le n) (abytes a)\<rparr>"

definition last_active :: "account \<Rightarrow> u64" where
  "last_active a = u64_from_le (subslice (abytes a) LAST_ACTIVE_OFFSET (LAST_ACTIVE_OFFSET + LAST_ACTIVE_LEN))"

definition set_last_active :: "u64 \<Rightarrow> account \<Rightarrow> account" where
  "set_last_active e a = a\<lparr>abytes := overwrite LAST_ACTIVE_OFFSET (u64_le e) (abytes a)\<rparr>"

lemmas account_consts = ACCOUNT_BYTES_def PUBKEY_OFFSET_def PUBKEY_LEN_def BALANCE_OFFSET_def
  BALANCE_LEN_def NONCE_OFFSET_def NONCE_LEN_def LAST_ACTIVE_OFFSET_def LAST_ACTIVE_LEN_def
  FLAGS_BYTE_def FROZEN_FLAG_def

definition account_wf :: "account \<Rightarrow> bool" where
  "account_wf a \<longleftrightarrow> length (abytes a) = ACCOUNT_BYTES"

section \<open>A record as five fields\<close>

text \<open>Every record is the concatenation of its fields, the balance cut before its flag byte.\<close>

definition fields :: "bytes \<Rightarrow> bytes \<Rightarrow> u8 \<Rightarrow> bytes \<Rightarrow> bytes \<Rightarrow> account" where
  "fields pk low t n e = \<lparr> abytes = pk @ low @ t # n @ e \<rparr>"

definition fields_ok :: "bytes \<Rightarrow> bytes \<Rightarrow> bytes \<Rightarrow> bytes \<Rightarrow> bool" where
  "fields_ok pk low n e \<longleftrightarrow> length pk = 32 \<and> length low = 15 \<and> length n = 8 \<and> length e = 8"

lemma account_cases:
  assumes "account_wf a"
  obtains pk low t n e where "a = fields pk low t n e" "fields_ok pk low n e"
proof
  let ?b = "abytes a"
  have len: "length ?b = 64" using assms by (simp add: account_wf_def account_consts)
  have "?b = take 32 ?b @ take 15 (drop 32 ?b) @ drop 47 ?b"
    using append_take_drop_id [of 32 ?b] append_take_drop_id [of 15 "drop 32 ?b"] by simp
  also have "drop 47 ?b = ?b ! 47 # drop 48 ?b"
    using Cons_nth_drop_Suc [of 47 ?b] len by simp
  also have "drop 48 ?b = take 8 (drop 48 ?b) @ drop 56 ?b"
    using append_take_drop_id [of 8 "drop 48 ?b"] by simp
  finally have "?b = take 32 ?b @ take 15 (drop 32 ?b) @ ?b ! 47 # take 8 (drop 48 ?b) @ drop 56 ?b" .
  then show "a = fields (take 32 ?b) (take 15 (drop 32 ?b)) (?b ! 47) (take 8 (drop 48 ?b)) (drop 56 ?b)"
    by (simp add: fields_def)
  show "fields_ok (take 32 ?b) (take 15 (drop 32 ?b)) (take 8 (drop 48 ?b)) (drop 56 ?b)"
    using len by (simp add: fields_ok_def)
qed

lemma clear_flag [simp]: "t AND - 129 = t AND (127 :: u8)"
proof -
  have "(- 129 :: u8) = 127" by simp
  then show ?thesis by (rule arg_cong)
qed

lemma account_wf_fields [simp]: "fields_ok pk low n e \<Longrightarrow> account_wf (fields pk low t n e)"
  by (simp add: fields_ok_def account_wf_def account_consts fields_def)

lemma pubkey_fields: "fields_ok pk low n e \<Longrightarrow> pubkey (fields pk low t n e) = pk"
  by (simp add: pubkey_def fields_def fields_ok_def account_consts subslice_def)

lemma nonce_fields: "fields_ok pk low n e \<Longrightarrow> nonce (fields pk low t n e) = u64_from_le n"
  by (simp add: nonce_def fields_def fields_ok_def account_consts subslice_def)

lemma last_active_fields: "fields_ok pk low n e \<Longrightarrow> last_active (fields pk low t n e) = u64_from_le e"
  by (simp add: last_active_def fields_def fields_ok_def account_consts subslice_def)

lemma is_frozen_fields: "fields_ok pk low n e \<Longrightarrow> is_frozen (fields pk low t n e) \<longleftrightarrow> t AND 128 \<noteq> 0"
  by (simp add: is_frozen_def fields_def fields_ok_def account_consts nth_append)

lemma balance_fields:
  "fields_ok pk low n e \<Longrightarrow> balance (fields pk low t n e) = u128_from_le (low @ [t AND 127])"
  by (simp add: balance_def fields_def fields_ok_def account_consts subslice_def Let_def nth_append
      list_update_append)

lemma set_frozen_fields:
  "fields_ok pk low n e \<Longrightarrow>
     set_frozen f (fields pk low t n e) = fields pk low (if f then t OR 128 else t AND 127) n e"
  by (simp add: set_frozen_def fields_def fields_ok_def account_consts Let_def nth_append
      list_update_append)

lemma set_nonce_fields:
  "fields_ok pk low n e \<Longrightarrow> set_nonce x (fields pk low t n e) = fields pk low t (u64_le x) e"
  by (simp add: set_nonce_def fields_def fields_ok_def account_consts overwrite_def)

lemma set_last_active_fields:
  "fields_ok pk low n e \<Longrightarrow> set_last_active x (fields pk low t n e) = fields pk low t n (u64_le x)"
  by (simp add: set_last_active_def fields_def fields_ok_def account_consts overwrite_def)

lemma u128_le_split: "u128_le b = take 15 (u128_le b) @ [u128_le b ! 15]"
  using take_Suc_conv_app_nth [of 15 "u128_le b"] by simp

lemma set_balance_fields:
  assumes "fields_ok pk low n e"
  shows "set_balance b (fields pk low t n e) =
    fields pk (take 15 (u128_le b)) (u128_le b ! 15 OR (t AND 128)) n e"
proof -
  have ok: "fields_ok pk (take 15 (u128_le b)) n e" using assms by (simp add: fields_ok_def)
  have "overwrite BALANCE_OFFSET (u128_le b) (abytes (fields pk low t n e)) =
      abytes (fields pk (take 15 (u128_le b)) (u128_le b ! 15) n e)"
    using assms by (subst (1 2) u128_le_split)
      (simp add: overwrite_def fields_def fields_ok_def account_consts)
  then have wr: "(fields pk low t n e)\<lparr>abytes := overwrite BALANCE_OFFSET (u128_le b) (abytes (fields pk low t n e))\<rparr>
      = fields pk (take 15 (u128_le b)) (u128_le b ! 15) n e"
    by simp
  have "t AND 128 = 0 \<or> t AND 128 = (128 :: u8)"
    by (auto simp: u8_eq_iff bit_and_iff flag_bits simp del: bit_numeral_word_iff)
  then show ?thesis
    using assms ok unfolding set_balance_def Let_def wr
    by (auto simp: is_frozen_fields set_frozen_fields)
qed

section \<open>The top bit and the number below it\<close>

definition raw_balance :: "account \<Rightarrow> nat" where
  "raw_balance a = le_nat (subslice (abytes a) 32 48)"

lemma raw_fields:
  "fields_ok pk low n e \<Longrightarrow> raw_balance (fields pk low t n e) = le_nat low + 256 ^ 15 * unat t"
  by (simp add: raw_balance_def fields_def fields_ok_def subslice_def le_nat_append)

lemma mod_top: "low < P \<Longrightarrow> (low + P * t) mod (P * 128) = low + P * (t mod 128)" for low P t :: nat
  by (simp add: mod_mult2_eq)

lemma split_top:
  fixes low :: nat and t :: nat
  assumes "low < 256 ^ 15" "t \<le> 255"
  shows "(low + 256 ^ 15 * t) mod 2 ^ 127 = low + 256 ^ 15 * (t mod 128)"
    "2 ^ 127 \<le> low + 256 ^ 15 * t \<longleftrightarrow> 128 \<le> t"
proof -
  have pow: "(2::nat) ^ 127 = 256 ^ 15 * 128" by simp
  show "(low + 256 ^ 15 * t) mod 2 ^ 127 = low + 256 ^ 15 * (t mod 128)"
    using assms(1) unfolding pow by (rule mod_top)
  show "2 ^ 127 \<le> low + 256 ^ 15 * t \<longleftrightarrow> 128 \<le> t"
    using assms(1) unfolding pow by (cases "128 \<le> t") auto
qed

lemma low_bound: "fields_ok pk low n e \<Longrightarrow> le_nat low < 256 ^ 15"
  using le_nat_bound [of low] by (simp add: fields_ok_def)

text \<open>The four facts about the balance field that the ledger rests on.\<close>

lemma unat_balance:
  assumes "account_wf a"
  shows "unat (balance a) = raw_balance a mod 2 ^ 127"
proof -
  obtain pk low t n e where a: "a = fields pk low t n e" and ok: "fields_ok pk low n e"
    using account_cases [OF assms] .
  have len: "length (low @ [t AND 127]) = 16" using ok by (simp add: fields_ok_def)
  have "unat (balance a) = le_nat low + 256 ^ 15 * (unat t mod 128)"
    using ok unat_from_le(3) [OF len] by (simp add: a balance_fields le_nat_append low7 fields_ok_def)
  then show ?thesis
    using split_top(1) [OF low_bound [OF ok] unat_u8_le [of t]] by (simp add: a raw_fields [OF ok])
qed

lemma is_frozen_raw: "account_wf a \<Longrightarrow> is_frozen a \<longleftrightarrow> 2 ^ 127 \<le> raw_balance a"
  by (erule account_cases)
    (use split_top(2) [OF low_bound unat_u8_le] in \<open>simp add: is_frozen_fields top_bit raw_fields\<close>)

lemma raw_set_frozen:
  "account_wf a \<Longrightarrow>
     raw_balance (set_frozen f a) = raw_balance a mod 2 ^ 127 + (if f then 2 ^ 127 else 0)"
  by (erule account_cases)
    (use split_top(1) [OF low_bound unat_u8_le] in
      \<open>simp add: set_frozen_fields raw_fields set_top low7\<close>)

lemma raw_set_balance:
  assumes "account_wf a"
  shows "raw_balance (set_balance b a) =
    (if is_frozen a then unat b mod 2 ^ 127 + 2 ^ 127 else unat b)"
proof -
  obtain pk low t n e where a: "a = fields pk low t n e" and ok: "fields_ok pk low n e"
    using account_cases [OF assms] .
  let ?l = "take 15 (u128_le b)" and ?h = "u128_le b ! 15"
  have ok': "fields_ok pk ?l n e" using ok by (simp add: fields_ok_def)
  have b: "unat b = le_nat ?l + 256 ^ 15 * unat ?h"
    using unat_from_le(3) [of "u128_le b"] le_nat_append [of ?l "[?h]"] u128_le_split [of b] by simp
  have "t AND 128 = 0 \<or> t AND 128 = (128 :: u8)"
    by (auto simp: u8_eq_iff bit_and_iff flag_bits simp del: bit_numeral_word_iff)
  then show ?thesis
    using split_top(1) [OF low_bound [OF ok'] unat_u8_le [of ?h]]
    by (auto simp: a set_balance_fields [OF ok] raw_fields [OF ok'] is_frozen_fields [OF ok] set_top b)
qed

section \<open>Frame laws\<close>

lemma account_wf_new [simp]: "length pk = 32 \<Longrightarrow> account_wf (account_new pk)"
  by (simp add: account_new_def account_wf_def account_consts overwrite_def)

lemma account_new_fields:
  "length pk = 32 \<Longrightarrow> account_new pk = fields pk (replicate 15 0) 0 (replicate 8 0) (replicate 8 0)"
  by (simp add: account_new_def fields_def account_consts overwrite_def flip: replicate_append_same replicate_Suc)
     (simp add: numeral_eq_Suc)

lemma account_wf_set [simp]:
  assumes "account_wf a"
  shows "account_wf (set_frozen f a)" "account_wf (set_balance b a)" "account_wf (set_nonce n a)"
    "account_wf (set_last_active e a)"
proof -
  obtain pk low t n' e' where a: "a = fields pk low t n' e'" and ok: "fields_ok pk low n' e'"
    using account_cases [OF assms] .
  then show "account_wf (set_frozen f a)" "account_wf (set_balance b a)" "account_wf (set_nonce n a)"
    "account_wf (set_last_active e a)"
    by (simp_all add: set_frozen_fields set_balance_fields set_nonce_fields set_last_active_fields)
      (simp_all add: fields_ok_def)
qed

named_theorems account_frame

lemma account_frame_rules [account_frame]:
  assumes "account_wf a"
  shows "pubkey (set_frozen f a) = pubkey a" "pubkey (set_balance b a) = pubkey a"
    "pubkey (set_nonce n a) = pubkey a" "pubkey (set_last_active e a) = pubkey a"
    "nonce (set_frozen f a) = nonce a" "nonce (set_balance b a) = nonce a"
    "nonce (set_nonce n a) = n" "nonce (set_last_active e a) = nonce a"
    "last_active (set_frozen f a) = last_active a" "last_active (set_balance b a) = last_active a"
    "last_active (set_nonce n a) = last_active a" "last_active (set_last_active e a) = e"
    "raw_balance (set_nonce n a) = raw_balance a" "raw_balance (set_last_active e a) = raw_balance a"
proof -
  obtain pk low t n' e' where a: "a = fields pk low t n' e'" and ok: "fields_ok pk low n' e'"
    using account_cases [OF assms] .
  have oks: "fields_ok pk (take 15 (u128_le b)) n' e'" "fields_ok pk low (u64_le n) e'"
    "fields_ok pk low n' (u64_le e)"
    using ok by (simp_all add: fields_ok_def)
  note fs = set_frozen_fields [OF ok] set_balance_fields [OF ok] set_nonce_fields [OF ok]
    set_last_active_fields [OF ok]
  show "pubkey (set_frozen f a) = pubkey a" "pubkey (set_balance b a) = pubkey a"
    "pubkey (set_nonce n a) = pubkey a" "pubkey (set_last_active e a) = pubkey a"
    by (simp_all add: a fs pubkey_fields oks ok)
  show "nonce (set_frozen f a) = nonce a" "nonce (set_balance b a) = nonce a"
    "nonce (set_nonce n a) = n" "nonce (set_last_active e a) = nonce a"
    by (simp_all add: a fs nonce_fields oks ok)
  show "last_active (set_frozen f a) = last_active a" "last_active (set_balance b a) = last_active a"
    "last_active (set_nonce n a) = last_active a" "last_active (set_last_active e a) = e"
    by (simp_all add: a fs last_active_fields oks ok)
  show "raw_balance (set_nonce n a) = raw_balance a" "raw_balance (set_last_active e a) = raw_balance a"
    by (simp_all add: a fs raw_fields oks ok)
qed

lemma balance_frame [account_frame]:
  assumes "account_wf a"
  shows "balance (set_nonce n a) = balance a" "balance (set_last_active e a) = balance a"
    "balance (set_frozen f a) = balance a"
    "is_frozen (set_nonce n a) \<longleftrightarrow> is_frozen a" "is_frozen (set_last_active e a) \<longleftrightarrow> is_frozen a"
    "is_frozen (set_frozen f a) \<longleftrightarrow> f"
  using assms
  by (simp_all add: is_frozen_raw account_frame_rules word_unat_eq_iff unat_balance raw_set_frozen
      not_le mod_less_divisor del: power_numeral)

lemma balance_set_balance [account_frame]:
  assumes "account_wf a"
  shows "unat (balance (set_balance b a)) = unat b mod 2 ^ 127"
    "is_frozen (set_balance b a) \<longleftrightarrow> is_frozen a \<or> 2 ^ 127 \<le> unat b"
  using assms by (simp_all add: unat_balance raw_set_balance is_frozen_raw del: power_numeral)

lemma account_new_values:
  assumes "length pk = 32"
  shows "pubkey (account_new pk) = pk" "balance (account_new pk) = 0" "nonce (account_new pk) = 0"
    "last_active (account_new pk) = 0" "\<not> is_frozen (account_new pk)"
proof -
  have ok: "fields_ok pk (replicate 15 0) (replicate 8 0) (replicate 8 0)"
    using assms by (simp add: fields_ok_def)
  note rules = pubkey_fields [OF ok] balance_fields [OF ok] nonce_fields [OF ok]
    last_active_fields [OF ok] is_frozen_fields [OF ok]
  show "pubkey (account_new pk) = pk" "balance (account_new pk) = 0" "nonce (account_new pk) = 0"
    "last_active (account_new pk) = 0" "\<not> is_frozen (account_new pk)"
    using assms by (simp_all add: account_new_fields rules u64_from_le_def u128_from_le_def le_nat_append)
qed

end
