(* ===== verification/Rust_Text.thy ===== *)
theory Rust_Text
  imports Weights
begin

text \<open>
  The functions of Rust's standard library on strings that the programs call: lossy decoding of
  UTF-8, lines, prefixes and suffixes, splitting at white space and joining, hexadecimal
  and decimal digits, all on the UTF-8 bytes of the strings; and what splitting returns on joined words.
\<close>

section \<open>Functions\<close>

text \<open>
  \<open>String::from_utf8_lossy\<close>: the bytes after the first that belong to the character at the front of
  \<open>b # bs\<close>, and whether the character is complete; an incomplete one becomes U+FFFD.
\<close>

definition byte_or_0 :: "bytes \<Rightarrow> nat \<Rightarrow> u8" where
  "byte_or_0 bs i = (if i < length bs then bs ! i else 0)"

definition second_ok :: "u8 \<Rightarrow> u8 \<Rightarrow> bool" where
  "second_ok b c \<longleftrightarrow>
     (if b = 0xE0 then 0xA0 \<le> c \<and> c \<le> 0xBF
      else if b = 0xED then 0x80 \<le> c \<and> c \<le> 0x9F
      else if b = 0xF0 then 0x90 \<le> c \<and> c \<le> 0xBF
      else if b = 0xF4 then 0x80 \<le> c \<and> c \<le> 0x8F
      else utf8_cont c)"

definition utf8_char :: "u8 \<Rightarrow> bytes \<Rightarrow> nat \<times> bool" where
  "utf8_char b bs =
     (if b < 0x80 then (0, True)
      else if b < 0xC2 \<or> 0xF4 < b then (0, False)
      else if \<not> second_ok b (byte_or_0 bs 0) then (0, False)
      else if b < 0xE0 then (1, True)
      else if \<not> utf8_cont (byte_or_0 bs 1) then (1, False)
      else if b < 0xF0 then (2, True)
      else if \<not> utf8_cont (byte_or_0 bs 2) then (2, False)
      else (3, True))"

fun from_utf8_lossy :: "bytes \<Rightarrow> rstring" where
  "from_utf8_lossy [] = []"
| "from_utf8_lossy (b # bs) =
     (let (k, ok) = utf8_char b bs
      in (if ok then b # take k bs else [0xEF, 0xBF, 0xBD]) @ from_utf8_lossy (drop k bs))"

text \<open>\<open>str::lines\<close>: a line feed ends a line, with the carriage return before it.\<close>

definition strip_cr :: "rstring \<Rightarrow> rstring" where
  "strip_cr l = (if l \<noteq> [] \<and> last l = 13 then butlast l else l)"

fun lines_from :: "rstring \<Rightarrow> rstring \<Rightarrow> rstring list" where
  "lines_from cur [] = (if cur = [] then [] else [cur])"
| "lines_from cur (b # bs) =
     (if b = 10 then strip_cr cur # lines_from [] bs else lines_from (cur @ [b]) bs)"

definition str_lines :: "rstring \<Rightarrow> rstring list" where "str_lines s = lines_from [] s"

definition strip_prefix :: "rstring \<Rightarrow> rstring \<Rightarrow> rstring option" where
  "strip_prefix pre s = (if take (length pre) s = pre then Some (drop (length pre) s) else None)"

text \<open>\<open>str::split_whitespace\<close>: the length of the white-space character at the front, or 0.\<close>

definition ws_prefix :: "rstring \<Rightarrow> nat" where
  "ws_prefix s =
     (let b = byte_or_0 s 0; c = byte_or_0 s 1; d = byte_or_0 s 2
      in if s = [] then 0
         else if 9 \<le> b \<and> b \<le> 13 \<or> b = 32 then 1
         else if b = 0xC2 \<and> (c = 0x85 \<or> c = 0xA0) then 2
         else if b = 0xE1 \<and> c = 0x9A \<and> d = 0x80 then 3
         else if b = 0xE2 \<and> c = 0x80 \<and> (0x80 \<le> d \<and> d \<le> 0x8A \<or> d = 0xA8 \<or> d = 0xA9 \<or> d = 0xAF) then 3
         else if b = 0xE2 \<and> c = 0x81 \<and> d = 0x9F then 3
         else if b = 0xE3 \<and> c = 0x80 \<and> d = 0x80 then 3
         else 0)"

fun split_ws :: "rstring \<Rightarrow> rstring \<Rightarrow> rstring list" where
  "split_ws word [] = (if word = [] then [] else [word])"
| "split_ws word (b # bs) =
     (case ws_prefix (b # bs) of
        0 \<Rightarrow> split_ws (word @ [b]) bs
      | Suc k \<Rightarrow> (if word = [] then [] else [word]) @ split_ws [] (drop k bs))"

definition split_whitespace :: "rstring \<Rightarrow> rstring list" where "split_whitespace s = split_ws [] s"

text \<open>\<open>str::strip_suffix\<close> with a one-byte character, and \<open>join(" ")\<close>.\<close>

definition strip_suffix :: "u8 \<Rightarrow> rstring \<Rightarrow> rstring option" where
  "strip_suffix c t = (if t \<noteq> [] \<and> last t = c then Some (butlast t) else None)"

fun join_spaces :: "rstring list \<Rightarrow> rstring" where
  "join_spaces [] = []"
| "join_spaces [x] = x"
| "join_spaces (x # y # zs) = x @ [32] @ join_spaces (y # zs)"

text \<open>The value of a hexadecimal digit, as \<open>from_str_radix\<close> reads it.\<close>

definition hex_value :: "u8 \<Rightarrow> nat option" where
  "hex_value c =
     (let n = unat c
      in if 48 \<le> n \<and> n \<le> 57 then Some (n - 48)
         else if 97 \<le> n \<and> n \<le> 102 then Some (n - 87)
         else if 65 \<le> n \<and> n \<le> 70 then Some (n - 55) else None)"

text \<open>\<open>to_string\<close> of an unsigned integer and \<open>parse::<i64>\<close>.\<close>

fun decimal_nat :: "nat \<Rightarrow> rstring" where
  "decimal_nat n = (if n < 10 then [of_nat (48 + n)] else decimal_nat (n div 10) @ [of_nat (48 + n mod 10)])"

declare decimal_nat.simps [simp del]

fun digits_value :: "nat \<Rightarrow> rstring \<Rightarrow> nat option" where
  "digits_value acc [] = Some acc"
| "digits_value acc (c # cs) =
     (if 48 \<le> c \<and> c \<le> 57 then digits_value (10 * acc + (unat c - 48)) cs else None)"

definition parse_i64 :: "rstring \<Rightarrow> i64 option" where
  "parse_i64 s =
     (case s of
        [] \<Rightarrow> None
      | c # cs \<Rightarrow>
          if c = 43 \<or> c = 45 then
            if cs = [] then None
            else Option.bind (digits_value 0 cs) (\<lambda>n.
                 if c = 43 then if n < 2 ^ 63 then Some (int n) else None
                 else if n \<le> 2 ^ 63 then Some (- int n) else None)
          else Option.bind (digits_value 0 (c # cs)) (\<lambda>n. if n < 2 ^ 63 then Some (int n) else None))"

text \<open>\<open>Path::join\<close> with a relative file name.\<close>

definition path_join :: "rstring \<Rightarrow> rstring \<Rightarrow> rstring" where
  "path_join dir name = (if dir = [] \<or> last dir = 47 then dir @ name else dir @ [47] @ name)"

section \<open>Laws\<close>

definition ascii_text :: "rstring \<Rightarrow> bool" where
  "ascii_text s \<longleftrightarrow> list_all (\<lambda>b. b < 0x80) s"

text \<open>A token: not empty, and printable ASCII without the space.\<close>

definition token_ok :: "rstring \<Rightarrow> bool" where
  "token_ok t \<longleftrightarrow> t \<noteq> [] \<and> list_all (\<lambda>b. 32 < b \<and> b < 0x7F) t"

lemma lossy_ascii: "ascii_text a \<Longrightarrow> from_utf8_lossy (a @ r) = a @ from_utf8_lossy r"
  by (induction a) (simp_all add: ascii_text_def utf8_char_def)

lemma lines_append: "list_all (\<lambda>b. b \<noteq> 10) l \<Longrightarrow> lines_from cur (l @ 10 # r) = strip_cr (cur @ l) # lines_from [] r"
  by (induction l arbitrary: cur) simp_all

lemma lines_block:
  "list_all (list_all (\<lambda>b. b \<noteq> 10)) ls \<Longrightarrow>
     lines_from [] (concat (map (\<lambda>l. l @ [10]) ls) @ r) = map strip_cr ls @ lines_from [] r"
  by (induction ls) (simp_all add: lines_append)

lemma plain_no_ws: "32 < b \<Longrightarrow> b < 0x7F \<Longrightarrow> ws_prefix (b # bs) = 0"
proof -
  assume b: "32 < b" "b < 0x7F"
  then have "b \<noteq> 0xC2" "b \<noteq> 0xE1" "b \<noteq> 0xE2" "b \<noteq> 0xE3" "b \<noteq> 32" by auto
  moreover have "\<not> b \<le> 13" using b(1) by (simp add: word_less_nat_alt word_le_nat_alt)
  ultimately show ?thesis by (simp add: ws_prefix_def byte_or_0_def Let_def)
qed

lemma split_word: "list_all (\<lambda>b. 32 < b \<and> b < 0x7F) t \<Longrightarrow> split_ws w (t @ r) = split_ws (w @ t) r"
  by (induction t arbitrary: w) (simp_all add: plain_no_ws)

lemma space_ws: "ws_prefix (32 # bs) = Suc 0"
  by (simp add: ws_prefix_def byte_or_0_def)

lemma split_join: "list_all token_ok ts \<Longrightarrow> split_whitespace (join_spaces ts) = ts"
proof (induction ts rule: join_spaces.induct)
  case (2 t)
  then show ?case using split_word [of t "[]" "[]"] by (simp add: split_whitespace_def token_ok_def)
next
  case (3 t u us)
  then show ?case
    using split_word [of t "[]" "32 # join_spaces (u # us)"]
    by (simp add: split_whitespace_def token_ok_def space_ws)
qed (simp add: split_whitespace_def)

lemma join_spaces_bytes: "list_all token_ok ts \<Longrightarrow> list_all (\<lambda>b. 32 \<le> b \<and> b < 0x80) (join_spaces ts)"
  by (induction ts rule: join_spaces.induct)
     (auto simp: token_ok_def list_all_iff word_less_nat_alt word_le_nat_alt dest!: bspec)

lemma strip_prefix_append: "strip_prefix p (p @ r) = Some r"
  by (simp add: strip_prefix_def)

lemma unat_hex_digit: "n < 16 \<Longrightarrow> unat (hex_digit n) = (if n < 10 then 48 + n else 87 + n)"
  by (simp add: hex_digit_def unat_of_nat_8 del: of_nat_add)

lemma hex_value_digit: "n < 16 \<Longrightarrow> hex_value (hex_digit n) = Some n"
  by (simp add: hex_value_def Let_def unat_hex_digit)

lemma hex_digit_plain: "n < 16 \<Longrightarrow> 32 < hex_digit n \<and> hex_digit n < 0x7F"
  by (simp add: word_less_nat_alt unat_hex_digit)

end
