(* ===== verification/Trace_Executor.thy ===== *)
theory Trace_Executor
  imports Tx_Block Account Rust_Text
begin

text \<open>
  \<open>sequencer/src/trace.rs\<close>: the native executor that mirrors the primitives on account records,
  the witness encoding, and the decoding of the token stream of an external run (the executor that
  starts the external process is in \<open>Subprocess_Executor\<close>). Rust's plain \<open>+\<close> on \<open>u64\<close> wraps in the release profile
  this workspace builds, and is modelled so.
\<close>

section \<open>Results and witnesses\<close>

record trace_result =
  updated_accounts :: "account list"
  tr_trace_hash :: hash
  success :: bool

record witness =
  epoch :: u32
  w_accounts :: "account list"
  w_amount :: bytes
  w_flag :: u8

datatype trace_error =
    FreezeNeedsOne | TransferNeedsTwo | MintNeedsOne | BurnNeedsOne | MultiNeedsEven
  | TempFileFailed | WeightsMissing rstring | SpawnFailed | WasmRunFailed rstring | NoTokens | ShortOutput usize usize

definition NATIVE_TRACE_MARKER :: hash where
  "NATIVE_TRACE_MARKER = replicate 32 0xCA"

fun expected_trace_hash_count :: "tx_kind \<Rightarrow> usize \<Rightarrow> usize" where
  "expected_trace_hash_count Freeze multi_n = 2"
| "expected_trace_hash_count Transfer multi_n = 34"
| "expected_trace_hash_count Mint multi_n = 16"
| "expected_trace_hash_count Burn multi_n = 17"
| "expected_trace_hash_count MultiAsset multi_n = multi_n * 34"

section \<open>The native executor\<close>

definition native_freeze :: "witness \<Rightarrow> (trace_result, trace_error) res" where
  "native_freeze w =
     (if length (w_accounts w) \<noteq> 1 then Err FreezeNeedsOne
      else let a = set_frozen (w_flag w \<noteq> 0) (w_accounts w ! 0)
           in Ok \<lparr> updated_accounts = [a], tr_trace_hash = NATIVE_TRACE_MARKER, success = True \<rparr>)"

definition native_transfer :: "witness \<Rightarrow> (trace_result, trace_error) res" where
  "native_transfer w =
     (if length (w_accounts w) \<noteq> 2 then Err TransferNeedsTwo
      else let from = w_accounts w ! 0; to = w_accounts w ! 1; amt = u128_from_le (w_amount w)
           in if is_frozen from \<or> balance from < amt
              then Ok \<lparr> updated_accounts = [account_default, account_default],
                        tr_trace_hash = NATIVE_TRACE_MARKER, success = False \<rparr>
              else let from = set_balance (balance from - amt) from;
                       to = set_balance (balance to + amt) to;
                       from = set_nonce (nonce from + 1) from;
                       from = set_last_active (ucast (epoch w)) from;
                       to = set_last_active (ucast (epoch w)) to
                   in Ok \<lparr> updated_accounts = [from, to], tr_trace_hash = NATIVE_TRACE_MARKER,
                           success = True \<rparr>)"

definition native_mint :: "witness \<Rightarrow> (trace_result, trace_error) res" where
  "native_mint w =
     (if length (w_accounts w) \<noteq> 1 then Err MintNeedsOne
      else let to = w_accounts w ! 0; amt = u128_from_le (w_amount w)
           in case checked_add (balance to) amt of
                Some b \<Rightarrow>
                  Ok \<lparr> updated_accounts = [set_last_active (ucast (epoch w)) (set_balance b to)],
                       tr_trace_hash = NATIVE_TRACE_MARKER, success = True \<rparr>
              | None \<Rightarrow>
                  Ok \<lparr> updated_accounts = [account_default], tr_trace_hash = NATIVE_TRACE_MARKER,
                       success = False \<rparr>)"

text \<open>The loop of \<open>multi_asset\<close> over the account pairs, with the success flag it keeps.\<close>

fun multi_pairs :: "u128 \<Rightarrow> u32 \<Rightarrow> account list \<Rightarrow> account list \<times> bool" where
  "multi_pairs amt ep (from # to # rest) =
     (let (ups, ok) = multi_pairs amt ep rest
      in if is_frozen from \<or> balance from < amt
         then (account_default # account_default # ups, False)
         else let from = set_balance (balance from - amt) from;
                  to = set_balance (balance to + amt) to;
                  from = set_nonce (nonce from + 1) from;
                  from = set_last_active (ucast ep) from;
                  to = set_last_active (ucast ep) to
              in (from # to # ups, ok))"
| "multi_pairs amt ep _ = ([], True)"

definition native_multi_asset :: "witness \<Rightarrow> (trace_result, trace_error) res" where
  "native_multi_asset w =
     (if length (w_accounts w) mod 2 \<noteq> 0 \<or> w_accounts w = [] then Err MultiNeedsEven
      else let (ups, ok) = multi_pairs (u128_from_le (w_amount w)) (epoch w) (w_accounts w)
           in Ok \<lparr> updated_accounts = ups, tr_trace_hash = NATIVE_TRACE_MARKER, success = ok \<rparr>)"

definition native_burn :: "witness \<Rightarrow> (trace_result, trace_error) res" where
  "native_burn w =
     (if length (w_accounts w) \<noteq> 1 then Err BurnNeedsOne
      else let from = w_accounts w ! 0; amt = u128_from_le (w_amount w)
           in if balance from < amt
              then Ok \<lparr> updated_accounts = [account_default], tr_trace_hash = NATIVE_TRACE_MARKER,
                        success = False \<rparr>
              else Ok \<lparr> updated_accounts = [set_last_active (ucast (epoch w)) (set_balance (balance from - amt) from)],
                        tr_trace_hash = NATIVE_TRACE_MARKER, success = True \<rparr>)"

definition native_execute :: "signed_tx \<Rightarrow> witness \<Rightarrow> (trace_result, trace_error) res" where
  "native_execute tx w =
     (case kind tx of
        Freeze \<Rightarrow> native_freeze w
      | Transfer \<Rightarrow> native_transfer w
      | Mint \<Rightarrow> native_mint w
      | Burn \<Rightarrow> native_burn w
      | MultiAsset \<Rightarrow> native_multi_asset w)"

section \<open>The external executor\<close>

text \<open>\<open>{:02x}\<close> and \<open>{:08x}\<close>\<close>

definition hex2 :: "u8 \<Rightarrow> rstring" where "hex2 b = hex_str [b]"
definition hex8 :: "u32 \<Rightarrow> rstring" where "hex8 w = hex_str (u32_be w)"

definition encode_witness :: "signed_tx \<Rightarrow> witness \<Rightarrow> rstring list" where
  "encode_witness tx w =
     [hex8 (epoch w)] @ (if kind tx = Freeze then [hex2 (w_flag w)] else [])
     @ concat (map (\<lambda>a. map hex2 (abytes a)) (w_accounts w))
     @ (if kind tx \<noteq> Freeze then map hex2 (w_amount w) else [])"

text \<open>\<open>u8::from_str_radix(t, 16)\<close> on two ASCII hexadecimal digits.\<close>

definition hex_byte :: "rstring \<Rightarrow> u8 option" where
  "hex_byte t =
     (case t of
        [a, b] \<Rightarrow> (case (hex_value a, hex_value b) of
            (Some x, Some y) \<Rightarrow> Some (of_nat (16 * x + y)) | _ \<Rightarrow> None)
      | _ \<Rightarrow> None)"

fun output_bytes :: "bool \<Rightarrow> rstring list \<Rightarrow> bytes" where
  "output_bytes in_output [] = []"
| "output_bytes in_output (t # ts) =
     (if t = ascii ''OUT'' then output_bytes True ts
      else if t = ascii ''halt'' then []
      else if \<not> in_output then output_bytes in_output ts
      else case hex_byte t of
             Some b \<Rightarrow> b # output_bytes in_output ts
           | None \<Rightarrow> output_bytes in_output ts)"

definition n_output_accounts :: "tx_kind \<Rightarrow> bytes \<Rightarrow> usize" where
  "n_output_accounts k bs =
     (case k of Freeze \<Rightarrow> 1 | Mint \<Rightarrow> 1 | Burn \<Rightarrow> 1 | Transfer \<Rightarrow> 2 | MultiAsset \<Rightarrow> length bs div 64)"

definition decode_output_accounts :: "rstring list \<Rightarrow> tx_kind \<Rightarrow> (account list, trace_error) res" where
  "decode_output_accounts tokens k =
     (let bs = output_bytes False tokens; n = n_output_accounts k bs
      in if length bs < n * 64 then Err (ShortOutput (n * 64) (length bs))
         else Ok (map (\<lambda>i. \<lparr> abytes = subslice bs (i * 64) ((i + 1) * 64) \<rparr>) [0..<n]))"

end
