(* ===== verification/Smt.thy ===== *)
theory Smt
  imports Crypto
begin

text \<open>
  The sparse Merkle tree of \<open>crypto/src/smt.rs\<close>, the state commitment of the ledger: 256-bit keys,
  a content-addressed node store, insertion along a path, inclusion proofs and their check.
  The reference definition \<open>subtree_hash\<close> computes the root from the leaf map alone.
\<close>

section \<open>The tree\<close>

definition KEY_BITS :: usize where "KEY_BITS = 256"

text \<open>\<open>default_at n\<close> is the hash of an empty subtree of height \<open>n\<close>; index \<open>d\<close> of the array is height \<open>256 - d\<close>.\<close>

fun default_at :: "xof \<Rightarrow> nat \<Rightarrow> hash" where
  "default_at xof 0 = hash_bytes xof []"
| "default_at xof (Suc n) = hash_concat xof (default_at xof n) (default_at xof n)"

definition default_hashes :: "xof \<Rightarrow> hash list" where
  "default_hashes xof = map (\<lambda>d. default_at xof (KEY_BITS - d)) [0..<KEY_BITS + 1]"

record internal_node =
  left :: hash
  right :: hash

record smt =
  nodes :: "hash \<rightharpoonup> internal_node"
  leaves :: "hash \<rightharpoonup> bytes"
  smt_root :: hash
  defaults :: "hash list"

record merkle_proof =
  siblings :: "hash list"
  mp_value :: bytes

definition smt_new :: "xof \<Rightarrow> smt" where
  "smt_new xof =
     (let ds = default_hashes xof
      in \<lparr> nodes = Map.empty, leaves = Map.empty, smt_root = ds ! 0, defaults = ds \<rparr>)"

definition leaf_hash :: "xof \<Rightarrow> hash \<Rightarrow> bytes \<Rightarrow> hash" where
  "leaf_hash xof key val =
     (if val = [] then hash_bytes xof []
      else hash_three xof [0] key (hash_bytes xof val))"

text \<open>\<open>(key[i / 8] >> (7 - i % 8)) & 1 == 1\<close>\<close>

definition key_bit :: "hash \<Rightarrow> usize \<Rightarrow> bool" where
  "key_bit key i \<longleftrightarrow> (unat (key ! (i div 8)) div 2 ^ (7 - i mod 8)) mod 2 = 1"

definition smt_get :: "smt \<Rightarrow> hash \<Rightarrow> bytes option" where
  "smt_get t key = leaves t key"

text \<open>
  The descent of \<open>compute_path_to_leaf\<close> with \<open>n\<close> levels left (depth \<open>d = 256 - n\<close>): at a node
  that is not stored the rest of the path is copied from the default hashes.
\<close>

fun path_from :: "smt \<Rightarrow> hash \<Rightarrow> nat \<Rightarrow> hash \<Rightarrow> hash list" where
  "path_from t key 0 current = []"
| "path_from t key (Suc n) current =
     (let d = KEY_BITS - Suc n
      in case nodes t current of
           Some node \<Rightarrow>
             if key_bit key d then left node # path_from t key n (right node)
             else right node # path_from t key n (left node)
         | None \<Rightarrow> subslice (defaults t) (d + 1) (KEY_BITS + 1))"

definition compute_path_to_leaf :: "smt \<Rightarrow> hash \<Rightarrow> hash list" where
  "compute_path_to_leaf t key = path_from t key KEY_BITS (smt_root t)"

text \<open>One level of the way up: the ordered pair at depth \<open>i\<close>.\<close>

definition ordered :: "hash \<Rightarrow> hash list \<Rightarrow> usize \<Rightarrow> hash \<Rightarrow> internal_node" where
  "ordered key path i current =
     (if key_bit key i then \<lparr> left = path ! i, right = current \<rparr>
      else \<lparr> left = current, right = path ! i \<rparr>)"

definition node_hash :: "xof \<Rightarrow> internal_node \<Rightarrow> hash" where
  "node_hash xof nd = hash_concat xof (left nd) (right nd)"

text \<open>The loop of \<open>put\<close>, from depth \<open>i - 1\<close> up to the root, inserting every node it forms.\<close>

fun put_loop ::
  "xof \<Rightarrow> hash \<Rightarrow> hash list \<Rightarrow> nat \<Rightarrow> hash \<Rightarrow> (hash \<rightharpoonup> internal_node) \<Rightarrow> hash \<times> (hash \<rightharpoonup> internal_node)"
where
  "put_loop xof key path 0 current ns = (current, ns)"
| "put_loop xof key path (Suc i) current ns =
     (let nd = ordered key path i current; parent = node_hash xof nd
      in put_loop xof key path i parent (ns(parent \<mapsto> nd)))"

definition smt_put :: "xof \<Rightarrow> smt \<Rightarrow> hash \<Rightarrow> bytes \<Rightarrow> smt" where
  "smt_put xof t key val =
     (let new_leaf_hash = leaf_hash xof key val;
          path = compute_path_to_leaf t key;
          (current, ns) = put_loop xof key path KEY_BITS new_leaf_hash (nodes t)
      in t\<lparr> nodes := ns,
            leaves := (if val = [] then (leaves t)(key := None) else (leaves t)(key \<mapsto> val)),
            smt_root := current \<rparr>)"

definition smt_proof :: "smt \<Rightarrow> hash \<Rightarrow> merkle_proof" where
  "smt_proof t key =
     \<lparr> siblings = compute_path_to_leaf t key,
       mp_value = (case leaves t key of None \<Rightarrow> [] | Some v \<Rightarrow> v) \<rparr>"

fun climb :: "xof \<Rightarrow> hash \<Rightarrow> hash list \<Rightarrow> nat \<Rightarrow> hash \<Rightarrow> hash" where
  "climb xof key path 0 current = current"
| "climb xof key path (Suc d) current =
     climb xof key path d (node_hash xof (ordered key path d current))"

definition verify_proof :: "xof \<Rightarrow> hash \<Rightarrow> hash \<Rightarrow> merkle_proof \<Rightarrow> bool" where
  "verify_proof xof root key proof =
     (if length (siblings proof) \<noteq> KEY_BITS then False
      else climb xof key (siblings proof) KEY_BITS (leaf_hash xof key (mp_value proof)) = root)"

section \<open>The reference: the root of a leaf map\<close>

definition key_bits :: "hash \<Rightarrow> bool list" where
  "key_bits key = map (key_bit key) [0..<256]"

text \<open>The key at the end of a path, and the hash of a subtree of height \<open>n\<close> below a path.\<close>

definition byte_of_bits :: "bool list \<Rightarrow> u8" where
  "byte_of_bits bs = of_nat (foldl (\<lambda>acc b. 2 * acc + (if b then 1 else 0)) 0 bs)"

definition key_of_bits :: "bool list \<Rightarrow> hash" where
  "key_of_bits p = map (\<lambda>i. byte_of_bits (take 8 (drop (8 * i) p))) [0..<32]"

definition stored :: "(hash \<rightharpoonup> bytes) \<Rightarrow> hash \<Rightarrow> bytes" where
  "stored L key = (case L key of None \<Rightarrow> [] | Some v \<Rightarrow> v)"

fun subtree_hash :: "xof \<Rightarrow> (hash \<rightharpoonup> bytes) \<Rightarrow> nat \<Rightarrow> bool list \<Rightarrow> hash" where
  "subtree_hash xof L 0 p = leaf_hash xof (key_of_bits p) (stored L (key_of_bits p))"
| "subtree_hash xof L (Suc n) p =
     hash_concat xof (subtree_hash xof L n (p @ [False])) (subtree_hash xof L n (p @ [True]))"

definition tree_root :: "xof \<Rightarrow> (hash \<rightharpoonup> bytes) \<Rightarrow> hash" where
  "tree_root xof L = subtree_hash xof L 256 []"

section \<open>Keys and paths\<close>

abbreviation bit_val :: "bool list \<Rightarrow> nat" where
  "bit_val bs \<equiv> foldl (\<lambda>acc b. 2 * acc + (if b then 1 else 0)) 0 bs"

lemma bit_val_less: "bit_val bs < 2 ^ length bs"
  by (induction bs rule: rev_induct) auto

lemma bit_val_nth: "j < length bs \<Longrightarrow> (bit_val bs div 2 ^ (length bs - Suc j)) mod 2 = 1 \<longleftrightarrow> bs ! j"
proof (induction bs rule: rev_induct)
  case (snoc b bs)
  show ?case
  proof (cases "j < length bs")
    case True
    then have "length (bs @ [b]) - Suc j = Suc (length bs - Suc j)" by simp
    then have "bit_val (bs @ [b]) div 2 ^ (length (bs @ [b]) - Suc j) = bit_val bs div 2 ^ (length bs - Suc j)"
      by (simp add: div_mult2_eq)
    with snoc.IH True show ?thesis by (simp add: nth_append)
  next
    case False
    with snoc.prems have "j = length bs" by simp
    then show ?thesis by simp
  qed
qed simp

lemma bit_val_byte:
  fixes n :: nat
  assumes "n < 256"
  shows "bit_val (map (\<lambda>j. (n div 2 ^ (7 - j)) mod 2 = 1) [0..<8]) = n"
proof -
  have step: "bit_val (map (\<lambda>j. (n div 2 ^ (7 - j)) mod 2 = 1) [0..<m]) = n div 2 ^ (8 - m)" if "m \<le> 8" for m
    using that
  proof (induction m)
    case 0
    then show ?case using assms by simp
  next
    case (Suc m)
    then have e: "8 - m = Suc (7 - m)" by simp
    have "2 * (n div 2 ^ (8 - m)) + (n div 2 ^ (7 - m)) mod 2 = n div 2 ^ (7 - m)"
      unfolding e by (simp add: div_mult2_eq mult.commute [of 2] flip: div_mult2_eq)
        (metis div_mult2_eq mult.commute mult_div_mod_eq)
    with Suc show ?case by (simp add: mod2_eq_if split: if_splits)
  qed
  show ?thesis using step [of 8] by simp
qed

lemma length_key_bits [simp]: "length (key_bits k) = 256"
  by (simp add: key_bits_def)

lemma length_key_of_bits [simp]: "length (key_of_bits p) = 32"
  by (simp add: key_of_bits_def)

lemma key_bits_nth [simp]: "i < 256 \<Longrightarrow> key_bits k ! i = key_bit k i"
  by (simp add: key_bits_def)

lemma key_bits_byte:
  assumes "i < 32"
  shows "take 8 (drop (8 * i) (key_bits k)) = map (\<lambda>j. (unat (k ! i) div 2 ^ (7 - j)) mod 2 = 1) [0..<8]"
  using assms by (intro nth_equalityI) (simp_all add: key_bit_def)

lemma key_of_key_bits [simp]:
  assumes "length k = 32"
  shows "key_of_bits (key_bits k) = k"
proof (rule nth_equalityI)
  fix i assume "i < length (key_of_bits (key_bits k))"
  then have i: "i < 32" by simp
  have "bit_val (map (\<lambda>j. (unat (k ! i) div 2 ^ (7 - j)) mod 2 = 1) [0..<8]) = unat (k ! i)"
    using unat_u8_le [of "k ! i"] by (intro bit_val_byte) simp
  with key_bits_byte [OF i, of k] have "byte_of_bits (take 8 (drop (8 * i) (key_bits k))) = k ! i"
    by (simp only: byte_of_bits_def of_nat_unat ucast_id)
  with i show "key_of_bits (key_bits k) ! i = k ! i"
    by (simp add: key_of_bits_def)
qed (simp add: assms)

lemma key_bits_of_key [simp]:
  assumes "length p = 256"
  shows "key_bits (key_of_bits p) = p"
proof (rule nth_equalityI)
  fix i assume "i < length (key_bits (key_of_bits p))"
  then have i: "i < 256" by simp
  let ?b = "take 8 (drop (8 * (i div 8)) p)"
  have "8 * (i div 8) + 8 \<le> 256" using i by presburger
  then have len: "length ?b = 8" using assms by simp
  have "i div 8 < 32" using i by simp
  then have "unat (key_of_bits p ! (i div 8)) = bit_val ?b"
    using bit_val_less [of ?b] len by (simp add: key_of_bits_def byte_of_bits_def unat_of_nat)
  moreover have "(bit_val ?b div 2 ^ (7 - i mod 8)) mod 2 = 1 \<longleftrightarrow> p ! i"
    using bit_val_nth [of "i mod 8" ?b] len i assms by simp
  ultimately show "key_bits (key_of_bits p) ! i = p ! i"
    using i by (simp add: key_bit_def)
qed (simp add: assms)

section \<open>Subtrees\<close>

text \<open>No leaf is stored below the path \<open>p\<close>.\<close>

definition empty_below :: "(hash \<rightharpoonup> bytes) \<Rightarrow> bool list \<Rightarrow> bool" where
  "empty_below L p \<longleftrightarrow> (\<forall>q. length (p @ q) = 256 \<longrightarrow> L (key_of_bits (p @ q)) = None)"

lemma empty_below_append: "empty_below L p \<Longrightarrow> empty_below L (p @ q)"
  by (simp add: empty_below_def)

lemma subtree_hash_empty:
  "empty_below L p \<Longrightarrow> length p + n = 256 \<Longrightarrow> subtree_hash xof L n p = default_at xof n"
proof (induction n arbitrary: p)
  case 0
  then show ?case by (auto simp: empty_below_def stored_def leaf_hash_def)
next
  case (Suc n)
  then show ?case by (simp add: empty_below_append)
qed

lemma subtree_hash_cong:
  "(\<And>q. length q = n \<Longrightarrow> L (key_of_bits (p @ q)) = L' (key_of_bits (p @ q))) \<Longrightarrow>
     subtree_hash xof L n p = subtree_hash xof L' n p"
proof (induction n arbitrary: p)
  case 0
  then show ?case using "0" [of "[]"] by (simp add: stored_def)
next
  case (Suc n)
  have "subtree_hash xof L n (p @ [b]) = subtree_hash xof L' n (p @ [b])" for b
    using Suc.prems [of "b # _"] by (intro Suc.IH) simp
  then show ?case by simp
qed

lemma off_path:
  assumes "length k = 32" "length p \<le> 256" "p \<noteq> take (length p) (key_bits k)" "length (p @ q) = 256"
  shows "key_of_bits (p @ q) \<noteq> k"
proof
  assume "key_of_bits (p @ q) = k"
  then have "key_bits k = p @ q" using assms(4) by auto
  with assms(3) show False by simp
qed

lemma subtree_hash_upd:
  assumes "length k = 32" "length p + n = 256" "p \<noteq> take (length p) (key_bits k)"
  shows "subtree_hash xof (L(k := v)) n p = subtree_hash xof L n p"
  using off_path [OF assms(1) _ assms(3)] assms(2) by (intro subtree_hash_cong) simp

lemma empty_below_upd:
  assumes "length k = 32" "length p \<le> 256" "p \<noteq> take (length p) (key_bits k)"
  shows "empty_below (L(k := v)) p \<longleftrightarrow> empty_below L p"
  using off_path [OF assms] by (auto simp: empty_below_def)

text \<open>The sibling at depth \<open>d\<close> of the path to a key, and the two children of a position.\<close>

definition sib :: "xof \<Rightarrow> (hash \<rightharpoonup> bytes) \<Rightarrow> hash \<Rightarrow> nat \<Rightarrow> hash" where
  "sib xof L k d = subtree_hash xof L (255 - d) (take d (key_bits k) @ [\<not> key_bit k d])"

definition children :: "xof \<Rightarrow> (hash \<rightharpoonup> bytes) \<Rightarrow> nat \<Rightarrow> bool list \<Rightarrow> internal_node" where
  "children xof L n p =
     \<lparr> left = subtree_hash xof L n (p @ [False]), right = subtree_hash xof L n (p @ [True]) \<rparr>"

lemma node_hash_children [simp]: "node_hash xof (children xof L n p) = subtree_hash xof L (Suc n) p"
  by (simp add: node_hash_def children_def)

lemma sib_upd:
  assumes "length k = 32" "d < 256"
  shows "sib xof (L(k := v)) k d = sib xof L k d"
  unfolding sib_def
proof (rule subtree_hash_upd [OF assms(1)])
  let ?p = "take d (key_bits k) @ [\<not> key_bit k d]"
  show "length ?p + (255 - d) = 256" using assms(2) by simp
  have "?p ! d \<noteq> take (Suc d) (key_bits k) ! d" using assms(2) by (simp add: nth_append)
  moreover have "length ?p = Suc d" using assms(2) by simp
  ultimately show "?p \<noteq> take (length ?p) (key_bits k)" by metis
qed

lemma take_key_bits: "d < 256 \<Longrightarrow> take (Suc d) (key_bits k) = take d (key_bits k) @ [key_bit k d]"
  by (simp add: take_Suc_conv_app_nth)

lemma ordered_children:
  assumes "d < 256" "path ! d = sib xof L k d"
  shows "ordered k path d (subtree_hash xof L (255 - d) (take (Suc d) (key_bits k))) =
    children xof L (255 - d) (take d (key_bits k))"
  using assms by (auto simp: ordered_def children_def sib_def take_key_bits)

lemma climb_siblings:
  assumes "d \<le> 256" "\<And>i. i < d \<Longrightarrow> path ! i = sib xof L k i"
  shows "climb xof k path d (subtree_hash xof L (256 - d) (take d (key_bits k))) = tree_root xof L"
  using assms
proof (induction d)
  case 0
  then show ?case by (simp add: tree_root_def)
next
  case (Suc d)
  then have "Suc (255 - d) = 256 - d" by simp
  then have "node_hash xof (ordered k path d (subtree_hash xof L (255 - d) (take (Suc d) (key_bits k)))) =
      subtree_hash xof L (256 - d) (take d (key_bits k))"
    using Suc.prems by (simp only: ordered_children node_hash_children)
  with Suc show ?case by simp
qed

section \<open>The invariant\<close>

text \<open>
  No collision among the nodes in question: a finite set, the stored nodes and the chain of
  default nodes. (Injectivity on all inputs would be false of any hash function.)
\<close>

definition default_nodes :: "xof \<Rightarrow> internal_node set" where
  "default_nodes xof = (\<lambda>n. \<lparr> left = default_at xof n, right = default_at xof n \<rparr>) ` {..<256}"

definition clash_free :: "xof \<Rightarrow> internal_node set \<Rightarrow> bool" where
  "clash_free xof N \<longleftrightarrow> inj_on (node_hash xof) (N \<union> default_nodes xof)"

definition smt_inv :: "xof \<Rightarrow> smt \<Rightarrow> bool" where
  "smt_inv xof t \<longleftrightarrow>
     smt_root t = tree_root xof (leaves t) \<and> defaults t = default_hashes xof \<and>
     clash_free xof (ran (nodes t)) \<and>
     (\<forall>h nd. nodes t h = Some nd \<longrightarrow> h = node_hash xof nd) \<and>
     (\<forall>k v. leaves t k = Some v \<longrightarrow> length k = 32 \<and> v \<noteq> []) \<and>
     (\<forall>n p. length p + Suc n = 256 \<longrightarrow> \<not> empty_below (leaves t) p \<longrightarrow>
        nodes t (subtree_hash xof (leaves t) (Suc n) p) = Some (children xof (leaves t) n p))"

lemma children_empty:
  "empty_below L p \<Longrightarrow> length p + Suc n = 256 \<Longrightarrow>
     children xof L n p = \<lparr> left = default_at xof n, right = default_at xof n \<rparr>"
  by (simp add: children_def subtree_hash_empty empty_below_append)

lemma smt_inv_node:
  assumes "smt_inv xof t" "length p + Suc n = 256" "\<not> empty_below (leaves t) p"
  shows "nodes t (subtree_hash xof (leaves t) (Suc n) p) = Some (children xof (leaves t) n p)"
  using assms unfolding smt_inv_def by blast

lemma lookup_children:
  assumes inv: "smt_inv xof t" and len: "length p + Suc n = 256"
    and look: "nodes t (subtree_hash xof (leaves t) (Suc n) p) = Some nd"
  shows "nd = children xof (leaves t) n p"
proof (cases "empty_below (leaves t) p")
  case True
  have "n < 256" using len by simp
  then have d: "children xof (leaves t) n p \<in> default_nodes xof"
    by (simp add: children_empty [OF True len] default_nodes_def)
  have "nd \<in> ran (nodes t)" using look by (rule ranI)
  moreover have "node_hash xof nd = node_hash xof (children xof (leaves t) n p)"
    using inv look by (auto simp: smt_inv_def)
  moreover have "inj_on (node_hash xof) (ran (nodes t) \<union> default_nodes xof)"
    using inv by (simp add: smt_inv_def clash_free_def)
  ultimately show ?thesis
    using d by (elim inj_onD) simp_all
next
  case False
  then show ?thesis using smt_inv_node [OF inv len] look by simp
qed

lemma defaults_tail:
  assumes "d < 256" "empty_below L (take d (key_bits k))"
  shows "subslice (default_hashes xof) (d + 1) 257 = map (sib xof L k) [d..<256]"
proof (rule nth_equalityI)
  show "length (subslice (default_hashes xof) (d + 1) 257) = length (map (sib xof L k) [d..<256])"
    by (simp add: subslice_def default_hashes_def KEY_BITS_def)
next
  fix i assume "i < length (subslice (default_hashes xof) (d + 1) 257)"
  then have i: "d + i < 256" by (simp add: subslice_def default_hashes_def KEY_BITS_def)
  have "take (d + i) (key_bits k) = take d (key_bits k) @ take i (drop d (key_bits k))"
    by (simp add: take_add)
  then have "empty_below L (take (d + i) (key_bits k) @ [\<not> key_bit k (d + i)])"
    using assms(2) empty_below_append by metis
  then have "sib xof L k (d + i) = default_at xof (255 - (d + i))"
    using i by (simp add: sib_def subtree_hash_empty)
  then show "subslice (default_hashes xof) (d + 1) 257 ! i = map (sib xof L k) [d..<256] ! i"
    using i by (simp add: subslice_def default_hashes_def KEY_BITS_def del: upt_Suc)
qed

lemma path_from_siblings:
  assumes "smt_inv xof t" "n \<le> 256"
  shows "path_from t k n (subtree_hash xof (leaves t) n (take (256 - n) (key_bits k))) =
    map (sib xof (leaves t) k) [256 - n..<256]"
  using assms(2)
proof (induction n)
  case (Suc n)
  let ?d = "255 - n" and ?L = "leaves t"
  let ?p = "take ?d (key_bits k)" and ?cur = "subtree_hash xof (leaves t) (Suc n) (take (255 - n) (key_bits k))"
  have d: "?d < 256" "256 - n = Suc ?d" and len: "length ?p + Suc n = 256" using Suc.prems by simp_all
  show ?case
  proof (cases "nodes t ?cur")
    case None
    then have "empty_below ?L ?p" using smt_inv_node [OF assms(1) len] by auto
    then show ?thesis
      using None defaults_tail [OF d(1)] assms(1) by (simp add: KEY_BITS_def smt_inv_def del: subtree_hash.simps)
  next
    case (Some nd)
    have nd: "nd = children xof ?L n ?p" by (rule lookup_children [OF assms(1) len Some])
    have IH: "path_from t k n (subtree_hash xof ?L n (?p @ [key_bit k ?d])) = map (sib xof ?L k) [Suc ?d..<256]"
      using Suc d by (simp add: take_key_bits)
    have "sib xof ?L k ?d = subtree_hash xof ?L n (?p @ [\<not> key_bit k ?d])"
      using Suc.prems by (simp add: sib_def)
    with Some IH have "path_from t k (Suc n) ?cur = sib xof ?L k ?d # map (sib xof ?L k) [Suc ?d..<256]"
      by (auto simp: KEY_BITS_def nd children_def simp del: subtree_hash.simps)
    moreover have "[?d..<256] = ?d # [Suc ?d..<256]" using d(1) by (rule upt_conv_Cons)
    ultimately show ?thesis by (simp del: subtree_hash.simps path_from.simps)
  qed
qed simp

lemma compute_path_siblings:
  "smt_inv xof t \<Longrightarrow> compute_path_to_leaf t k = map (sib xof (leaves t) k) [0..<256]"
  using path_from_siblings [of xof t 256 k]
  by (simp add: compute_path_to_leaf_def KEY_BITS_def smt_inv_def tree_root_def)

text \<open>Every proof the tree hands out is accepted against its root.\<close>

lemma proof_verifies:
  assumes "smt_inv xof t" "length k = 32"
  shows "verify_proof xof (smt_root t) k (smt_proof t k)"
proof -
  have "climb xof k (compute_path_to_leaf t k) 256 (leaf_hash xof k (stored (leaves t) k)) = tree_root xof (leaves t)"
    using climb_siblings [of 256 "compute_path_to_leaf t k" xof "leaves t" k] assms
    by (simp add: compute_path_siblings)
  moreover have "smt_root t = tree_root xof (leaves t)" "length (compute_path_to_leaf t k) = 256"
    using assms(1) compute_path_siblings [OF assms(1)] by (simp_all add: smt_inv_def)
  ultimately show ?thesis
    by (simp add: verify_proof_def smt_proof_def KEY_BITS_def stored_def)
qed

section \<open>Insertion\<close>

text \<open>The nodes \<open>put\<close> forms on its way up, and the store after inserting them.\<close>

fun loop_nodes :: "xof \<Rightarrow> hash \<Rightarrow> hash list \<Rightarrow> nat \<Rightarrow> hash \<Rightarrow> internal_node list" where
  "loop_nodes xof key path 0 current = []"
| "loop_nodes xof key path (Suc i) current =
     (let nd = ordered key path i current in nd # loop_nodes xof key path i (node_hash xof nd))"

definition insert_nodes ::
  "xof \<Rightarrow> internal_node list \<Rightarrow> (hash \<rightharpoonup> internal_node) \<Rightarrow> (hash \<rightharpoonup> internal_node)" where
  "insert_nodes xof nds ns = foldl (\<lambda>m nd. m(node_hash xof nd \<mapsto> nd)) ns nds"

lemma put_loop_nodes:
  "put_loop xof key path n current ns =
     (climb xof key path n current, insert_nodes xof (loop_nodes xof key path n current) ns)"
  by (induction n arbitrary: current ns) (simp_all add: insert_nodes_def Let_def)

lemma insert_nodes_other:
  assumes "h \<notin> node_hash xof ` set nds"
  shows "insert_nodes xof nds ns h = ns h"
  using assms by (induction nds arbitrary: ns) (simp_all add: insert_nodes_def)

lemma insert_nodes_member:
  assumes "inj_on (node_hash xof) (set nds)" "nd \<in> set nds"
  shows "insert_nodes xof nds ns (node_hash xof nd) = Some nd"
  using assms
proof (induction nds arbitrary: ns)
  case (Cons a nds)
  have step: "insert_nodes xof (a # nds) ns = insert_nodes xof nds (ns(node_hash xof a \<mapsto> a))"
    by (simp add: insert_nodes_def)
  show ?case
  proof (cases "nd \<in> set nds")
    case True
    with Cons show ?thesis by (simp add: step)
  next
    case False
    with Cons.prems have "nd = a" "node_hash xof a \<notin> node_hash xof ` set nds"
      by (auto dest: inj_onD)
    then show ?thesis by (simp add: step insert_nodes_other)
  qed
qed simp

lemma insert_nodes_keep:
  assumes "inj_on (node_hash xof) (set nds \<union> {nd})" "ns (node_hash xof nd) = Some nd"
  shows "insert_nodes xof nds ns (node_hash xof nd) = Some nd"
proof (cases "node_hash xof nd \<in> node_hash xof ` set nds")
  case True
  then have "nd \<in> set nds" using assms(1) by (auto dest: inj_onD)
  with assms(1) show ?thesis by (intro insert_nodes_member) (auto intro: inj_on_subset)
next
  case False
  then show ?thesis using assms(2) by (simp add: insert_nodes_other)
qed

lemma insert_nodes_Some:
  assumes "insert_nodes xof nds ns h = Some nd"
  shows "nd \<in> set nds \<and> h = node_hash xof nd \<or> ns h = Some nd"
  using assms
  by (induction nds arbitrary: ns) (fastforce simp: insert_nodes_def split: if_splits)+

lemma loop_nodes_children:
  assumes "d \<le> 256" "\<And>i. i < d \<Longrightarrow> path ! i = sib xof L k i"
  shows "loop_nodes xof k path d (subtree_hash xof L (256 - d) (take d (key_bits k))) =
    map (\<lambda>i. children xof L (255 - i) (take i (key_bits k))) (rev [0..<d])"
  using assms
proof (induction d)
  case (Suc d)
  then have e: "Suc (255 - d) = 256 - d" "256 - Suc d = 255 - d" by simp_all
  have "ordered k path d (subtree_hash xof L (255 - d) (take (Suc d) (key_bits k))) =
      children xof L (255 - d) (take d (key_bits k))"
    using Suc.prems by (simp add: ordered_children)
  moreover have "node_hash xof (children xof L (255 - d) (take d (key_bits k))) =
      subtree_hash xof L (256 - d) (take d (key_bits k))"
    by (simp only: node_hash_children e)
  ultimately show ?case using Suc by (simp add: e(2) Let_def)
qed simp

definition path_nodes :: "xof \<Rightarrow> smt \<Rightarrow> hash \<Rightarrow> bytes \<Rightarrow> internal_node set" where
  "path_nodes xof t key val =
     set (loop_nodes xof key (compute_path_to_leaf t key) KEY_BITS (leaf_hash xof key val))"

definition put_safe :: "xof \<Rightarrow> smt \<Rightarrow> hash \<Rightarrow> bytes \<Rightarrow> bool" where
  "put_safe xof t key val \<longleftrightarrow> length key = 32 \<and> clash_free xof (ran (nodes t) \<union> path_nodes xof t key val)"

abbreviation leaves_after :: "smt \<Rightarrow> hash \<Rightarrow> bytes \<Rightarrow> (hash \<rightharpoonup> bytes)" where
  "leaves_after t key val \<equiv> (leaves t)(key := (if val = [] then None else Some val))"

lemma stored_after [simp]: "stored (leaves_after t key val) key = val"
  by (simp add: stored_def)

lemma leaves_put [simp]: "leaves (smt_put xof t key val) = leaves_after t key val"
  by (simp add: smt_put_def Let_def put_loop_nodes)

lemma defaults_put [simp]: "defaults (smt_put xof t key val) = defaults t"
  by (simp add: smt_put_def Let_def put_loop_nodes)

lemma nodes_put:
  "nodes (smt_put xof t key val) =
     insert_nodes xof (loop_nodes xof key (compute_path_to_leaf t key) KEY_BITS (leaf_hash xof key val)) (nodes t)"
  by (simp add: smt_put_def Let_def put_loop_nodes)

lemma put_path:
  assumes "smt_inv xof t" "length key = 32" "i < 256"
  shows "compute_path_to_leaf t key ! i = sib xof (leaves_after t key val) key i"
  using assms by (simp add: compute_path_siblings sib_upd)

lemma leaf_as_subtree:
  "length key = 32 \<Longrightarrow> leaf_hash xof key val = subtree_hash xof (leaves_after t key val) (256 - 256) (take 256 (key_bits key))"
  by simp

lemma root_put:
  assumes "smt_inv xof t" "length key = 32"
  shows "smt_root (smt_put xof t key val) = tree_root xof (leaves_after t key val)"
  using climb_siblings [of 256 "compute_path_to_leaf t key" xof "leaves_after t key val" key]
    put_path [OF assms] assms(2)
  by (simp add: smt_put_def Let_def put_loop_nodes KEY_BITS_def)

lemma path_nodes_children:
  assumes "smt_inv xof t" "length key = 32"
  shows "loop_nodes xof key (compute_path_to_leaf t key) KEY_BITS (leaf_hash xof key val) =
    map (\<lambda>i. children xof (leaves_after t key val) (255 - i) (take i (key_bits key))) (rev [0..<256])"
  using loop_nodes_children [of 256 "compute_path_to_leaf t key" xof "leaves_after t key val" key]
    put_path [OF assms] assms(2)
  by (simp add: KEY_BITS_def del: upt_Suc)

lemma put_node:
  assumes inv: "smt_inv xof t" and safe: "put_safe xof t key val" and len: "length p + Suc n = 256"
    and full: "\<not> empty_below (leaves_after t key val) p"
  shows "nodes (smt_put xof t key val) (subtree_hash xof (leaves_after t key val) (Suc n) p) =
    Some (children xof (leaves_after t key val) n p)"
proof -
  let ?L = "leaves_after t key val"
  let ?nds = "loop_nodes xof key (compute_path_to_leaf t key) KEY_BITS (leaf_hash xof key val)"
  have key: "length key = 32" and inj: "inj_on (node_hash xof) (ran (nodes t) \<union> set ?nds)"
    using safe by (auto simp: put_safe_def clash_free_def path_nodes_def intro: inj_on_subset)
  have n: "n = 255 - length p" "length p < 256" using len by simp_all
  show ?thesis
  proof (cases "p = take (length p) (key_bits key)")
    case True
    have "(\<lambda>i. children xof ?L (255 - i) (take i (key_bits key))) (length p) \<in> set ?nds"
      using n(2) unfolding path_nodes_children [OF inv key] set_map by (intro imageI) simp
    with True n(1) have "children xof ?L n p \<in> set ?nds" by simp
    moreover have "inj_on (node_hash xof) (set ?nds)" using inj by (auto intro: inj_on_subset)
    ultimately show ?thesis
      using insert_nodes_member by (fastforce simp only: nodes_put node_hash_children [symmetric])
  next
    case False
    have off: "p @ [b] \<noteq> take (length (p @ [b])) (key_bits key)" for b
      using False n(2) by (auto simp: take_key_bits)
    have old: "children xof ?L n p = children xof (leaves t) n p"
      using off len by (simp add: children_def subtree_hash_upd [OF key])
    then have hash_eq: "subtree_hash xof ?L (Suc n) p = node_hash xof (children xof (leaves t) n p)"
      by (metis node_hash_children)
    have "\<not> empty_below (leaves t) p"
      using full empty_below_upd [OF key _ False] n(2) by simp
    then have "nodes t (node_hash xof (children xof (leaves t) n p)) = Some (children xof (leaves t) n p)"
      unfolding node_hash_children by (rule smt_inv_node [OF inv len])
    moreover from this have "inj_on (node_hash xof) (set ?nds \<union> {children xof (leaves t) n p})"
      by (intro inj_on_subset [OF inj]) (auto intro: ranI)
    ultimately show ?thesis
      unfolding hash_eq old nodes_put by (rule insert_nodes_keep [rotated])
  qed
qed

lemma ran_put: "ran (nodes (smt_put xof t key val)) \<subseteq> ran (nodes t) \<union> path_nodes xof t key val"
  by (auto simp: ran_def nodes_put path_nodes_def dest: insert_nodes_Some)

lemma smt_inv_put:
  assumes "smt_inv xof t" "put_safe xof t key val"
  shows "smt_inv xof (smt_put xof t key val)"
  unfolding smt_inv_def
proof (intro conjI allI impI)
  have key: "length key = 32" using assms(2) by (simp add: put_safe_def)
  show "smt_root (smt_put xof t key val) = tree_root xof (leaves (smt_put xof t key val))"
    using root_put [OF assms(1) key] by simp
  show "defaults (smt_put xof t key val) = default_hashes xof"
    using assms(1) by (simp add: smt_inv_def)
  show "clash_free xof (ran (nodes (smt_put xof t key val)))"
    using assms(2) ran_put [of xof t key val] unfolding put_safe_def clash_free_def
    by (elim conjE inj_on_subset) blast
  show "h = node_hash xof nd" if "nodes (smt_put xof t key val) h = Some nd" for h nd
    using that assms(1) unfolding nodes_put smt_inv_def by (blast dest: insert_nodes_Some)
  show "length k = 32" "v \<noteq> []" if "leaves (smt_put xof t key val) k = Some v" for k v
    using that assms(1) key by (auto simp: smt_inv_def split: if_splits)
  show "nodes (smt_put xof t key val) (subtree_hash xof (leaves (smt_put xof t key val)) (Suc n) p) =
      Some (children xof (leaves (smt_put xof t key val)) n p)"
    if "length p + Suc n = 256" "\<not> empty_below (leaves (smt_put xof t key val)) p" for n p
    using that(2) unfolding leaves_put by (rule put_node [OF assms that(1)])
qed

lemma smt_inv_new:
  assumes "inj_on (node_hash xof) (default_nodes xof)"
  shows "smt_inv xof (smt_new xof)"
  using assms subtree_hash_empty [of Map.empty "[]" 256 xof]
  by (simp add: smt_inv_def smt_new_def Let_def tree_root_def clash_free_def empty_below_def
      default_hashes_def KEY_BITS_def del: upt_Suc)

text \<open>
  A tree and the set of the nodes that were hashed while it was built. If no two of them collide,
  with each other or with the nodes of the empty tree, the tree has its invariant.
\<close>

inductive built :: "xof \<Rightarrow> internal_node set \<Rightarrow> smt \<Rightarrow> bool" for xof where
  empty: "built xof {} (smt_new xof)"
| put: "built xof (N \<union> path_nodes xof t key val) (smt_put xof t key val)" if "built xof N t" "length key = 32"

lemma finite_path_nodes: "finite (path_nodes xof t key val)"
  by (simp add: path_nodes_def)

lemma built_finite: "built xof N t \<Longrightarrow> finite N"
  by (induction rule: built.induct) (simp_all add: finite_path_nodes)

lemma clash_free_subset: "clash_free xof N \<Longrightarrow> M \<subseteq> N \<Longrightarrow> clash_free xof M"
  unfolding clash_free_def by (erule inj_on_subset) auto

lemma built_inv:
  assumes "built xof N t" "clash_free xof N"
  shows "smt_inv xof t \<and> ran (nodes t) \<subseteq> N"
  using assms
proof (induction rule: built.induct)
  case empty
  have "nodes (smt_new xof) = Map.empty" by (simp add: smt_new_def Let_def)
  then show ?case using empty smt_inv_new [of xof] by (simp add: clash_free_def)
next
  case (put N t key val)
  have "clash_free xof N" using put.prems by (rule clash_free_subset) simp
  then have IH: "smt_inv xof t" "ran (nodes t) \<subseteq> N" using put.IH by auto
  have "put_safe xof t key val"
    unfolding put_safe_def using put.hyps(2) IH(2) by (auto intro: clash_free_subset [OF put.prems])
  then show ?case using smt_inv_put [OF IH(1)] ran_put [of xof t key val] IH(2) by auto
qed

section \<open>Proofs bind values\<close>

text \<open>Climbing is injective in the leaf when the nodes on the two ways do not collide.\<close>

lemma ordered_inject: "ordered k p1 i c1 = ordered k p2 i c2 \<Longrightarrow> c1 = c2"
  by (simp add: ordered_def split: if_splits)

lemma climb_inject:
  assumes "climb xof k p1 n c1 = climb xof k p2 n c2"
    and "inj_on (node_hash xof) (set (loop_nodes xof k p1 n c1) \<union> set (loop_nodes xof k p2 n c2))"
  shows "c1 = c2"
  using assms
proof (induction n arbitrary: c1 c2)
  case (Suc n)
  let ?n1 = "ordered k p1 n c1" and ?n2 = "ordered k p2 n c2"
  have "climb xof k p1 n (node_hash xof ?n1) = climb xof k p2 n (node_hash xof ?n2)"
    using Suc.prems(1) by simp
  then have "node_hash xof ?n1 = node_hash xof ?n2"
    by (rule Suc.IH) (rule inj_on_subset [OF Suc.prems(2)], auto simp: Let_def)
  then have "?n1 = ?n2" by (rule inj_onD [OF Suc.prems(2)]) (simp_all add: Let_def)
  then show ?case by (rule ordered_inject)
qed simp

definition leaf_message :: "xof \<Rightarrow> hash \<Rightarrow> bytes \<Rightarrow> bytes" where
  "leaf_message xof key val = (if val = [] then [] else 0 # key @ hash_bytes xof val)"

lemma leaf_hash_message: "leaf_hash xof key val = xof (leaf_message xof key val) 32"
  by (simp add: leaf_hash_def leaf_message_def hash_bytes_def hash_three_def)

lemma leaf_hash_inject:
  assumes "leaf_hash xof key v = leaf_hash xof key w"
    and "inj_on (\<lambda>m. xof m 32) {leaf_message xof key v, leaf_message xof key w, v, w}"
  shows "v = w"
proof -
  have eq: "leaf_message xof key v = leaf_message xof key w"
    using assms(1) unfolding leaf_hash_message by (rule inj_onD [OF assms(2)]) simp_all
  show ?thesis
  proof (cases "v = [] \<or> w = []")
    case True
    with eq show ?thesis by (auto simp: leaf_message_def split: if_splits)
  next
    case False
    with eq have "xof v 32 = xof w 32" by (simp add: leaf_message_def hash_bytes_def)
    then show ?thesis by (rule inj_onD [OF assms(2)]) simp_all
  qed
qed

text \<open>No collision among what the two proofs hash.\<close>

definition proof_nodes :: "xof \<Rightarrow> hash \<Rightarrow> merkle_proof \<Rightarrow> internal_node set" where
  "proof_nodes xof key pr =
     set (loop_nodes xof key (siblings pr) KEY_BITS (leaf_hash xof key (mp_value pr)))"

definition proofs_clash_free :: "xof \<Rightarrow> hash \<Rightarrow> merkle_proof \<Rightarrow> merkle_proof \<Rightarrow> bool" where
  "proofs_clash_free xof key p q \<longleftrightarrow>
     inj_on (node_hash xof) (proof_nodes xof key p \<union> proof_nodes xof key q) \<and>
     inj_on (\<lambda>m. xof m 32)
       {leaf_message xof key (mp_value p), leaf_message xof key (mp_value q), mp_value p, mp_value q}"

lemma verified_values_agree:
  assumes "verify_proof xof r key p" "verify_proof xof r key q" "proofs_clash_free xof key p q"
  shows "mp_value p = mp_value q"
proof -
  have "climb xof key (siblings p) KEY_BITS (leaf_hash xof key (mp_value p)) =
      climb xof key (siblings q) KEY_BITS (leaf_hash xof key (mp_value q))"
    using assms(1,2) by (simp add: verify_proof_def split: if_splits)
  then have "leaf_hash xof key (mp_value p) = leaf_hash xof key (mp_value q)"
    by (rule climb_inject) (use assms(3) in \<open>simp add: proofs_clash_free_def proof_nodes_def\<close>)
  then show ?thesis
    by (rule leaf_hash_inject) (use assms(3) in \<open>simp add: proofs_clash_free_def\<close>)
qed

section \<open>The interface the ledger uses\<close>

text \<open>
  An authenticated map: a state with lookup, update, a root and proofs. \<open>good\<close> is its
  invariant, \<open>base\<close> and \<open>safe\<close> the conditions under which the empty state has it and an update
  keeps it.
\<close>

locale authenticated_map =
  fixes empty :: 's and get :: "'s \<Rightarrow> 'k \<Rightarrow> 'v option" and put :: "'s \<Rightarrow> 'k \<Rightarrow> 'v \<Rightarrow> 's"
    and root :: "'s \<Rightarrow> 'r" and prove :: "'s \<Rightarrow> 'k \<Rightarrow> 'p" and check :: "'r \<Rightarrow> 'k \<Rightarrow> 'p \<Rightarrow> bool"
    and shown :: "'p \<Rightarrow> 'v option" and good :: "'s \<Rightarrow> bool" and safe :: "'s \<Rightarrow> 'k \<Rightarrow> 'v \<Rightarrow> bool"
    and base :: bool and key_ok :: "'k \<Rightarrow> bool" and compute :: "('k \<Rightarrow> 'v option) \<Rightarrow> 'r" and remove :: "'v \<Rightarrow> bool"
  assumes good_empty: "base \<Longrightarrow> good empty"
    and good_put: "good s \<Longrightarrow> safe s k v \<Longrightarrow> good (put s k v)"
    and get_empty: "get empty k = None"
    and get_put: "get (put s k v) k' = (if k' = k then (if remove v then None else Some v) else get s k')"
    and root_compute: "good s \<Longrightarrow> root s = compute (get s)"
    and check_prove: "good s \<Longrightarrow> key_ok k \<Longrightarrow> check (root s) k (prove s k)"
    and shown_prove: "good s \<Longrightarrow> shown (prove s k) = get s k"
begin

fun puts :: "'s \<Rightarrow> ('k \<times> 'v) list \<Rightarrow> 's" where
  "puts s [] = s"
| "puts s ((k, v) # kvs) = puts (put s k v) kvs"

fun puts_safe :: "'s \<Rightarrow> ('k \<times> 'v) list \<Rightarrow> bool" where
  "puts_safe s [] \<longleftrightarrow> True"
| "puts_safe s ((k, v) # kvs) \<longleftrightarrow> safe s k v \<and> puts_safe (put s k v) kvs"

lemma good_puts: "good s \<Longrightarrow> puts_safe s kvs \<Longrightarrow> good (puts s kvs)"
  by (induction s kvs rule: puts.induct) (auto intro: good_put)

text \<open>The root depends on the contents only, not on the order or history of the updates.\<close>

lemma root_history_free:
  assumes "good s" "good s'" "get s = get s'"
  shows "root s = root s'"
  using assms by (simp add: root_compute)

lemma check_after_puts:
  assumes base "puts_safe empty kvs" "key_ok k"
  shows "check (root (puts empty kvs)) k (prove (puts empty kvs) k)"
    "shown (prove (puts empty kvs) k) = get (puts empty kvs) k"
  using good_puts [OF good_empty [OF assms(1)] assms(2)] assms(3) by (auto intro: check_prove shown_prove)

end

definition shown_value :: "merkle_proof \<Rightarrow> bytes option" where
  "shown_value pr = (if mp_value pr = [] then None else Some (mp_value pr))"

interpretation smt: authenticated_map "smt_new xof" smt_get "smt_put xof" smt_root smt_proof
    "verify_proof xof" shown_value "smt_inv xof" "put_safe xof"
    "inj_on (node_hash xof) (default_nodes xof)" "\<lambda>k. length k = 32" "tree_root xof" "\<lambda>v. v = []"
  for xof
proof (unfold_locales, goal_cases)
  case 1
  then show ?case by (rule smt_inv_new)
next
  case (2 s k v)
  then show ?case by (rule smt_inv_put)
next
  case (5 s)
  then show ?case by (simp add: smt_inv_def smt_get_def [abs_def])
next
  case (6 s k)
  then show ?case by (rule proof_verifies)
next
  case (7 s k)
  then show ?case
    by (auto simp: smt_inv_def shown_value_def smt_proof_def smt_get_def split: option.splits)
qed (auto simp: smt_get_def smt_new_def Let_def)

end
