(* ===== verification/Sequencer.thy ===== *)
theory Sequencer
  imports Trace_Executor Smt
begin

text \<open>
  The sequencer: ledger state (\<open>sequencer/src/state.rs\<close>), issuer registry (\<open>issuer_registry.rs\<close>),
  the validating mempool (\<open>mempool.rs\<close>), block production (\<open>node.rs\<close>), the account query (\<open>rpc.rs\<close>)
  and the sovereign consensus front end (\<open>consensus/src/sovereign.rs\<close>). JSON serialisation of
  issuer records, the clock, the digest and the signature scheme are parameters.
\<close>

section \<open>state.rs\<close>

record state =
  accounts :: smt
  registry :: smt

definition state_new :: "xof \<Rightarrow> state" where
  "state_new xof = \<lparr> accounts = smt_new xof, registry = smt_new xof \<rparr>"

definition state_account :: "state \<Rightarrow> hash \<Rightarrow> account" where
  "state_account s pk =
     (case smt_get (accounts s) pk of
        Some bs \<Rightarrow>
          if length bs = 64 then \<lparr> abytes = bs \<rparr>
          else \<lparr> abytes = overwrite 0 pk (abytes account_default) \<rparr>
      | None \<Rightarrow> \<lparr> abytes = overwrite 0 pk (abytes account_default) \<rparr>)"

definition put_account :: "xof \<Rightarrow> account \<Rightarrow> state \<Rightarrow> state" where
  "put_account xof a s = s\<lparr>accounts := smt_put xof (accounts s) (pubkey a) (abytes a)\<rparr>"

definition account_proof :: "state \<Rightarrow> hash \<Rightarrow> merkle_proof" where
  "account_proof s pk = smt_proof (accounts s) pk"

definition accounts_root :: "state \<Rightarrow> hash" where "accounts_root s = smt_root (accounts s)"
definition registry_root :: "state \<Rightarrow> hash" where "registry_root s = smt_root (registry s)"

section \<open>issuer\_registry.rs\<close>

record issuer_record =
  ir_asset_id :: u32
  authority_pubkey :: bytes
  max_supply :: bytes
  mint_enabled :: bool
  burn_enabled :: bool
  freeze_enabled :: bool
  travel_rule_threshold :: bytes
  regulator_view_keys :: "bytes list"
  ir_name :: rstring

text \<open>\<open>serde_json\<close>: the two directions the code uses.\<close>

record json =
  to_vec :: "issuer_record \<Rightarrow> bytes"
  from_slice :: "bytes \<Rightarrow> issuer_record option"

definition json_correct :: "json \<Rightarrow> bool" where
  "json_correct js \<longleftrightarrow> (\<forall>r. from_slice js (to_vec js r) = Some r \<and> to_vec js r \<noteq> [])"

definition issuer_key :: "xof \<Rightarrow> issuer_record \<Rightarrow> hash" where
  "issuer_key xof r = hash_bytes xof (ascii ''issuer:'' @ u32_le (ir_asset_id r))"

section \<open>mempool.rs\<close>

record mempool =
  queue :: "signed_tx list"
  capacity :: usize

datatype tx_error =
    MempoolFull | BadSignature sig_error | NonceMismatch u64 u64 | SenderFrozen | MultiNonceMismatch
  | UnknownAsset | MintNotAuthorized | BurnNotAuthorized | FreezeNotAuthorized | FreezeNeedsOrder
  | TravelRule

definition mempool_new :: "usize \<Rightarrow> mempool" where
  "mempool_new cap = \<lparr> queue = [], capacity = cap \<rparr>"

definition check_nonce :: "signed_tx \<Rightarrow> account \<Rightarrow> (unit, tx_error) res" where
  "check_nonce tx signer_account =
     (case kind tx of
        Transfer \<Rightarrow>
          if tx_nonce tx \<noteq> nonce signer_account + 1
          then Err (NonceMismatch (nonce signer_account + 1) (tx_nonce tx))
          else if is_frozen signer_account then Err SenderFrozen else Ok ()
      | Burn \<Rightarrow>
          if tx_nonce tx \<noteq> nonce signer_account + 1
          then Err (NonceMismatch (nonce signer_account + 1) (tx_nonce tx))
          else if is_frozen signer_account then Err SenderFrozen else Ok ()
      | MultiAsset \<Rightarrow> if tx_nonce tx \<noteq> nonce signer_account + 1 then Err MultiNonceMismatch else Ok ()
      | _ \<Rightarrow> Ok ())"

definition check_authority :: "signed_tx \<Rightarrow> issuer_record \<Rightarrow> (unit, tx_error) res" where
  "check_authority tx issuer =
     (case kind tx of
        Mint \<Rightarrow> if signer tx \<noteq> authority_pubkey issuer \<or> \<not> mint_enabled issuer then Err MintNotAuthorized else Ok ()
      | Burn \<Rightarrow> if signer tx \<noteq> authority_pubkey issuer \<or> \<not> burn_enabled issuer then Err BurnNotAuthorized else Ok ()
      | Freeze \<Rightarrow>
          if signer tx \<noteq> authority_pubkey issuer \<or> \<not> freeze_enabled issuer then Err FreezeNotAuthorized
          else if court_order_hash tx = None then Err FreezeNeedsOrder else Ok ()
      | _ \<Rightarrow> Ok ())"

definition check_travel_rule :: "signed_tx \<Rightarrow> issuer_record \<Rightarrow> (unit, tx_error) res" where
  "check_travel_rule tx issuer =
     (let amt = u128_from_le (amount tx); threshold = u128_from_le (travel_rule_threshold issuer)
      in if (kind tx = Transfer \<or> kind tx = MultiAsset) \<and> (threshold = 0 \<or> amt > threshold) \<and>
            originator_metadata tx = None
         then Err TravelRule else Ok ())"

definition validate ::
  "ed25519 \<Rightarrow> signed_tx \<Rightarrow> state \<Rightarrow> (u32 \<Rightarrow> issuer_record option) \<Rightarrow> (unit, tx_error) res" where
  "validate ed tx s reg =
     and_then (map_err BadSignature (verify ed (signer tx) (canonical tx) (signature tx))) (\<lambda>_.
     and_then (check_nonce tx (state_account s (signer tx))) (\<lambda>_.
     and_then (ok_or UnknownAsset (reg (asset_id tx))) (\<lambda>issuer.
     and_then (check_authority tx issuer) (\<lambda>_.
     check_travel_rule tx issuer))))"

text \<open>\<open>ingress\<close> returns the new queue with its verdict.\<close>

definition ingress ::
  "ed25519 \<Rightarrow> mempool \<Rightarrow> signed_tx \<Rightarrow> state \<Rightarrow> (u32 \<Rightarrow> issuer_record option) \<Rightarrow> mempool \<times> (unit, tx_error) res" where
  "ingress ed mp tx s reg =
     (if length (queue mp) \<ge> capacity mp then (mp, Err MempoolFull)
      else case validate ed tx s reg of
             Ok _ \<Rightarrow> (mp\<lparr>queue := queue mp @ [tx]\<rparr>, Ok ())
           | Err e \<Rightarrow> (mp, Err e)
           | Panic \<Rightarrow> (mp, Panic))"

definition drain :: "mempool \<Rightarrow> usize \<Rightarrow> mempool \<times> signed_tx list" where
  "drain mp n =
     (let k = min n (length (queue mp))
      in (mp\<lparr>queue := drop k (queue mp)\<rparr>, take k (queue mp)))"

section \<open>node.rs\<close>

record node =
  node_keypair :: keypair
  block_size :: usize
  node_state :: state
  node_mempool :: mempool
  last_header :: "block_header option"

datatype node_error = MissingRecipient | MultiAssetTodo | TraceFailed trace_error

definition node_new :: "xof \<Rightarrow> keypair \<Rightarrow> usize \<Rightarrow> node" where
  "node_new xof kp bsize =
     \<lparr> node_keypair = kp, block_size = bsize, node_state = state_new xof,
       node_mempool = mempool_new 10000, last_header = None \<rparr>"

definition assemble_witness :: "state \<Rightarrow> signed_tx \<Rightarrow> u32 \<Rightarrow> (witness, node_error) res" where
  "assemble_witness s tx ep =
     and_then
       (case kind tx of
          Transfer \<Rightarrow>
            (case recipient tx of
               None \<Rightarrow> Err MissingRecipient
             | Some to \<Rightarrow> Ok [state_account s (signer tx), state_account s to])
        | MultiAsset \<Rightarrow> Err MultiAssetTodo
        | Burn \<Rightarrow> Ok [state_account s (signer tx)]
        | _ \<Rightarrow> Ok [state_account s (case recipient tx of Some r \<Rightarrow> r | None \<Rightarrow> signer tx)])
       (\<lambda>accs. Ok \<lparr> epoch = ep, w_accounts = accs, w_amount = amount tx, w_flag = flag tx \<rparr>)"

definition sign_header :: "ed25519 \<Rightarrow> keypair \<Rightarrow> block_header \<Rightarrow> block_header" where
  "sign_header ed kp h = h\<lparr>sequencer_sig := kp_sign ed kp (signing_bytes h)\<rparr>"

type_synonym executor = "signed_tx \<Rightarrow> witness \<Rightarrow> (trace_result, trace_error) res"

text \<open>
  The loop over the drained transactions. An error leaves the loop with the state as the
  transactions before it left it.
\<close>

fun process_txs ::
  "xof \<Rightarrow> executor \<Rightarrow> u32 \<Rightarrow> state \<Rightarrow> signed_tx list \<Rightarrow> state \<times> (hash list, node_error) res" where
  "process_txs xof exec ep s [] = (s, Ok [])"
| "process_txs xof exec ep s (tx # txs) =
     (case and_then (assemble_witness s tx ep) (\<lambda>w. map_err TraceFailed (exec tx w)) of
        Err e \<Rightarrow> (s, Err e)
      | Panic \<Rightarrow> (s, Panic)
      | Ok r \<Rightarrow>
          let s' = (if success r then fold (put_account xof) (updated_accounts r) s else s);
              (s'', rest) = process_txs xof exec ep s' txs
          in (s'', and_then rest (\<lambda>hs. Ok (tr_trace_hash r # hs))))"

text \<open>
  \<open>produce_block\<close> with the two clock readings: the epoch of the witnesses and the timestamp
  of the header. The result is the node afterwards and the block, if one was produced.
\<close>

definition produce_block ::
  "xof \<Rightarrow> ed25519 \<Rightarrow> executor \<Rightarrow> u64 \<Rightarrow> u64 \<Rightarrow> node \<Rightarrow> node \<times> (block option, node_error) res" where
  "produce_block xof ed exec now1 now2 nd =
     (if queue (node_mempool nd) = [] then (nd, Ok None)
      else let (mp, txs) = drain (node_mempool nd) (block_size nd); nd1 = nd\<lparr>node_mempool := mp\<rparr>
           in if txs = [] then (nd1, Ok None)
              else let s = node_state nd; prev = accounts_root s;
                       (parent, bn) = (case last_header nd of
                           Some h \<Rightarrow> (header_hash xof h, block_n h + 1) | None \<Rightarrow> (replicate 32 0, 0));
                       ep = ucast (of_nat (unat now1 div 1000) :: u64);
                       (s', traces) = process_txs xof exec ep s txs;
                       nd2 = nd1\<lparr>node_state := s'\<rparr>
                   in case traces of
                        Err e \<Rightarrow> (nd2, Err e)
                      | Panic \<Rightarrow> (nd2, Panic)
                      | Ok hs \<Rightarrow>
                          let hdr = \<lparr> block_n = bn, parent_hash = parent, prev_state_root = prev,
                                      hdr_tx_list_hash = tx_list_hash xof txs,
                                      hdr_trace_hash = combined_trace_hash xof hs,
                                      new_state_root = accounts_root s',
                                      issuer_registry_root = registry_root s', timestamp_ms = now2,
                                      sequencer_pubkey = kp_public ed (node_keypair nd),
                                      sequencer_sig = replicate 64 0 \<rparr>;
                              signed = sign_header ed (node_keypair nd) hdr
                          in (nd2\<lparr>last_header := Some signed\<rparr>,
                              Ok (Some \<lparr> blk_header = signed, blk_txs = txs \<rparr>)))"

definition register_issuer :: "xof \<Rightarrow> json \<Rightarrow> issuer_record \<Rightarrow> node \<Rightarrow> node" where
  "register_issuer xof js issuer nd =
     (let s = node_state nd
      in nd\<lparr>node_state := s\<lparr>registry := smt_put xof (registry s) (issuer_key xof issuer) (to_vec js issuer)\<rparr>\<rparr>)"

definition lookup_issuer :: "xof \<Rightarrow> json \<Rightarrow> node \<Rightarrow> u32 \<Rightarrow> issuer_record option" where
  "lookup_issuer xof js nd aid =
     (let key = hash_bytes xof (ascii ''issuer:'' @ u32_le aid)
      in case smt_get (registry (node_state nd)) key of
           None \<Rightarrow> None
         | Some bs \<Rightarrow> from_slice js bs)"

section \<open>rpc.rs and consensus\<close>

text \<open>\<open>hex::decode\<close>, an external crate, is the parameter \<open>hex_decode\<close>; a failure is the empty vector.\<close>

definition rpc_get_account :: "(rstring \<Rightarrow> bytes option) \<Rightarrow> node \<Rightarrow> rstring \<Rightarrow> rstring" where
  "rpc_get_account hex_decode nd pubkey_hex =
     (let pk_bytes = (case hex_decode pubkey_hex of Some b \<Rightarrow> b | None \<Rightarrow> []);
          pk = (if length pk_bytes = 32 then pk_bytes else replicate 32 0)
      in hex_str (abytes (state_account (node_state nd) pk)))"

definition sovereign_submit_tx :: "xof \<Rightarrow> ed25519 \<Rightarrow> json \<Rightarrow> signed_tx \<Rightarrow> node \<Rightarrow> node \<times> (unit, tx_error) res" where
  "sovereign_submit_tx xof ed js tx nd =
     (let (mp, r) = ingress ed (node_mempool nd) tx (node_state nd) (lookup_issuer xof js nd)
      in (nd\<lparr>node_mempool := mp\<rparr>, r))"

definition sovereign_height :: "node \<Rightarrow> u64" where
  "sovereign_height nd = (case last_header nd of Some h \<Rightarrow> block_n h | None \<Rightarrow> 0)"

end
