(* ===== verification/Subprocess_Executor.thy ===== *)
theory Subprocess_Executor
  imports Trace_Executor
begin

text \<open>
  The executor that runs the external \<open>wasm-run\<close> program, \<open>SubprocessTraceExecutor\<close> of
  \<open>sequencer/src/trace.rs\<close>. The file system and the external process are a parameter, the record \<open>host\<close>.
\<close>

section \<open>The host\<close>

text \<open>
  What the executor asks of the operating system: whether a temporary file with the given contents
  could be written, whether a path exists, and the run of \<open>uv run wasm-run\<close> in a directory, on a
  model file and an input text, with \<open>None\<close> for a process that could not be started.
\<close>

record process_output =
  status_success :: bool
  stdout :: bytes
  stderr :: bytes

record host =
  temp_file :: "bytes \<Rightarrow> bool"
  path_exists :: "rstring \<Rightarrow> bool"
  wasm_run :: "rstring \<Rightarrow> rstring \<Rightarrow> bytes \<Rightarrow> process_output option"

record subprocess_trace_executor =
  transformer_vm_path :: rstring
  weights_dir :: rstring

fun primitive_name :: "tx_kind \<Rightarrow> rstring" where
  "primitive_name Freeze = ascii ''ledger_freeze''"
| "primitive_name Transfer = ascii ''ledger_transfer''"
| "primitive_name Mint = ascii ''ledger_mint''"
| "primitive_name Burn = ascii ''ledger_burn''"
| "primitive_name MultiAsset = ascii ''ledger_multi_asset''"

fun token_line :: "rstring list \<Rightarrow> (rstring list, trace_error) res" where
  "token_line [] = Err NoTokens"
| "token_line (l # ls) =
     (case strip_prefix (ascii ''  Tokens: '') l of
        Some rest \<Rightarrow> Ok (split_whitespace rest)
      | None \<Rightarrow>
          (case strip_prefix (ascii ''Tokens: '') l of
             Some rest \<Rightarrow> Ok (split_whitespace rest)
           | None \<Rightarrow> token_line ls))"

definition extract_tokens_from_verbose :: "rstring \<Rightarrow> (rstring list, trace_error) res" where
  "extract_tokens_from_verbose out = token_line (str_lines out)"

definition subprocess_execute ::
  "xof \<Rightarrow> host \<Rightarrow> subprocess_trace_executor \<Rightarrow> signed_tx \<Rightarrow> witness \<Rightarrow> (trace_result, trace_error) res" where
  "subprocess_execute xof os self tx w =
     (let input = join_spaces (ascii ''start'' # encode_witness tx w);
          weights = path_join (weights_dir self) (primitive_name (kind tx) @ ascii ''.bin'')
      in if \<not> temp_file os input then Err TempFileFailed
         else if \<not> path_exists os weights then Err (WeightsMissing weights)
         else case wasm_run os (transformer_vm_path self) weights input of
                None \<Rightarrow> Err SpawnFailed
              | Some out \<Rightarrow>
                  if \<not> status_success out then Err (WasmRunFailed (from_utf8_lossy (stderr out)))
                  else and_then (extract_tokens_from_verbose (from_utf8_lossy (stdout out))) (\<lambda>tokens.
                       and_then (decode_output_accounts tokens (kind tx)) (\<lambda>accs.
                       Ok \<lparr> updated_accounts = accs, tr_trace_hash = hash_trace_owned xof tokens,
                            success = (accs \<noteq> []) \<rparr>)))"

text \<open>The trait \<open>TraceExecutor\<close>: the two implementations behind \<open>dyn TraceExecutor\<close>.\<close>

datatype trace_executor = NativeTraceExecutor | SubprocessTraceExecutor subprocess_trace_executor

fun execute_trace ::
  "xof \<Rightarrow> host \<Rightarrow> trace_executor \<Rightarrow> signed_tx \<Rightarrow> witness \<Rightarrow> (trace_result, trace_error) res" where
  "execute_trace xof os NativeTraceExecutor tx w = native_execute tx w"
| "execute_trace xof os (SubprocessTraceExecutor self) tx w = subprocess_execute xof os self tx w"

section \<open>Reading back what was printed\<close>

lemma strip_prefix_butlast:
  assumes "strip_prefix p l = None" shows "strip_prefix p (strip_cr l) = None"
proof -
  have "take (length p) l = p" if "take (length p) (butlast l) = p"
  proof -
    have "length p \<le> length (butlast l)" using that by (metis length_take min.cobounded1 min.commute)
    then show ?thesis using that by (simp add: take_butlast butlast_conv_take min_def split: if_splits)
  qed
  then show ?thesis using assms by (auto simp: strip_prefix_def strip_cr_def)
qed

lemma token_line_skips:
  "list_all (\<lambda>l. strip_prefix (ascii ''  Tokens: '') l = None \<and> strip_prefix (ascii ''Tokens: '') l = None) ls \<Longrightarrow>
     token_line (map strip_cr ls @ r) = token_line r"
  by (induction ls) (simp_all add: strip_prefix_butlast)

definition silent :: "rstring \<Rightarrow> bool" where
  "silent l \<longleftrightarrow> list_all (\<lambda>b. b < 0x80 \<and> b \<noteq> 10) l \<and>
     strip_prefix (ascii ''  Tokens: '') l = None \<and> strip_prefix (ascii ''Tokens: '') l = None"

lemma silent_lines:
  assumes "list_all silent ls"
  shows "ascii_text (concat (map (\<lambda>l. l @ [10]) ls))" "list_all (list_all (\<lambda>b. b \<noteq> 10)) ls"
    "list_all (\<lambda>l. strip_prefix (ascii ''  Tokens: '') l = None \<and> strip_prefix (ascii ''Tokens: '') l = None) ls"
  using assms by (induction ls) (auto simp: ascii_text_def silent_def list_all_iff)

lemma extract_printed:
  assumes "list_all silent ls" "list_all token_ok ts" "pre = ascii ''  Tokens: '' \<or> pre = ascii ''Tokens: ''"
  shows "extract_tokens_from_verbose (from_utf8_lossy (concat (map (\<lambda>l. l @ [10]) ls) @ pre @ join_spaces ts @ [10] @ rest)) = Ok ts"
proof -
  let ?line = "pre @ join_spaces ts"
  have bytes: "list_all (\<lambda>b. 32 \<le> b \<and> b < 0x80) ?line"
    using join_spaces_bytes [OF assms(2)] assms(3) by (auto simp: ascii_def)
  then have "ascii_text (?line @ [10])" by (auto simp: ascii_text_def list_all_iff)
  moreover have no_lf: "list_all (\<lambda>b. b \<noteq> 10) ?line" and no_cr: "list_all (\<lambda>b. b \<noteq> 13) ?line"
    by (rule list.pred_mono_strong [OF bytes], force)+
  moreover have "strip_cr ?line = ?line"
    using no_cr last_in_set [of ?line] by (auto simp: strip_cr_def list_all_iff simp del: last_append)
  ultimately have "str_lines (from_utf8_lossy (concat (map (\<lambda>l. l @ [10]) ls) @ pre @ join_spaces ts @ [10] @ rest)) =
      map strip_cr ls @ ?line # str_lines (from_utf8_lossy rest)"
    using silent_lines(1,2) [OF assms(1)] lossy_ascii [of "?line @ [10]" rest] lines_append [OF no_lf, of "[]"]
    by (simp add: str_lines_def lossy_ascii lines_block)
  moreover have "strip_prefix (ascii ''  Tokens: '') (ascii ''Tokens: '' @ r) = None" for r
    by (simp add: strip_prefix_def ascii_def)
  ultimately show ?thesis
    using assms(3) silent_lines(3) [OF assms(1)]
    by (auto simp: extract_tokens_from_verbose_def token_line_skips strip_prefix_append split_join [OF assms(2)])
qed

text \<open>Hexadecimal tokens.\<close>

lemma hex_byte_hex2: "hex_byte (hex2 b) = Some b"
proof -
  have "unat b div 16 < 16" using unat_u8_less [of b] by linarith
  then show ?thesis
    by (simp add: hex2_def hex_str_def hex_byte_def hex_value_digit)
qed

lemma hex2_token: "token_ok (hex2 b)" "length (hex2 b) = 2"
proof -
  have "unat b div 16 < 16" using unat_u8_less [of b] by linarith
  then show "token_ok (hex2 b)" "length (hex2 b) = 2"
    using hex_digit_plain by (simp_all add: token_ok_def hex2_def hex_str_def)
qed

lemma hex2_not_mark: "hex2 b \<noteq> ascii ''OUT''" "hex2 b \<noteq> ascii ''halt''"
  using hex2_token(2) [of b] by (auto dest: arg_cong [of _ _ length])

lemma halt_not_out: "ascii ''halt'' \<noteq> ascii ''OUT''"
  by (simp add: ascii_def)

lemma output_bytes_hex: "output_bytes True (map hex2 bs @ ascii ''halt'' # post) = bs"
  by (induction bs) (simp_all add: hex2_not_mark hex_byte_hex2 halt_not_out)

lemma output_bytes_prefix:
  "list_all (\<lambda>t. t \<noteq> ascii ''OUT'' \<and> t \<noteq> ascii ''halt'') pre \<Longrightarrow>
     output_bytes False (pre @ ascii ''OUT'' # r) = output_bytes True r"
  by (induction pre) simp_all

definition account_tokens :: "account list \<Rightarrow> rstring list" where
  "account_tokens accs = map hex2 (concat (map abytes accs))"

lemma subslice_concat:
  assumes "list_all (\<lambda>x. length x = n) xss" "i < length xss"
  shows "subslice (concat xss) (i * n) ((i + 1) * n) = xss ! i"
  using assms
proof (induction xss arbitrary: i)
  case (Cons x xss)
  then show ?case by (cases i) (simp_all add: subslice_def)
qed simp

lemma length_concat_eq: "list_all (\<lambda>x. length x = n) xss \<Longrightarrow> length (concat xss) = length xss * n"
  by (induction xss) simp_all

lemma decode_printed:
  assumes "list_all (\<lambda>t. t \<noteq> ascii ''OUT'' \<and> t \<noteq> ascii ''halt'') pre" "list_all account_wf accs"
    and "length accs = n_output_accounts k (concat (map abytes accs))"
  shows "decode_output_accounts (pre @ ascii ''OUT'' # account_tokens accs @ ascii ''halt'' # post) k = Ok accs"
proof -
  let ?b = "concat (map abytes accs)"
  have wf: "list_all (\<lambda>x. length x = 64) (map abytes accs)"
    using assms(2) by (simp add: list_all_iff account_wf_def account_consts)
  have "map (\<lambda>i. \<lparr> abytes = subslice ?b (i * 64) ((i + 1) * 64) \<rparr>) [0..<length accs] = accs"
    using subslice_concat [OF wf] by (intro nth_equalityI) simp_all
  then show ?thesis
    using assms(3) length_concat_eq [OF wf]
    by (simp add: decode_output_accounts_def account_tokens_def output_bytes_prefix [OF assms(1)] output_bytes_hex Let_def)
qed

definition ran :: "host \<Rightarrow> subprocess_trace_executor \<Rightarrow> signed_tx \<Rightarrow> witness \<Rightarrow> bytes \<Rightarrow> bool" where
  "ran os self tx w printed \<longleftrightarrow>
     (let input = join_spaces (ascii ''start'' # encode_witness tx w);
          weights = path_join (weights_dir self) (primitive_name (kind tx) @ ascii ''.bin'')
      in temp_file os input \<and> path_exists os weights \<and>
         (\<exists>out. wasm_run os (transformer_vm_path self) weights input = Some out \<and> status_success out \<and> stdout out = printed))"

text \<open>
  C32. The external executor reads back what the external program prints: whatever other ASCII lines
  come first and whatever bytes follow, from a token line with the output accounts in
  hexadecimal between \<open>OUT\<close> and \<open>halt\<close> it returns exactly these accounts, and the trace hash is
  that of the printed tokens.
\<close>

theorem subprocess_reads_accounts:
  assumes "ran os self tx w (concat (map (\<lambda>l. l @ [10]) ls) @ mark @ join_spaces ts @ [10] @ rest)"
    and "list_all silent ls" "mark = ascii ''  Tokens: '' \<or> mark = ascii ''Tokens: ''" "list_all token_ok ts"
    and "ts = before @ ascii ''OUT'' # account_tokens accs @ ascii ''halt'' # after"
    and "list_all (\<lambda>t. t \<noteq> ascii ''OUT'' \<and> t \<noteq> ascii ''halt'') before"
    and "list_all account_wf accs" "length accs = n_output_accounts (kind tx) (concat (map abytes accs))"
  shows "subprocess_execute xof os self tx w =
    Ok \<lparr> updated_accounts = accs, tr_trace_hash = hash_trace_owned xof ts, success = (accs \<noteq> []) \<rparr>"
proof -
  obtain out where out: "status_success out"
      "stdout out = concat (map (\<lambda>l. l @ [10]) ls) @ mark @ join_spaces ts @ [10] @ rest"
      and run: "temp_file os (join_spaces (ascii ''start'' # encode_witness tx w))"
      "path_exists os (path_join (weights_dir self) (primitive_name (kind tx) @ ascii ''.bin''))"
      "wasm_run os (transformer_vm_path self) (path_join (weights_dir self) (primitive_name (kind tx) @ ascii ''.bin''))
         (join_spaces (ascii ''start'' # encode_witness tx w)) = Some out"
    using assms(1) by (auto simp: ran_def Let_def)
  have "decode_output_accounts ts (kind tx) = Ok accs"
    unfolding assms(5) by (rule decode_printed [OF assms(6-8)])
  then show ?thesis
    using extract_printed [OF assms(2,4,3), of rest] out run by (simp add: subprocess_execute_def)
qed

definition printing_host :: "bytes \<Rightarrow> host" where
  "printing_host printed =
     \<lparr> temp_file = (\<lambda>_. True), path_exists = (\<lambda>_. True),
       wasm_run = (\<lambda>_ _ _. Some \<lparr> status_success = True, stdout = printed, stderr = [] \<rparr>) \<rparr>"

definition printed_account :: account where
  "printed_account = \<lparr> abytes = replicate 64 7 \<rparr>"

definition printed_tokens :: "rstring list" where
  "printed_tokens = [ascii ''start''] @ ascii ''OUT'' # account_tokens [printed_account] @ ascii ''halt'' # []"

definition any_freeze :: signed_tx where
  "any_freeze = \<lparr> kind = Freeze, asset_id = 1, tx_nonce = 1, signer = replicate 32 9, recipient = None, amount = replicate 16 0, flag = 1,
     court_order_hash = None, multi_payload = None, originator_metadata = None, signature = replicate 64 0 \<rparr>"

lemma printed_tokens_ok: "list_all token_ok printed_tokens"
  by (simp add: printed_tokens_def account_tokens_def printed_account_def list_all_iff hex2_token) (simp add: token_ok_def ascii_def)

theorem subprocess_reads_accounts_witness:
  "subprocess_execute (\<lambda>_ n. replicate n 0) (printing_host (ascii ''loading'' @ [10] @ ascii ''  Tokens: '' @ join_spaces printed_tokens @ [10, 0xFF]))
     \<lparr> transformer_vm_path = [], weights_dir = ascii ''weights'' \<rparr> any_freeze
     \<lparr> epoch = 0, w_accounts = [printed_account], w_amount = replicate 16 0, w_flag = 1 \<rparr> =
   Ok \<lparr> updated_accounts = [printed_account], tr_trace_hash = hash_trace_owned (\<lambda>_ n. replicate n 0) printed_tokens, success = True \<rparr>"
proof -
  let ?w = "\<lparr> epoch = 0, w_accounts = [printed_account], w_amount = replicate 16 0, w_flag = 1 \<rparr>"
  have "silent (ascii ''loading'')" by (simp add: silent_def strip_prefix_def ascii_def)
  moreover have "ascii ''start'' \<noteq> ascii ''OUT''" "ascii ''start'' \<noteq> ascii ''halt''" by (simp_all add: ascii_def)
  ultimately show ?thesis
    using subprocess_reads_accounts [where ls = "[ascii ''loading'']" and mark = "ascii ''  Tokens: ''" and ts = printed_tokens
        and rest = "[0xFF]" and before = "[ascii ''start'']" and after = "[]" and accs = "[printed_account]" and tx = any_freeze and xof = "\<lambda>_ n. replicate n 0"
        and self = "\<lparr> transformer_vm_path = [], weights_dir = ascii ''weights'' \<rparr>" and w = ?w, OF _ _ _ printed_tokens_ok printed_tokens_def]
    by (simp add: ran_def printing_host_def printed_account_def account_wf_def account_consts any_freeze_def n_output_accounts_def)
qed

end
