(* ===== verification/Sequencer_Service.thy ===== *)
theory Sequencer_Service
  imports Sequencer Subprocess_Executor "HOL-Library.Sublist"
begin

text \<open>
  The sequencer as a service: configuration (\<open>sequencer/src/config.rs\<close>), the node with its choice of
  executor and the block-production loop (\<open>node.rs\<close>), the process entry (\<open>main.rs\<close>), the request types and
  routes (\<open>rpc.rs\<close>), the compliance records (\<open>compliance.rs\<close>), and the consensus interface with its two
  front ends (\<open>consensus/src\<close>). The file system, the TOML parser and the clock are parameters.
\<close>

section \<open>config.rs\<close>

record config =
  data_dir :: rstring
  cfg_weights_dir :: rstring
  cfg_transformer_vm_path :: rstring
  rpc_listen :: rstring
  sequencer_secret :: bytes
  block_interval_ms :: u64
  cfg_block_size :: usize

datatype config_error = ConfigIo | ConfigToml

definition config_load ::
  "(rstring \<Rightarrow> rstring option) \<Rightarrow> (rstring \<Rightarrow> config option) \<Rightarrow> rstring \<Rightarrow> (config, config_error) res" where
  "config_load read_to_string toml path =
     and_then (ok_or ConfigIo (read_to_string path)) (\<lambda>text. ok_or ConfigToml (toml text))"

definition config_keypair :: "config \<Rightarrow> keypair" where
  "config_keypair cfg = from_seed (sequencer_secret cfg)"

section \<open>node.rs\<close>

text \<open>\<open>node\<close> holds the part of the structure block production works on; here it is with the rest.\<close>

record sequencer_node =
  sn_cfg :: config
  sn_node :: node
  sn_trace :: trace_executor

definition choose_executor :: "host \<Rightarrow> config \<Rightarrow> trace_executor" where
  "choose_executor os cfg =
     (let weights = cfg_weights_dir cfg
      in if path_exists os weights \<and> path_exists os (path_join weights (ascii ''ledger_transfer.bin''))
         then SubprocessTraceExecutor \<lparr> transformer_vm_path = cfg_transformer_vm_path cfg, weights_dir = weights \<rparr>
         else NativeTraceExecutor)"

definition sequencer_node_new :: "xof \<Rightarrow> host \<Rightarrow> config \<Rightarrow> sequencer_node" where
  "sequencer_node_new xof os cfg =
     \<lparr> sn_cfg = cfg, sn_node = node_new xof (config_keypair cfg) (cfg_block_size cfg),
       sn_trace = choose_executor os cfg \<rparr>"

text \<open>\<open>chrono_now_ms\<close>: the milliseconds since the epoch, or 0 for a clock before it.\<close>

definition chrono_now_ms :: "int \<Rightarrow> u64" where
  "chrono_now_ms since_epoch = (if since_epoch < 0 then 0 else of_int since_epoch)"

text \<open>
  One turn of the loop of \<open>run_sequencer\<close>: an error is logged and the loop goes on. The blocks the
  loop reports and the warnings it logs are kept in the order they come.
\<close>

record service =
  srv_node :: sequencer_node
  produced :: "block list"
  warnings :: "node_error list"

definition service_start :: "xof \<Rightarrow> host \<Rightarrow> config \<Rightarrow> service" where
  "service_start xof os cfg = \<lparr> srv_node = sequencer_node_new xof os cfg, produced = [], warnings = [] \<rparr>"

definition tick :: "xof \<Rightarrow> ed25519 \<Rightarrow> host \<Rightarrow> int \<Rightarrow> int \<Rightarrow> service \<Rightarrow> (service, node_error) res" where
  "tick xof ed os t1 t2 srv =
     (let sn = srv_node srv
      in case produce_block xof ed (execute_trace xof os (sn_trace sn)) (chrono_now_ms t1) (chrono_now_ms t2) (sn_node sn) of
           (nd, r) \<Rightarrow>
             let srv' = srv\<lparr>srv_node := sn\<lparr>sn_node := nd\<rparr>\<rparr>
             in case r of
                  Ok None \<Rightarrow> Ok srv'
                | Ok (Some b) \<Rightarrow> Ok (srv'\<lparr>produced := produced srv @ [b]\<rparr>)
                | Err e \<Rightarrow> Ok (srv'\<lparr>warnings := warnings srv @ [e]\<rparr>)
                | Panic \<Rightarrow> Panic)"

text \<open>
  \<open>run_sequencer\<close> never returns: its behaviour is that of every finite number of turns, each with its two
  readings of the clock. A period of zero makes \<open>tokio::time::interval\<close> panic.
\<close>

definition run_sequencer ::
  "xof \<Rightarrow> ed25519 \<Rightarrow> host \<Rightarrow> (int \<times> int) list \<Rightarrow> service \<Rightarrow> (service, node_error) res" where
  "run_sequencer xof ed os readings srv =
     (if block_interval_ms (sn_cfg (srv_node srv)) = 0 then Panic
      else for_each readings (\<lambda>(t1, t2). tick xof ed os t1 t2) srv)"

definition run_follower :: "rstring \<Rightarrow> sequencer_node \<Rightarrow> sequencer_node \<times> (unit, node_error) res" where
  "run_follower remote sn = (sn, Ok ())"

section \<open>main.rs\<close>

record cli =
  cli_config :: rstring
  follower :: "rstring option"

datatype started = Following sequencer_node | Sequencing service

definition sequencer_main ::
  "xof \<Rightarrow> host \<Rightarrow> (rstring \<Rightarrow> rstring option) \<Rightarrow> (rstring \<Rightarrow> config option) \<Rightarrow> cli \<Rightarrow> (started, config_error) res" where
  "sequencer_main xof os read_to_string toml args =
     and_then (config_load read_to_string toml (cli_config args)) (\<lambda>cfg.
     case follower args of
       Some remote \<Rightarrow> Ok (Following (fst (run_follower remote (sequencer_node_new xof os cfg))))
     | None \<Rightarrow> Ok (Sequencing (service_start xof os cfg)))"

section \<open>rpc.rs\<close>

record rpc_state = rpc_node :: node
record get_account_req = pubkey_hex :: rstring
record get_account_resp = account_bytes_hex :: rstring

definition rpc_handler :: "(rstring \<Rightarrow> bytes option) \<Rightarrow> rpc_state \<Rightarrow> get_account_req \<Rightarrow> get_account_resp" where
  "rpc_handler hex_decode st req = \<lparr> account_bytes_hex = rpc_get_account hex_decode (rpc_node st) (pubkey_hex req) \<rparr>"

definition rpc_router ::
  "(rstring \<Rightarrow> bytes option) \<Rightarrow> rpc_state \<Rightarrow> rstring \<rightharpoonup> (get_account_req \<Rightarrow> get_account_resp)" where
  "rpc_router hex_decode st = [ascii ''/rpc/get_account'' \<mapsto> rpc_handler hex_decode st]"

section \<open>compliance.rs\<close>

record view_key =
  regulator_pubkey :: bytes
  vk_asset_id :: u32
  account_filter :: "bytes list"
  issuer_signature :: bytes

record regulator_access_proof =
  rap_header :: block_header
  account_pubkey :: bytes
  rap_proof :: merkle_proof

record freeze_record =
  fr_block_n :: u64
  frozen_account :: bytes
  fr_court_order_hash :: hash
  fr_asset_id :: u32
  fr_timestamp_ms :: u64
  issuer_pubkey :: bytes

section \<open>consensus\<close>

datatype consensus_error = Refused tx_error | Bail rstring

record 's consensus =
  submit_tx :: "signed_tx \<Rightarrow> 's \<Rightarrow> 's \<times> (unit, consensus_error) res"
  next_block :: "'s \<Rightarrow> (block, consensus_error) res"
  height :: "'s \<Rightarrow> u64"
  mode :: rstring

record sovereign =
  sov_node :: node
  finalized :: "block list"

definition sovereign_new :: "node \<Rightarrow> sovereign" where
  "sovereign_new nd = \<lparr> sov_node = nd, finalized = [] \<rparr>"

definition sovereign_consensus :: "xof \<Rightarrow> ed25519 \<Rightarrow> json \<Rightarrow> sovereign consensus" where
  "sovereign_consensus xof ed js =
     \<lparr> submit_tx = (\<lambda>tx s. let (nd, r) = sovereign_submit_tx xof ed js tx (sov_node s)
                            in (s\<lparr>sov_node := nd\<rparr>, map_err Refused r)),
       next_block = (\<lambda>_. Err (Bail (ascii ''sovereign next_block: connect to node's block-production loop''))),
       height = (\<lambda>s. sovereign_height (sov_node s)),
       mode = ascii ''sovereign'' \<rparr>"

record abci_comet_bft = abci_node :: node

definition abci_consensus :: "abci_comet_bft consensus" where
  "abci_consensus =
     \<lparr> submit_tx = (\<lambda>_ s. (s, Err (Bail (ascii ''ABCI integration not yet implemented; see docs/CONSENSUS_DECISION.md'')))),
       next_block = (\<lambda>_. Err (Bail (ascii ''ABCI integration not yet implemented''))),
       height = (\<lambda>_. 0),
       mode = ascii ''abci-cometbft'' \<rparr>"

end
