(* ===== verification/Sequencer_Laws.thy ===== *)
theory Sequencer_Laws
  imports Sequencer
begin

text \<open>
  What the sequencer's operations do to the ledger: the invariant of the account store, the
  effect of one transaction on balances and nonces, and what
  validation and block production guarantee.
\<close>

section \<open>The account store\<close>

definition state_ok :: "state \<Rightarrow> bool" where
  "state_ok s \<longleftrightarrow>
     (\<forall>k v. smt_get (accounts s) k = Some v \<longrightarrow> length v = 64 \<and> length k = 32 \<and> pubkey \<lparr> abytes = v \<rparr> = k)"

lemma state_ok_new: "state_ok (state_new xof)"
  by (simp add: state_ok_def state_new_def smt_get_def smt_new_def Let_def)

lemma account_new_overwrite: "\<lparr> abytes = overwrite 0 pk (abytes account_default) \<rparr> = account_new pk"
  by (simp add: account_new_def account_default_def account_consts)

lemma state_account_new: "state_account (state_new xof) pk = account_new pk"
  by (simp add: state_account_def state_new_def smt_new_def smt_get_def Let_def account_new_overwrite)

lemma state_account_wf:
  assumes "state_ok s" "length pk = 32"
  shows "account_wf (state_account s pk)" "pubkey (state_account s pk) = pk"
  using assms
  by (auto simp: state_account_def state_ok_def account_new_overwrite account_new_values
      account_wf_def account_consts split: option.splits)
     (simp_all add: account_new_def overwrite_def account_consts)

lemma get_put_account:
  "account_wf a \<Longrightarrow>
     smt_get (accounts (put_account xof a s)) k = (if k = pubkey a then Some (abytes a) else smt_get (accounts s) k)"
  by (auto simp: put_account_def smt_get_def account_wf_def account_consts)

lemma state_account_put:
  assumes "account_wf a"
  shows "state_account (put_account xof a s) k = (if k = pubkey a then a else state_account s k)"
  using assms get_put_account [OF assms, of xof s]
  by (simp add: state_account_def account_wf_def account_consts)

lemma pubkey_length: "account_wf a \<Longrightarrow> length (pubkey a) = 32"
  by (simp add: pubkey_def account_wf_def account_consts)

lemma account_eta [simp]: "\<lparr> abytes = abytes a \<rparr> = (a :: account)"
  by (cases a) simp

lemma state_ok_put:
  assumes "state_ok s" "account_wf a"
  shows "state_ok (put_account xof a s)"
  using assms get_put_account [OF assms(2), of xof s] pubkey_length [OF assms(2)]
  by (auto simp: state_ok_def account_wf_def account_consts)

lemma registry_put_account [simp]: "registry (put_account xof a s) = registry s"
  by (simp add: put_account_def)

section \<open>One transaction\<close>

text \<open>The debit and the credit side of a transfer, as the native executor computes them.\<close>

definition debit :: "u128 \<Rightarrow> u32 \<Rightarrow> account \<Rightarrow> account" where
  "debit amt ep a =
     set_last_active (ucast ep) (set_nonce (nonce (set_balance (balance a - amt) a) + 1) (set_balance (balance a - amt) a))"

definition credit :: "u128 \<Rightarrow> u32 \<Rightarrow> account \<Rightarrow> account" where
  "credit amt ep a = set_last_active (ucast ep) (set_balance (balance a + amt) a)"

lemma native_transfer_cases:
  "native_transfer \<lparr> epoch = ep, w_accounts = [f, t], w_amount = m, w_flag = fl \<rparr> =
     Ok (if is_frozen f \<or> balance f < u128_from_le m
         then \<lparr> updated_accounts = [account_default, account_default],
                tr_trace_hash = NATIVE_TRACE_MARKER, success = False \<rparr>
         else \<lparr> updated_accounts = [debit (u128_from_le m) ep f, credit (u128_from_le m) ep t],
                tr_trace_hash = NATIVE_TRACE_MARKER, success = True \<rparr>)"
  by (simp add: native_transfer_def Let_def debit_def credit_def)

lemma unat_balance_bound: "account_wf a \<Longrightarrow> unat (balance a) < 2 ^ 127"
  by (simp add: unat_balance del: power_numeral)

lemma debit_effect:
  assumes "account_wf a" "amt \<le> balance a"
  shows "account_wf (debit amt ep a)" "pubkey (debit amt ep a) = pubkey a"
    "unat (balance (debit amt ep a)) = unat (balance a) - unat amt"
    "nonce (debit amt ep a) = nonce a + 1" "is_frozen (debit amt ep a) \<longleftrightarrow> is_frozen a"
proof -
  have "unat (balance a - amt) = unat (balance a) - unat amt"
    using assms(2) by (simp add: unat_sub_if' word_le_nat_alt)
  then have b: "unat (balance a - amt) < 2 ^ 127"
    using unat_balance_bound [OF assms(1)] by linarith
  then show "unat (balance (debit amt ep a)) = unat (balance a) - unat amt"
    using assms \<open>unat (balance a - amt) = unat (balance a) - unat amt\<close>
    by (simp add: debit_def account_frame del: power_numeral)
  show "is_frozen (debit amt ep a) \<longleftrightarrow> is_frozen a"
    using assms b by (simp add: debit_def account_frame not_le del: power_numeral)
qed (use assms in \<open>simp_all add: debit_def account_frame\<close>)

lemma credit_effect:
  assumes "account_wf a"
  shows "account_wf (credit amt ep a)" "pubkey (credit amt ep a) = pubkey a"
    "unat (balance (credit amt ep a)) = (unat (balance a) + unat amt) mod 2 ^ 127"
    "nonce (credit amt ep a) = nonce a"
    "unat amt < 2 ^ 127 \<Longrightarrow> is_frozen (credit amt ep a) \<longleftrightarrow> is_frozen a \<or> 2 ^ 127 \<le> unat (balance a) + unat amt"
proof -
  have "unat (balance a + amt) mod 2 ^ 127 = (unat (balance a) + unat amt) mod 2 ^ 127"
    by (simp add: unat_word_ariths mod_mod_cancel le_imp_power_dvd)
  then show "unat (balance (credit amt ep a)) = (unat (balance a) + unat amt) mod 2 ^ 127"
    using assms by (simp add: credit_def account_frame del: power_numeral)
  show "is_frozen (credit amt ep a) \<longleftrightarrow> is_frozen a \<or> 2 ^ 127 \<le> unat (balance a) + unat amt"
    if "unat amt < 2 ^ 127"
  proof -
    have "unat (balance a) + unat amt < 2 ^ LENGTH(128)"
      using that unat_balance_bound [OF assms] by simp
    then show ?thesis
      using assms by (simp add: credit_def account_frame unat_plus_no_overflow del: power_numeral)
  qed
qed (use assms in \<open>simp_all add: credit_def account_frame\<close>)

section \<open>Transfers\<close>

definition transfer_ok :: "signed_tx \<Rightarrow> hash \<Rightarrow> bool" where
  "transfer_ok tx to \<longleftrightarrow> kind tx = Transfer \<and> recipient tx = Some to \<and> length (signer tx) = 32 \<and>
     length to = 32 \<and> length (amount tx) = 16"

definition payable :: "state \<Rightarrow> signed_tx \<Rightarrow> bool" where
  "payable s tx \<longleftrightarrow>
     \<not> (is_frozen (state_account s (signer tx)) \<or>
        balance (state_account s (signer tx)) < u128_from_le (amount tx))"

definition after_transfer :: "xof \<Rightarrow> u32 \<Rightarrow> signed_tx \<Rightarrow> hash \<Rightarrow> state \<Rightarrow> state" where
  "after_transfer xof ep tx to s =
     (if payable s tx
      then put_account xof (credit (u128_from_le (amount tx)) ep (state_account s to))
            (put_account xof (debit (u128_from_le (amount tx)) ep (state_account s (signer tx))) s)
      else s)"

lemma process_transfer:
  assumes "transfer_ok tx to"
  shows "process_txs xof native_execute ep s (tx # txs) =
    (let (s', r) = process_txs xof native_execute ep (after_transfer xof ep tx to s) txs
     in (s', and_then r (\<lambda>hs. Ok (NATIVE_TRACE_MARKER # hs))))"
  using assms
  by (simp add: transfer_ok_def assemble_witness_def native_execute_def native_transfer_cases
      after_transfer_def payable_def Let_def)

abbreviation bal :: "state \<Rightarrow> hash \<Rightarrow> nat" where
  "bal s k \<equiv> unat (balance (state_account s k))"

lemma after_transfer_accounts:
  assumes "state_ok s" "transfer_ok tx to" "signer tx \<noteq> to" "payable s tx"
  shows "state_account (after_transfer xof ep tx to s) k =
    (if k = to then credit (u128_from_le (amount tx)) ep (state_account s to)
     else if k = signer tx then debit (u128_from_le (amount tx)) ep (state_account s (signer tx))
     else state_account s k)"
proof -
  let ?f = "state_account s (signer tx)" and ?t = "state_account s to"
  have wf: "account_wf ?f" "account_wf ?t" "pubkey ?f = signer tx" "pubkey ?t = to"
    using assms(1,2) by (simp_all add: transfer_ok_def state_account_wf)
  have "u128_from_le (amount tx) \<le> balance ?f" using assms(4) by (simp add: payable_def not_less)
  then show ?thesis
    using assms(4) wf by (simp add: after_transfer_def state_account_put debit_effect credit_effect)
qed

lemma state_ok_after_transfer:
  assumes "state_ok s" "transfer_ok tx to"
  shows "state_ok (after_transfer xof ep tx to s)"
proof -
  have wf: "account_wf (state_account s (signer tx))" "account_wf (state_account s to)"
    using assms by (simp_all add: transfer_ok_def state_account_wf)
  then show ?thesis
    using assms(1) by (simp add: after_transfer_def state_ok_put payable_def not_less debit_effect credit_effect)
qed

section \<open>The other kinds\<close>

definition target :: "signed_tx \<Rightarrow> hash" where
  "target tx = (case recipient tx of Some r \<Rightarrow> r | None \<Rightarrow> signer tx)"

lemma target_account:
  "(case recipient tx of Some r \<Rightarrow> r | None \<Rightarrow> signer tx) = target tx"
  by (simp add: target_def)

lemma process_mint:
  assumes "kind tx = Mint" "state_ok s" "length (target tx) = 32"
    and "bal s (target tx) + unat (u128_from_le (amount tx)) < 2 ^ 128"
  shows "process_txs xof native_execute ep s [tx] =
    (put_account xof (credit (u128_from_le (amount tx)) ep (state_account s (target tx))) s,
     Ok [NATIVE_TRACE_MARKER])"
  using assms
  by (simp add: assemble_witness_def native_execute_def native_mint_def Let_def checked_add_def
      target_account credit_def del: power_numeral)

lemma process_burn:
  assumes "kind tx = Burn" "u128_from_le (amount tx) \<le> balance (state_account s (signer tx))"
  shows "process_txs xof native_execute ep s [tx] =
    (put_account xof
       (set_last_active (ucast ep)
         (set_balance (balance (state_account s (signer tx)) - u128_from_le (amount tx))
           (state_account s (signer tx)))) s,
     Ok [NATIVE_TRACE_MARKER])"
  using assms
  by (simp add: assemble_witness_def native_execute_def native_burn_def Let_def not_less [symmetric])

lemma process_freeze:
  assumes "kind tx = Freeze"
  shows "process_txs xof native_execute ep s [tx] =
    (put_account xof (set_frozen (flag tx \<noteq> 0) (state_account s (target tx))) s, Ok [NATIVE_TRACE_MARKER])"
  using assms
  by (simp add: assemble_witness_def native_execute_def native_freeze_def Let_def target_account)

section \<open>Validation\<close>

lemma check_nonce_Ok:
  "check_nonce tx a = Ok () \<longleftrightarrow>
     (kind tx \<in> {Transfer, Burn} \<longrightarrow> tx_nonce tx = nonce a + 1 \<and> \<not> is_frozen a) \<and>
     (kind tx = MultiAsset \<longrightarrow> tx_nonce tx = nonce a + 1)"
  by (cases "kind tx") (auto simp: check_nonce_def)

lemma check_authority_Ok:
  "check_authority tx r = Ok () \<longleftrightarrow>
     (kind tx \<in> {Mint, Burn, Freeze} \<longrightarrow> signer tx = authority_pubkey r) \<and>
     (kind tx = Mint \<longrightarrow> mint_enabled r) \<and> (kind tx = Burn \<longrightarrow> burn_enabled r) \<and>
     (kind tx = Freeze \<longrightarrow> freeze_enabled r \<and> court_order_hash tx \<noteq> None)"
  by (cases "kind tx") (auto simp: check_authority_def)

lemma check_travel_rule_Ok:
  "check_travel_rule tx r = Ok () \<longleftrightarrow>
     (kind tx \<in> {Transfer, MultiAsset} \<longrightarrow> originator_metadata tx \<noteq> None \<or>
        u128_from_le (travel_rule_threshold r) \<noteq> 0 \<and>
        \<not> u128_from_le (travel_rule_threshold r) < u128_from_le (amount tx))"
  by (cases "kind tx") (auto simp: check_travel_rule_def Let_def)

lemmas validate_checks = check_nonce_Ok check_authority_Ok check_travel_rule_Ok

lemma unit_res: "(r :: (unit, 'e) res) = Ok u \<longleftrightarrow> r = Ok ()"
  by (cases u) simp

lemma validate_Ok:
  "validate ed tx s reg = Ok () \<longleftrightarrow>
     verify ed (signer tx) (canonical tx) (signature tx) = Ok () \<and>
     check_nonce tx (state_account s (signer tx)) = Ok () \<and>
     (\<exists>r. reg (asset_id tx) = Some r \<and> check_authority tx r = Ok () \<and> check_travel_rule tx r = Ok ())"
  by (auto simp: validate_def and_then_Ok_iff map_err_Ok_iff ok_or_def split: option.splits)

lemma ingress_Ok:
  "snd (ingress ed mp tx s reg) = Ok () \<longleftrightarrow>
     length (queue mp) < capacity mp \<and> validate ed tx s reg = Ok ()"
  by (auto simp: ingress_def split: res.splits)

lemma ingress_queue:
  "queue (fst (ingress ed mp tx s reg)) =
     (if snd (ingress ed mp tx s reg) = Ok () then queue mp @ [tx] else queue mp)"
  "capacity (fst (ingress ed mp tx s reg)) = capacity mp"
  by (auto simp: ingress_def split: res.splits)

lemma validate_no_panic: "validate ed tx s reg \<noteq> Panic"
proof -
  have "check_nonce tx a \<noteq> Panic" "check_authority tx r \<noteq> Panic" "check_travel_rule tx r \<noteq> Panic" for a r
    by (simp_all add: check_nonce_def check_authority_def check_travel_rule_def Let_def split: tx_kind.split)
  moreover have "map_err BadSignature (verify ed pk m sg) \<noteq> Panic"
    "ok_or UnknownAsset (opt :: issuer_record option) \<noteq> Panic" for pk m sg opt
    by (simp_all add: verify_def ok_or_def split: option.split)
  ultimately show ?thesis unfolding validate_def by (intro and_then_no_panic) auto
qed

text \<open>A submission is queued or leaves the node as it was.\<close>

lemma submit_outcome:
  "if length (queue (node_mempool nd)) < capacity (node_mempool nd) \<and>
      validate ed tx (node_state nd) (lookup_issuer xof js nd) = Ok ()
   then sovereign_submit_tx xof ed js tx nd =
     (nd\<lparr>node_mempool := (node_mempool nd)\<lparr>queue := queue (node_mempool nd) @ [tx]\<rparr>\<rparr>, Ok ())
   else \<exists>e. sovereign_submit_tx xof ed js tx nd = (nd, Err e)"
  using validate_no_panic [of ed tx "node_state nd" "lookup_issuer xof js nd"]
  by (cases "validate ed tx (node_state nd) (lookup_issuer xof js nd)")
     (auto simp: sovereign_submit_tx_def ingress_def)

lemma lookup_registered:
  "to_vec js r \<noteq> [] \<Longrightarrow> lookup_issuer xof js (register_issuer xof js r nd) (ir_asset_id r) = from_slice js (to_vec js r)"
  by (simp add: lookup_issuer_def register_issuer_def issuer_key_def smt_get_def Let_def)

lemma register_frame:
  "node_mempool (register_issuer xof js r nd) = node_mempool nd"
  "state_account (node_state (register_issuer xof js r nd)) pk = state_account (node_state nd) pk"
  by (simp_all add: register_issuer_def state_account_def Let_def)

section \<open>Replays\<close>

lemma validate_depends:
  assumes "validate ed tx s reg = Ok ()"
    and "nonce (state_account s' (signer tx)) = nonce (state_account s (signer tx))"
    and "is_frozen (state_account s' (signer tx)) \<longleftrightarrow> is_frozen (state_account s (signer tx))"
  shows "validate ed tx s' reg = Ok ()"
  using assms by (simp add: validate_Ok check_nonce_Ok)

lemma ingress_twice:
  assumes "validate ed tx s reg = Ok ()" "length (queue mp) + 2 \<le> capacity mp"
  shows "ingress ed mp tx s reg = (mp\<lparr>queue := queue mp @ [tx]\<rparr>, Ok ())"
    "ingress ed (fst (ingress ed mp tx s reg)) tx s reg = (mp\<lparr>queue := queue mp @ [tx, tx]\<rparr>, Ok ())"
  using assms by (simp_all add: ingress_def)

section \<open>Blocks\<close>

lemma process_txs_append:
  assumes "process_txs xof exec ep s xs = (s1, Ok hs)"
  shows "process_txs xof exec ep s (xs @ ys) =
    (let (s2, r) = process_txs xof exec ep s1 ys in (s2, and_then r (\<lambda>hs'. Ok (hs @ hs'))))"
  using assms
proof (induction xs arbitrary: s hs)
  case Nil
  have "and_then r (\<lambda>hs'. Ok hs') = r" for r :: "(hash list, node_error) res" by (cases r) simp_all
  with Nil show ?case by (simp split: prod.splits)
next
  case (Cons x xs)
  then obtain r s0 hs0 where r: "and_then (assemble_witness s x ep) (\<lambda>w. map_err TraceFailed (exec x w)) = Ok r"
    and s0: "s0 = (if success r then fold (put_account xof) (updated_accounts r) s else s)"
    and p: "process_txs xof exec ep s0 xs = (s1, Ok hs0)" and hs: "hs = tr_trace_hash r # hs0"
    by (auto simp: Let_def and_then_Ok_iff split: res.splits prod.splits if_splits)
  have step: "process_txs xof exec ep s (x # zs) =
      (let (s'', rest) = process_txs xof exec ep s0 zs in (s'', and_then rest (\<lambda>hs. Ok (tr_trace_hash r # hs))))" for zs
    using r by (simp add: s0 Let_def)
  have assoc: "and_then (and_then q (\<lambda>hs'. Ok (hs0 @ hs'))) (\<lambda>hs. Ok (tr_trace_hash r # hs)) =
      and_then q (\<lambda>hs'. Ok (hs @ hs'))" for q :: "(hash list, node_error) res"
    by (cases q) (simp_all add: hs)
  show ?case
    using Cons.IH [OF p] unfolding append_Cons step
    by (simp add: assoc Let_def split: prod.splits)
qed

lemma process_poison:
  assumes "process_txs xof exec ep s pre = (s1, Ok hs)" "kind bad = Transfer" "recipient bad = None"
  shows "process_txs xof exec ep s (pre @ bad # post) = (s1, Err MissingRecipient)"
  using assms(2,3) by (simp add: process_txs_append [OF assms(1)] assemble_witness_def)

text \<open>What a produced block is: the drained prefix of the queue under a signed header.\<close>

lemma produce_block_Some:
  assumes "produce_block xof ed exec now1 now2 nd = (nd', Ok (Some blk))"
  defines "h \<equiv> blk_header blk"
  shows "last_header nd' = Some h" "node_keypair nd' = node_keypair nd"
    "blk_txs blk = take (block_size nd) (queue (node_mempool nd))"
    "queue (node_mempool nd') = drop (block_size nd) (queue (node_mempool nd))"
    "prev_state_root h = accounts_root (node_state nd)"
    "new_state_root h = accounts_root (node_state nd')"
    "issuer_registry_root h = registry_root (node_state nd')"
    "hdr_tx_list_hash h = tx_list_hash xof (blk_txs blk)"
    "parent_hash h = (case last_header nd of Some p \<Rightarrow> header_hash xof p | None \<Rightarrow> replicate 32 0)"
    "block_n h = (case last_header nd of Some p \<Rightarrow> block_n p + 1 | None \<Rightarrow> 0)"
    "sequencer_pubkey h = kp_public ed (node_keypair nd)"
    "sequencer_sig h = kp_sign ed (node_keypair nd) (signing_bytes h)"
  using assms
  by (auto simp: produce_block_def Let_def drain_def sign_header_def signing_bytes_def min_def
      split: if_splits prod.splits res.splits option.splits)

end
