(* ===== verification/Ledger_Spec.thy ===== *)
theory Ledger_Spec
  imports Sequencer_Laws
begin

text \<open>
  The ledger as an abstract machine. An account is a balance, a nonce and a frozen flag; the ledger
  is a function from keys to accounts, and a transaction a function on ledgers. The native
  block execution on byte records in a Merkle tree refines this machine, for every batch
  and every branch, the failing ones included. The time of last activity is left out:
  it comes from the clock and no decision depends on it.
\<close>

section \<open>The abstract machine\<close>

record entry =
  e_balance :: nat
  e_nonce :: u64
  e_frozen :: bool

type_synonym ledger = "hash \<Rightarrow> entry"

definition empty_entry :: entry where
  "empty_entry = \<lparr> e_balance = 0, e_nonce = 0, e_frozen = False \<rparr>"

text \<open>Writing a balance: the record has 127 bits for it, and the bit above is the frozen flag.\<close>

definition store :: "nat \<Rightarrow> entry \<Rightarrow> entry" where
  "store v e = e\<lparr>e_balance := v mod 2 ^ 127, e_frozen := e_frozen e \<or> 2 ^ 127 \<le> v\<rparr>"

definition tx_amount :: "signed_tx \<Rightarrow> nat" where
  "tx_amount tx = unat (u128_from_le (amount tx))"

definition apply_tx :: "signed_tx \<Rightarrow> ledger \<Rightarrow> ledger" where
  "apply_tx tx L =
     (let amt = tx_amount tx; from = signer tx; to = target tx
      in case kind tx of
           Freeze \<Rightarrow> L(to := (L to)\<lparr>e_frozen := flag tx \<noteq> 0\<rparr>)
         | Mint \<Rightarrow>
             if e_balance (L to) + amt < 2 ^ 128 then L(to := store (e_balance (L to) + amt) (L to)) else L
         | Burn \<Rightarrow>
             if e_balance (L from) < amt then L else L(from := store (e_balance (L from) - amt) (L from))
         | Transfer \<Rightarrow>
             if e_frozen (L from) \<or> e_balance (L from) < amt then L
             else L(from := (store (e_balance (L from) - amt) (L from))\<lparr>e_nonce := e_nonce (L from) + 1\<rparr>,
                    to := store (e_balance (L to) + amt) (L to))
         | MultiAsset \<Rightarrow> L)"

text \<open>What block production can assemble; anything else ends the block with an error.\<close>

definition assemblable :: "signed_tx \<Rightarrow> bool" where
  "assemblable tx \<longleftrightarrow> kind tx \<noteq> MultiAsset \<and> (kind tx = Transfer \<longrightarrow> recipient tx \<noteq> None)"

definition keys_ok :: "signed_tx \<Rightarrow> bool" where
  "keys_ok tx \<longleftrightarrow> length (signer tx) = 32 \<and> length (target tx) = 32"

section \<open>The abstraction\<close>

definition entry_of :: "account \<Rightarrow> entry" where
  "entry_of a = \<lparr> e_balance = unat (balance a), e_nonce = nonce a, e_frozen = is_frozen a \<rparr>"

definition ledger_of :: "state \<Rightarrow> ledger" where
  "ledger_of s k = (if length k = 32 then entry_of (state_account s k) else empty_entry)"

lemma ledger_of_new: "ledger_of (state_new xof) = (\<lambda>_. empty_entry)"
  by (simp add: fun_eq_iff ledger_of_def state_account_new entry_of_def empty_entry_def account_new_values)

lemma ledger_of_put:
  assumes "account_wf a"
  shows "ledger_of (put_account xof a s) = (ledger_of s)(pubkey a := entry_of a)"
  using pubkey_length [OF assms] by (simp add: fun_eq_iff ledger_of_def state_account_put [OF assms])

lemma entry_of_simps [simp]:
  "e_balance (entry_of a) = unat (balance a)" "e_nonce (entry_of a) = nonce a" "e_frozen (entry_of a) = is_frozen a"
  by (simp_all add: entry_of_def)

lemma entry_of_set:
  assumes "account_wf a"
  shows "entry_of (set_balance b a) = store (unat b) (entry_of a)"
    "entry_of (set_nonce n a) = (entry_of a)\<lparr>e_nonce := n\<rparr>"
    "entry_of (set_last_active t a) = entry_of a"
    "entry_of (set_frozen f a) = (entry_of a)\<lparr>e_frozen := f\<rparr>"
  using assms by (simp_all add: entry_of_def store_def account_frame del: power_numeral)

lemma entry_of_credit:
  assumes "account_wf a" "unat (balance a) + unat amt < 2 ^ 128"
  shows "entry_of (credit amt ep a) = store (unat (balance a) + unat amt) (entry_of a)"
  using assms unat_plus_no_overflow [of "balance a" amt]
  by (simp add: credit_def entry_of_set del: power_numeral)

lemma entry_of_debit:
  assumes "account_wf a" "amt \<le> balance a"
  shows "entry_of (debit amt ep a) =
    (store (unat (balance a) - unat amt) (entry_of a))\<lparr>e_nonce := nonce a + 1\<rparr>"
  using assms
  by (simp add: debit_def entry_of_set account_frame unat_sub_if' word_le_nat_alt del: power_numeral)

section \<open>Refinement\<close>

text \<open>One transaction: the state after it abstracts to the ledger after it.\<close>

definition refines :: "state \<Rightarrow> signed_tx \<Rightarrow> state \<Rightarrow> bool" where
  "refines s tx s' \<longleftrightarrow> state_ok s' \<and> ledger_of s' = apply_tx tx (ledger_of s)"

lemma refines_put:
  assumes "state_ok s" "account_wf a" "apply_tx tx (ledger_of s) = (ledger_of s)(pubkey a := entry_of a)"
  shows "refines s tx (put_account xof a s)"
  using assms by (simp add: refines_def state_ok_put ledger_of_put)

lemma refines_same: "state_ok s \<Longrightarrow> apply_tx tx (ledger_of s) = ledger_of s \<Longrightarrow> refines s tx s"
  by (simp add: refines_def)

lemma step_freeze:
  assumes "state_ok s" "keys_ok tx" "kind tx = Freeze"
  shows "\<exists>s'. process_txs xof native_execute ep s [tx] = (s', Ok [NATIVE_TRACE_MARKER]) \<and> refines s tx s'"
proof -
  let ?t = "state_account s (target tx)"
  have wf: "account_wf ?t" "pubkey ?t = target tx" using assms by (simp_all add: keys_ok_def state_account_wf)
  have upd: "apply_tx tx (ledger_of s) = (ledger_of s)(pubkey (set_frozen (flag tx \<noteq> 0) ?t) := entry_of (set_frozen (flag tx \<noteq> 0) ?t))"
    using assms wf by (simp add: apply_tx_def keys_ok_def ledger_of_def entry_of_set account_frame Let_def)
  show ?thesis
    using refines_put [OF assms(1) _ upd, of xof] wf process_freeze [OF assms(3)] by simp
qed

lemma step_mint:
  assumes "state_ok s" "keys_ok tx" "kind tx = Mint"
  shows "\<exists>s'. process_txs xof native_execute ep s [tx] = (s', Ok [NATIVE_TRACE_MARKER]) \<and> refines s tx s'"
proof (cases "bal s (target tx) + tx_amount tx < 2 ^ 128")
  case True
  let ?t = "state_account s (target tx)" and ?amt = "u128_from_le (amount tx)"
  have wf: "account_wf ?t" "pubkey ?t = target tx" using assms by (simp_all add: keys_ok_def state_account_wf)
  have upd: "apply_tx tx (ledger_of s) = (ledger_of s)(pubkey (credit ?amt ep ?t) := entry_of (credit ?amt ep ?t))"
    using assms wf True
    by (simp add: apply_tx_def keys_ok_def ledger_of_def entry_of_credit credit_effect tx_amount_def Let_def del: power_numeral)
  show ?thesis
    using refines_put [OF assms(1) _ upd, of xof] wf credit_effect(1) True assms process_mint [OF assms(3,1)]
    by (simp add: keys_ok_def tx_amount_def)
next
  case False
  then have "checked_add (balance (state_account s (target tx))) (u128_from_le (amount tx)) = None"
    by (simp add: checked_add_def tx_amount_def)
  then have "process_txs xof native_execute ep s [tx] = (s, Ok [NATIVE_TRACE_MARKER])"
    using assms(3) by (simp add: assemble_witness_def native_execute_def native_mint_def target_account)
  moreover have "apply_tx tx (ledger_of s) = ledger_of s"
    using False assms by (simp add: apply_tx_def ledger_of_def keys_ok_def Let_def del: power_numeral)
  ultimately show ?thesis using refines_same [OF assms(1)] by blast
qed

lemma step_burn:
  assumes "state_ok s" "keys_ok tx" "kind tx = Burn"
  shows "\<exists>s'. process_txs xof native_execute ep s [tx] = (s', Ok [NATIVE_TRACE_MARKER]) \<and> refines s tx s'"
proof (cases "u128_from_le (amount tx) \<le> balance (state_account s (signer tx))")
  case True
  let ?f = "state_account s (signer tx)" and ?amt = "u128_from_le (amount tx)"
  let ?a = "set_last_active (ucast ep) (set_balance (balance ?f - ?amt) ?f)"
  have wf: "account_wf ?f" "pubkey ?f = signer tx" using assms by (simp_all add: keys_ok_def state_account_wf)
  have "unat (balance ?f - ?amt) = bal s (signer tx) - tx_amount tx" "tx_amount tx \<le> bal s (signer tx)"
    using True by (simp_all add: unat_sub_if' word_le_nat_alt tx_amount_def)
  then have upd: "apply_tx tx (ledger_of s) = (ledger_of s)(pubkey ?a := entry_of ?a)"
    using assms wf by (simp add: apply_tx_def keys_ok_def ledger_of_def entry_of_set account_frame Let_def)
  show ?thesis
    using refines_put [OF assms(1) _ upd, of xof] wf process_burn [OF assms(3) True] by simp
next
  case False
  then have "process_txs xof native_execute ep s [tx] = (s, Ok [NATIVE_TRACE_MARKER])"
    using assms(3) by (simp add: assemble_witness_def native_execute_def native_burn_def not_le)
  moreover have "apply_tx tx (ledger_of s) = ledger_of s"
    using False assms by (simp add: apply_tx_def ledger_of_def keys_ok_def Let_def tx_amount_def word_le_nat_alt)
  ultimately show ?thesis using refines_same [OF assms(1)] by blast
qed

lemma step_transfer:
  assumes "state_ok s" "keys_ok tx" "kind tx = Transfer" "recipient tx = Some to"
  shows "\<exists>s'. process_txs xof native_execute ep s [tx] = (s', Ok [NATIVE_TRACE_MARKER]) \<and> refines s tx s'"
proof -
  let ?f = "state_account s (signer tx)" and ?t = "state_account s to" and ?amt = "u128_from_le (amount tx)"
  have to: "target tx = to" using assms(4) by (simp add: target_def)
  have wf: "account_wf ?f" "pubkey ?f = signer tx" "account_wf ?t" "pubkey ?t = to"
    using assms to by (simp_all add: keys_ok_def state_account_wf)
  have run: "process_txs xof native_execute ep s [tx] = (after_transfer xof ep tx to s, Ok [NATIVE_TRACE_MARKER])"
    using assms(3,4)
    by (simp add: assemble_witness_def native_execute_def native_transfer_cases after_transfer_def payable_def)
  have "refines s tx (after_transfer xof ep tx to s)"
  proof (cases "payable s tx")
    case True
    then have le: "?amt \<le> balance ?f" "\<not> is_frozen ?f" by (simp_all add: payable_def not_less)
    then have small: "bal s to + unat ?amt < 2 ^ 128"
      using unat_balance_bound [OF wf(1)] unat_balance_bound [OF wf(3)] by (simp add: word_le_nat_alt)
    have "state_ok (after_transfer xof ep tx to s)"
      using True assms(1) wf le by (simp add: after_transfer_def state_ok_put debit_effect credit_effect)
    moreover have "ledger_of (after_transfer xof ep tx to s) = apply_tx tx (ledger_of s)"
      using True le small wf assms to
      by (simp add: after_transfer_def ledger_of_put debit_effect credit_effect entry_of_debit entry_of_credit
          apply_tx_def keys_ok_def ledger_of_def tx_amount_def word_le_nat_alt Let_def del: power_numeral)
    ultimately show ?thesis by (simp add: refines_def)
  next
    case False
    then have "apply_tx tx (ledger_of s) = ledger_of s"
      using assms to by (auto simp: payable_def apply_tx_def keys_ok_def ledger_of_def tx_amount_def word_less_nat_alt Let_def)
    then show ?thesis using False assms(1) by (simp add: after_transfer_def refines_same)
  qed
  then show ?thesis using run by blast
qed

lemma step_refines:
  assumes "state_ok s" "keys_ok tx" "assemblable tx"
  shows "\<exists>s'. process_txs xof native_execute ep s [tx] = (s', Ok [NATIVE_TRACE_MARKER]) \<and> refines s tx s'"
  using assms step_freeze step_mint step_burn step_transfer
  by (cases "kind tx") (auto simp: assemblable_def)

text \<open>The error with which a transaction that cannot be assembled ends the block.\<close>

definition assembly_error :: "signed_tx \<Rightarrow> node_error" where
  "assembly_error tx = (if kind tx = MultiAsset then MultiAssetTodo else MissingRecipient)"

lemma process_unassemblable:
  "\<not> assemblable tx \<Longrightarrow> process_txs xof exec ep s (tx # txs) = (s, Err (assembly_error tx))"
  by (cases "kind tx") (auto simp: assemblable_def assembly_error_def assemble_witness_def)

lemma process_refines:
  assumes "state_ok s" "list_all keys_ok txs"
  shows "\<exists>s'. process_txs xof native_execute ep s txs =
      (s', case dropWhile assemblable txs of
             [] \<Rightarrow> Ok (replicate (length txs) NATIVE_TRACE_MARKER) | tx # _ \<Rightarrow> Err (assembly_error tx)) \<and>
    state_ok s' \<and> ledger_of s' = fold apply_tx (takeWhile assemblable txs) (ledger_of s)"
  using assms
proof (induction txs arbitrary: s)
  case (Cons tx txs)
  show ?case
  proof (cases "assemblable tx")
    case True
    have "keys_ok tx" using Cons.prems(2) by simp
    then obtain s1 where one: "process_txs xof native_execute ep s [tx] = (s1, Ok [NATIVE_TRACE_MARKER])" "refines s tx s1"
      using step_refines [OF Cons.prems(1) _ True] by blast
    then obtain s2 where rest: "process_txs xof native_execute ep s1 txs =
        (s2, case dropWhile assemblable txs of
               [] \<Rightarrow> Ok (replicate (length txs) NATIVE_TRACE_MARKER) | tx # _ \<Rightarrow> Err (assembly_error tx))"
      "state_ok s2" "ledger_of s2 = fold apply_tx (takeWhile assemblable txs) (ledger_of s1)"
      using Cons.IH [of s1] Cons.prems(2) by (auto simp: refines_def)
    have "process_txs xof native_execute ep s (tx # txs) =
        (s2, case dropWhile assemblable (tx # txs) of
               [] \<Rightarrow> Ok (replicate (length (tx # txs)) NATIVE_TRACE_MARKER) | tx # _ \<Rightarrow> Err (assembly_error tx))"
      using process_txs_append [OF one(1), of txs] rest(1) True
      by (simp del: process_txs.simps dropWhile_eq_Nil_conv split: list.splits)
    then show ?thesis using rest one(2) True by (intro exI [of _ s2]) (simp add: refines_def)
  next
    case False
    then show ?thesis using Cons.prems(1) process_unassemblable by auto
  qed
qed simp

lemma assemblable_all:
  "list_all assemblable txs \<Longrightarrow> takeWhile assemblable txs = txs \<and> dropWhile assemblable txs = []"
  by (simp add: list_all_iff)

section \<open>What execution writes\<close>

text \<open>The native executor returns well-formed records for well-formed ones; only these are written.\<close>

lemma account_wf_default: "account_wf account_default"
  by (simp add: account_wf_def account_default_def)

lemma multi_pairs_wf:
  "list_all account_wf accs \<Longrightarrow> list_all account_wf (fst (multi_pairs amt ep accs))"
  by (induction amt ep accs rule: multi_pairs.induct)
     (auto simp: Let_def account_wf_default split: prod.splits)

lemma native_execute_wf:
  assumes "native_execute tx w = Ok r" "list_all account_wf (w_accounts w)"
  shows "list_all account_wf (updated_accounts r)"
proof -
  have nth: "account_wf (w_accounts w ! k)" if "k < length (w_accounts w)" for k
    using assms(2) that by (simp add: list_all_length)
  show ?thesis
  proof (cases "kind tx")
    case MultiAsset
    then show ?thesis
      using assms multi_pairs_wf [OF assms(2), of "u128_from_le (w_amount w)" "epoch w"]
      by (auto simp: native_execute_def native_multi_asset_def split: if_splits prod.splits)
  qed (use assms(1) nth in \<open>auto simp: native_execute_def native_freeze_def native_mint_def native_burn_def
      native_transfer_def account_wf_default Let_def split: if_splits option.splits\<close>)
qed

lemma assembled_wf:
  assumes "state_ok s" "keys_ok tx" "assemble_witness s tx ep = Ok w"
  shows "list_all account_wf (w_accounts w)"
  using assms state_account_wf(1) [OF assms(1)]
  by (auto simp: assemble_witness_def keys_ok_def target_def and_then_Ok_iff split: tx_kind.splits option.splits)

lemma state_ok_puts:
  "state_ok s \<Longrightarrow> list_all account_wf accs \<Longrightarrow> state_ok (fold (put_account xof) accs s)"
  by (induction accs arbitrary: s) (simp_all add: state_ok_put)

lemma process_writes:
  assumes "process_txs xof native_execute ep s txs = (s', r)" "state_ok s" "list_all keys_ok txs"
  shows "\<exists>accs. list_all account_wf accs \<and> s' = fold (put_account xof) accs s"
  using assms
proof (induction txs arbitrary: s r)
  case Nil
  then show ?case by (intro exI [of _ "[]"]) simp
next
  case (Cons tx txs)
  show ?case
  proof (cases "and_then (assemble_witness s tx ep) (\<lambda>w. map_err TraceFailed (native_execute tx w))")
    case (Ok res)
    then obtain w where w: "assemble_witness s tx ep = Ok w" "native_execute tx w = Ok res"
      by (auto simp: and_then_Ok_iff map_err_Ok_iff)
    define ups where "ups = (if success res then updated_accounts res else [])"
    have ups: "list_all account_wf ups"
      using native_execute_wf [OF w(2) assembled_wf [OF Cons.prems(2) _ w(1)]] Cons.prems(3) by (simp add: ups_def)
    obtain r' where "process_txs xof native_execute ep (fold (put_account xof) ups s) txs = (s', r')"
      using Cons.prems(1) Ok by (auto simp: ups_def Let_def split: prod.splits if_splits)
    then obtain accs where "list_all account_wf accs" "s' = fold (put_account xof) accs (fold (put_account xof) ups s)"
      using Cons.IH state_ok_puts [OF Cons.prems(2) ups] Cons.prems(3) by fastforce
    then show ?thesis using ups by (intro exI [of _ "ups @ accs"]) simp
  qed (use Cons.prems(1) in \<open>auto intro!: exI [of _ "[]"]\<close>)
qed

lemma built_puts:
  assumes "built xof N (accounts s)" "list_all account_wf accs"
  shows "\<exists>N. built xof N (accounts (fold (put_account xof) accs s))"
  using assms
proof (induction accs arbitrary: N s)
  case (Cons a accs)
  have "built xof (N \<union> path_nodes xof (accounts s) (pubkey a) (abytes a)) (accounts (put_account xof a s))"
    unfolding put_account_def using Cons.prems pubkey_length by (simp add: built.put)
  then show ?case using Cons.IH [of _ "put_account xof a s"] Cons.prems(2) by simp
qed auto

section \<open>Supply\<close>

definition total_supply :: "ledger \<Rightarrow> hash set \<Rightarrow> nat" where
  "total_supply L K = (\<Sum>k\<in>K. e_balance (L k))"

definition minted :: "signed_tx \<Rightarrow> nat" where
  "minted tx = (if kind tx = Mint then tx_amount tx else 0)"

definition burned :: "signed_tx \<Rightarrow> ledger \<Rightarrow> nat" where
  "burned tx L = (if kind tx = Burn \<and> tx_amount tx \<le> e_balance (L (signer tx)) then tx_amount tx else 0)"

fun total_burned :: "signed_tx list \<Rightarrow> ledger \<Rightarrow> nat" where
  "total_burned [] L = 0"
| "total_burned (tx # txs) L = burned tx L + total_burned txs (apply_tx tx L)"

text \<open>A transaction between members of \<open>K\<close> that does not pay its own signer.\<close>

definition among :: "hash set \<Rightarrow> signed_tx \<Rightarrow> bool" where
  "among K tx \<longleftrightarrow> signer tx \<in> K \<and> target tx \<in> K \<and> (kind tx = Transfer \<longrightarrow> signer tx \<noteq> target tx)"

lemma supply_upd:
  assumes "finite K" "k \<in> K"
  shows "total_supply (L(k := e)) K + e_balance (L k) = total_supply L K + e_balance e"
  using assms by (simp add: total_supply_def sum.remove [of K k])

lemma balance_le_supply: "finite K \<Longrightarrow> k \<in> K \<Longrightarrow> e_balance (L k) \<le> total_supply L K"
  unfolding total_supply_def by (rule member_le_sum) simp_all

lemma store_small [simp]: "v < 2 ^ 127 \<Longrightarrow> e_balance (store v e) = v"
  by (simp add: store_def)

lemma supply_step:
  assumes "finite K" "among K tx" "total_supply L K + minted tx < 2 ^ 127"
  shows "total_supply (apply_tx tx L) K + burned tx L = total_supply L K + minted tx"
proof -
  let ?f = "signer tx" and ?t = "target tx" and ?amt = "tx_amount tx"
  have in_K: "?f \<in> K" "?t \<in> K" using assms(2) by (simp_all add: among_def)
  note upd = supply_upd [OF assms(1) in_K(1)] supply_upd [OF assms(1) in_K(2)]
  have le: "e_balance (L ?f) \<le> total_supply L K" "e_balance (L ?t) \<le> total_supply L K"
    using assms(1) in_K by (simp_all add: balance_le_supply)
  show ?thesis
  proof (cases "kind tx")
    case Freeze
    then show ?thesis using upd(2) [of L "(L ?t)\<lparr>e_frozen := flag tx \<noteq> 0\<rparr>"] by (simp add: apply_tx_def minted_def burned_def Let_def)
  next
    case Mint
    then have "e_balance (L ?t) + ?amt < 2 ^ 127" using le(2) assms(3) by (simp add: minted_def)
    then show ?thesis
      using Mint upd(2) [of L "store (e_balance (L ?t) + ?amt) (L ?t)"]
      by (simp add: apply_tx_def minted_def burned_def Let_def)
  next
    case Burn
    have "e_balance (L ?f) - ?amt < 2 ^ 127" using le(1) assms(3) by linarith
    then show ?thesis
      using Burn upd(1) [of L "store (e_balance (L ?f) - ?amt) (L ?f)"]
      by (auto simp add: apply_tx_def minted_def burned_def Let_def)
  next
    case Transfer
    have ne: "?f \<noteq> ?t" using assms(2) Transfer by (simp add: among_def)
    have "e_balance (L ?f) + e_balance (L ?t) \<le> total_supply L K"
      using assms(1) in_K ne sum_mono2 [of K "{?f, ?t}" "\<lambda>k. e_balance (L k)"] by (simp add: total_supply_def)
    then have small: "e_balance (L ?f) + e_balance (L ?t) < 2 ^ 127" using assms(3) by linarith
    show ?thesis
    proof (cases "e_frozen (L ?f) \<or> e_balance (L ?f) < ?amt")
      case False
      let ?e = "(store (e_balance (L ?f) - ?amt) (L ?f))\<lparr>e_nonce := e_nonce (L ?f) + 1\<rparr>"
      have "total_supply (L(?f := ?e)) K + ?amt = total_supply L K"
        using upd(1) [of L ?e] False small by (simp add: le_diff_conv2) linarith
      then show ?thesis
        using upd(2) [of "L(?f := ?e)" "store (e_balance (L ?t) + ?amt) (L ?t)"] False small ne Transfer
        by (simp add: apply_tx_def minted_def burned_def Let_def)
    qed (use Transfer in \<open>simp add: apply_tx_def minted_def burned_def Let_def\<close>)
  next
    case MultiAsset
    then show ?thesis by (simp add: apply_tx_def minted_def burned_def Let_def)
  qed
qed

lemma supply_fold:
  assumes "finite K" "list_all (among K) txs" "total_supply L K + sum_list (map minted txs) < 2 ^ 127"
  shows "total_supply (fold apply_tx txs L) K + total_burned txs L = total_supply L K + sum_list (map minted txs)"
  using assms(2,3)
proof (induction txs arbitrary: L)
  case (Cons tx txs)
  have one: "total_supply (apply_tx tx L) K + burned tx L = total_supply L K + minted tx"
    using Cons.prems by (intro supply_step assms(1)) simp_all
  then have "total_supply (apply_tx tx L) K + sum_list (map minted txs) < 2 ^ 127"
    using Cons.prems(2) by simp
  then show ?case using one Cons.IH [of "apply_tx tx L"] Cons.prems(1) by simp
qed simp

end
