(* ===== verification/Light_Client.thy ===== *)
theory Light_Client
  imports Smt Account
begin

text \<open>
  The light client, \<open>light_client/src\<close>: its own copy of the block header (\<open>header.rs\<close>), and
  \<open>verify_balance\<close> (\<open>lib.rs\<close>), which walks a signed header chain and checks a Merkle proof
  against the last state root.
\<close>

section \<open>header.rs\<close>

record lc_header =
  lc_block_n :: u64
  lc_parent_hash :: hash
  lc_prev_state_root :: hash
  lc_tx_list_hash :: hash
  lc_trace_hash :: hash
  lc_new_state_root :: hash
  lc_issuer_registry_root :: hash
  lc_timestamp_ms :: u64
  lc_sequencer_pubkey :: bytes

definition lc_signing_bytes :: "lc_header \<Rightarrow> bytes" where
  "lc_signing_bytes h =
     u64_le (lc_block_n h) @ lc_parent_hash h @ lc_prev_state_root h @ lc_tx_list_hash h
     @ lc_trace_hash h @ lc_new_state_root h @ lc_issuer_registry_root h
     @ u64_le (lc_timestamp_ms h) @ lc_sequencer_pubkey h"

definition unsigned_hash :: "xof \<Rightarrow> lc_header \<Rightarrow> hash" where
  "unsigned_hash xof h = hash_bytes xof (lc_signing_bytes h)"

record signed_header =
  sh_header :: lc_header
  sh_signature :: bytes

definition sh_sign :: "ed25519 \<Rightarrow> lc_header \<Rightarrow> keypair \<Rightarrow> signed_header" where
  "sh_sign ed h kp = \<lparr> sh_header = h, sh_signature = kp_sign ed kp (lc_signing_bytes h) \<rparr>"

definition sh_verify :: "ed25519 \<Rightarrow> signed_header \<Rightarrow> bytes \<Rightarrow> (unit, sig_error) res" where
  "sh_verify ed sh expected =
     (if lc_sequencer_pubkey (sh_header sh) \<noteq> expected then Err VerificationFailed
      else verify ed (lc_sequencer_pubkey (sh_header sh)) (lc_signing_bytes (sh_header sh)) (sh_signature sh))"

definition full_hash :: "xof \<Rightarrow> signed_header \<Rightarrow> hash" where
  "full_hash xof sh = hash_bytes xof (lc_signing_bytes (sh_header sh) @ sh_signature sh)"

section \<open>lib.rs\<close>

datatype verify_error =
  GenesisMismatch | HeaderChainBroken usize | InvalidSignatureOn u64 | ProofFailed

text \<open>The loop over the headers: \<open>prev\<close> is the hash of the header before, if there is one.\<close>

fun check_chain ::
  "xof \<Rightarrow> ed25519 \<Rightarrow> hash \<Rightarrow> bytes \<Rightarrow> usize \<Rightarrow> hash option \<Rightarrow> signed_header list \<Rightarrow> (unit, verify_error) res" where
  "check_chain xof ed genesis expected i prev [] = Ok ()"
| "check_chain xof ed genesis expected i prev (h # hs) =
     and_then
       (case prev of
          Some p \<Rightarrow> if lc_parent_hash (sh_header h) \<noteq> p then Err (HeaderChainBroken i) else Ok ()
        | None \<Rightarrow> if lc_prev_state_root (sh_header h) \<noteq> genesis then Err GenesisMismatch else Ok ())
     (\<lambda>_. and_then (map_err (\<lambda>_. InvalidSignatureOn (lc_block_n (sh_header h))) (sh_verify ed h expected))
     (\<lambda>_. check_chain xof ed genesis expected (Suc i) (Some (full_hash xof h)) hs))"

definition verify_balance ::
  "xof \<Rightarrow> ed25519 \<Rightarrow> hash \<Rightarrow> signed_header list \<Rightarrow> bytes \<Rightarrow> bytes \<Rightarrow> merkle_proof \<Rightarrow> (u128, verify_error) res" where
  "verify_balance xof ed genesis headers expected pk proof =
     (if headers = [] then Err (HeaderChainBroken 0)
      else and_then (check_chain xof ed genesis expected 0 None headers) (\<lambda>_.
        if \<not> verify_proof xof (lc_new_state_root (sh_header (last headers))) pk proof then Err ProofFailed
        else if length (mp_value proof) = 64 then Ok (balance \<lparr> abytes = mp_value proof \<rparr>)
        else Ok 0))"

section \<open>What an accepted chain guarantees\<close>

text \<open>The chain condition on its own: every header signed by the expected key, linked by hash.\<close>

definition signed_by :: "ed25519 \<Rightarrow> bytes \<Rightarrow> signed_header \<Rightarrow> bool" where
  "signed_by ed pk h \<longleftrightarrow> lc_sequencer_pubkey (sh_header h) = pk \<and>
     verify ed pk (lc_signing_bytes (sh_header h)) (sh_signature h) = Ok ()"

fun linked :: "xof \<Rightarrow> signed_header list \<Rightarrow> bool" where
  "linked xof (a # b # hs) \<longleftrightarrow> lc_parent_hash (sh_header b) = full_hash xof a \<and> linked xof (b # hs)"
| "linked xof _ \<longleftrightarrow> True"

lemma linked_Cons:
  "linked xof (a # hs) \<longleftrightarrow>
     (case hs of [] \<Rightarrow> True | b # _ \<Rightarrow> lc_parent_hash (sh_header b) = full_hash xof a) \<and> linked xof hs"
  by (cases hs) simp_all

lemma sh_verify_Ok: "sh_verify ed h pk = Ok u \<longleftrightarrow> signed_by ed pk h"
  by (cases u) (auto simp: sh_verify_def signed_by_def)

lemma check_chain_tail:
  "check_chain xof ed g pk i (Some p) hs = Ok u \<longleftrightarrow>
     (\<forall>h \<in> set hs. signed_by ed pk h) \<and> linked xof hs \<and>
     (case hs of [] \<Rightarrow> True | h # _ \<Rightarrow> lc_parent_hash (sh_header h) = p)"
proof (induction hs arbitrary: i p)
  case (Cons h hs)
  then show ?case
    by (cases hs) (auto simp: and_then_Ok_iff sh_verify_Ok)
qed simp

lemma check_chain_Ok:
  "check_chain xof ed g pk 0 None (h # hs) = Ok u \<longleftrightarrow>
     (\<forall>h' \<in> set (h # hs). signed_by ed pk h') \<and> linked xof (h # hs) \<and>
     lc_prev_state_root (sh_header h) = g"
  unfolding check_chain.simps(2) linked_Cons
  by (auto simp: and_then_Ok_iff sh_verify_Ok check_chain_tail)

lemma verify_balance_Ok:
  "verify_balance xof ed g hs pk acct pr = Ok b \<longleftrightarrow>
     hs \<noteq> [] \<and> (\<forall>h \<in> set hs. signed_by ed pk h) \<and> linked xof hs \<and>
     lc_prev_state_root (sh_header (hd hs)) = g \<and>
     verify_proof xof (lc_new_state_root (sh_header (last hs))) acct pr \<and>
     b = (if length (mp_value pr) = 64 then balance \<lparr> abytes = mp_value pr \<rparr> else 0)"
proof (cases hs)
  case (Cons h t)
  then show ?thesis
    by (auto simp: verify_balance_def and_then_Ok_iff check_chain_Ok simp del: check_chain.simps split: if_splits)
qed (simp add: verify_balance_def)

end
