(* ===== verification/Crypto_Properties.thy ===== *)
theory Crypto_Properties
  imports Smt Account Record_Primitives
begin

text \<open>
  The properties of the account record and of the state commitment, and a concrete digest
  function that satisfies the no-collision hypotheses on a tree with a stored account.
\<close>

section \<open>A concrete digest\<close>

definition sum_xof :: xof where
  "sum_xof m n = le_bytes n
     (if m = [] then 0
      else if length m = 64 then le_nat (take 32 m) + le_nat (drop 32 m) + 1 else 1)"

lemma length_sum_xof [simp]: "length (sum_xof m n) = n"
  by (simp add: sum_xof_def)

lemma sum_node_hash:
  assumes "length a = 32" "length b = 32"
  shows "le_nat (node_hash sum_xof \<lparr> left = a, right = b \<rparr>) = (le_nat a + le_nat b + 1) mod 2 ^ 256"
proof -
  have "a @ b \<noteq> []" using assms by auto
  then show ?thesis
    using assms by (simp add: node_hash_def hash_concat_def sum_xof_def le_nat_le_bytes)
qed

lemma sum_default: "j \<le> 256 \<Longrightarrow> le_nat (default_at sum_xof j) = 2 ^ j - 1"
proof (induction j)
  case 0
  then show ?case by (simp add: hash_bytes_def sum_xof_def le_nat_le_bytes)
next
  case (Suc j)
  have len: "length (default_at sum_xof j) = 32"
    by (cases j) (simp_all add: hash_bytes_def hash_concat_def)
  have "default_at sum_xof (Suc j) = node_hash sum_xof \<lparr> left = default_at sum_xof j, right = default_at sum_xof j \<rparr>"
    by (simp add: node_hash_def)
  then have "le_nat (default_at sum_xof (Suc j)) = (2 ^ j - 1 + (2 ^ j - 1) + 1) mod 2 ^ 256"
    using Suc len by (simp only: sum_node_hash)
  also have "(2::nat) ^ j - 1 + (2 ^ j - 1) + 1 = 2 ^ Suc j - 1"
    using one_le_power [of "2::nat" j] unfolding power_Suc by linarith
  also have "(2 ^ Suc j - 1) mod 2 ^ 256 = (2 ^ Suc j - 1 :: nat)"
  proof (rule mod_less)
    have "(2::nat) ^ Suc j \<le> 2 ^ 256" using Suc.prems by (rule power_increasing) simp
    then show "2 ^ Suc j - 1 < (2::nat) ^ 256" using zero_less_power [of "2::nat" "Suc j"] by linarith
  qed
  finally show ?case .
qed

lemma length_default [simp]: "length (default_at sum_xof j) = 32"
  by (cases j) (simp_all add: hash_bytes_def hash_concat_def)

definition dnode :: "nat \<Rightarrow> internal_node" where
  "dnode j = \<lparr> left = default_at sum_xof j, right = default_at sum_xof j \<rparr>"

definition pnode :: "nat \<Rightarrow> internal_node" where
  "pnode j = \<lparr> left = le_bytes 32 (2 ^ j), right = default_at sum_xof j \<rparr>"

lemma default_nodes_sum: "default_nodes sum_xof = dnode ` {..<256}"
  by (simp add: default_nodes_def dnode_def)

lemma dnode_hash: "j < 256 \<Longrightarrow> le_nat (node_hash sum_xof (dnode j)) = 2 ^ Suc j - 1"
  using sum_default [of "Suc j"] by (simp add: dnode_def node_hash_def)

lemma pnode_hash:
  assumes "j < 256"
  shows "le_nat (node_hash sum_xof (pnode j)) = 2 ^ Suc j mod 2 ^ 256"
proof -
  have "(2::nat) ^ j < 2 ^ 256" using assms by (rule power_strict_increasing) simp
  then have "le_nat (le_bytes 32 (2 ^ j)) = 2 ^ j" by (simp add: le_nat_le_bytes)
  moreover have "(2::nat) ^ j + (2 ^ j - 1) + 1 = 2 ^ Suc j" using one_le_power [of "2::nat" j] by simp
  ultimately show ?thesis
    using assms by (simp only: pnode_def sum_node_hash length_le_bytes length_default sum_default less_imp_le)
qed

lemma hash_parity:
  assumes "i < 256"
  shows "odd (le_nat (node_hash sum_xof (dnode i)))" "even (le_nat (node_hash sum_xof (pnode i)))"
proof -
  show "odd (le_nat (node_hash sum_xof (dnode i)))"
    unfolding dnode_hash [OF assms] by (simp add: even_diff_nat)
  have "(2::nat) dvd 2 ^ 256" "(2::nat) dvd 2 ^ Suc i" by simp_all
  then show "even (le_nat (node_hash sum_xof (pnode i)))"
    unfolding pnode_hash [OF assms] by (metis dvd_mod)
qed

lemma pnode_power_inject:
  fixes i j :: nat
  assumes "(2::nat) ^ Suc i mod 2 ^ 256 = 2 ^ Suc j mod 2 ^ 256" "i < 256" "j < 256"
  shows "i = j"
proof -
  have val: "(2::nat) ^ Suc k mod 2 ^ 256 = (if k = 255 then 0 else 2 ^ Suc k)" if "k < 256" for k
  proof (cases "k = 255")
    case False
    then have "(2::nat) ^ Suc k < 2 ^ 256" using that by (intro power_strict_increasing) simp_all
    with False show ?thesis by simp
  qed simp
  show ?thesis
    using assms unfolding val [OF assms(2)] val [OF assms(3)]
    by (auto split: if_splits simp del: power_Suc)
qed

lemma inj_sum: "inj_on (node_hash sum_xof) (pnode ` {..<256} \<union> dnode ` {..<256})"
proof (rule inj_onI)
  fix a b assume ab: "a \<in> pnode ` {..<256} \<union> dnode ` {..<256}" "b \<in> pnode ` {..<256} \<union> dnode ` {..<256}"
    and eq: "node_hash sum_xof a = node_hash sum_xof b"
  have pp: "pnode i = pnode j" if "node_hash sum_xof (pnode i) = node_hash sum_xof (pnode j)" "i < 256" "j < 256" for i j
    using pnode_power_inject [of i j] pnode_hash [of i] pnode_hash [of j] that by simp
  have dd: "dnode i = dnode j" if "node_hash sum_xof (dnode i) = node_hash sum_xof (dnode j)" "i < 256" "j < 256" for i j
  proof -
    have "(2::nat) ^ Suc i - 1 = 2 ^ Suc j - 1"
      using dnode_hash [of i] dnode_hash [of j] that by simp
    then have "(2::nat) ^ Suc i = 2 ^ Suc j"
      using zero_less_power [of "2::nat" "Suc i"] zero_less_power [of "2::nat" "Suc j"] by linarith
    then show ?thesis by (simp only: power_inject_exp) simp
  qed
  have pd: "node_hash sum_xof (pnode i) \<noteq> node_hash sum_xof (dnode j)" if "i < 256" "j < 256" for i j
    using hash_parity that by metis
  show "a = b" using ab eq pp dd pd by (auto dest: sym)
qed

section \<open>A digest without collisions\<close>

text \<open>
  Marking every byte and ending with a zero gives codewords of which none is a prefix of another. As a
  digest it never collides on nodes whose children are digests, so every tree built with it
  satisfies the hypothesis on collisions.
\<close>

definition code_xof :: xof where
  "code_xof m n = concat (map (\<lambda>b. [1, b]) m) @ [0]"

lemma code_prefix_free: "code_xof a n @ x = code_xof b n @ y \<longleftrightarrow> a = b \<and> x = y"
proof (induction a arbitrary: b)
  case Nil
  show ?case by (cases b) (auto simp: code_xof_def)
next
  case (Cons c a)
  then show ?case by (cases b) (auto simp: code_xof_def)
qed

definition coded :: "hash \<Rightarrow> bool" where
  "coded h \<longleftrightarrow> (\<exists>m. h = code_xof m 32)"

definition coded_node :: "internal_node \<Rightarrow> bool" where
  "coded_node nd \<longleftrightarrow> coded (left nd) \<and> coded (right nd)"

lemma coded_hashes: "coded (node_hash code_xof nd)" "coded (leaf_hash code_xof k v)" "coded (default_at code_xof n)"
  by (auto simp: coded_def node_hash_def leaf_hash_def hash_concat_def hash_three_def hash_bytes_def)
     (cases n; auto simp: hash_bytes_def hash_concat_def)

lemma inj_coded: "inj_on (node_hash code_xof) (Collect coded_node)"
proof (rule inj_onI)
  fix a b assume ab: "a \<in> Collect coded_node" "b \<in> Collect coded_node" "node_hash code_xof a = node_hash code_xof b"
  have "left a @ right a = left b @ right b"
    using ab(3) code_prefix_free [of _ 32 "[]" _ "[]"] by (simp add: node_hash_def hash_concat_def)
  moreover obtain l l' where "left a = code_xof l 32" "left b = code_xof l' 32"
    using ab(1,2) by (auto simp: coded_node_def coded_def)
  ultimately have "left a = left b" "right a = right b" by (simp_all add: code_prefix_free)
  then show "a = b" by simp
qed

lemma path_coded:
  assumes "\<forall>nd\<in>ran (nodes t). coded_node nd" "list_all coded (defaults t)" "length (defaults t) = 257"
  shows "n \<le> 256 \<Longrightarrow> length (path_from t k n cur) = n \<and> list_all coded (path_from t k n cur)"
proof (induction n arbitrary: cur)
  case (Suc n)
  show ?case
  proof (cases "nodes t cur")
    case None
    have "set (subslice (defaults t) (Suc (255 - n)) 257) \<subseteq> set (defaults t)"
      by (auto simp: subslice_def dest: in_set_takeD in_set_dropD)
    then show ?thesis
      using None Suc.prems assms(2,3) by (auto simp: KEY_BITS_def list_all_iff)
  next
    case (Some nd)
    then have "coded_node nd" using assms(1) by (auto simp: ran_def)
    then show ?thesis using Some Suc by (auto simp: coded_node_def)
  qed
qed simp

lemma loop_coded:
  assumes "list_all coded path" "length path = 256"
  shows "coded cur \<Longrightarrow> i \<le> 256 \<Longrightarrow> nd \<in> set (loop_nodes code_xof k path i cur) \<Longrightarrow> coded_node nd"
proof (induction i arbitrary: cur)
  case (Suc i)
  have "coded (path ! i)" using assms Suc.prems(2) by (simp add: list_all_length)
  then have "coded_node (ordered k path i cur)" using Suc.prems(1) by (simp add: ordered_def coded_node_def)
  then show ?case using Suc.IH [of "node_hash code_xof (ordered k path i cur)"] Suc.prems(2,3) coded_hashes(1)
    by (auto simp: Let_def)
qed simp

lemma built_coded:
  assumes "built code_xof N t"
  shows "(\<forall>nd\<in>N \<union> ran (nodes t). coded_node nd) \<and> list_all coded (defaults t) \<and> length (defaults t) = 257"
  using assms
proof (induction rule: built.induct)
  case empty
  show ?case
    using coded_hashes(3) by (simp add: smt_new_def Let_def default_hashes_def KEY_BITS_def list_all_iff del: upt_Suc)
next
  case (put N t key val)
  then have "length (compute_path_to_leaf t key) = 256 \<and> list_all coded (compute_path_to_leaf t key)"
    using path_coded [of t 256 key "smt_root t"] by (auto simp: compute_path_to_leaf_def KEY_BITS_def simp del: path_from.simps)
  then have "\<forall>nd\<in>path_nodes code_xof t key val. coded_node nd"
    using loop_coded [OF _ _ coded_hashes(2), of "compute_path_to_leaf t key" 256 _ key key val]
    by (auto simp: path_nodes_def KEY_BITS_def)
  then show ?case using put.IH ran_put [of code_xof t key val] by (auto simp: subset_iff)
qed

lemma built_code_clash_free:
  assumes "built code_xof N t"
  shows "clash_free code_xof N"
proof -
  have "N \<union> default_nodes code_xof \<subseteq> Collect coded_node"
    using built_coded [OF assms] coded_hashes(3) by (auto simp: default_nodes_def coded_node_def)
  then show ?thesis unfolding clash_free_def by (rule inj_on_subset [OF inj_coded])
qed

section \<open>A tree with one account\<close>

definition key0 :: hash where "key0 = replicate 32 0"

lemma key0_bits: "i < 256 \<Longrightarrow> \<not> key_bit key0 i"
  by (simp add: key_bit_def key0_def)

lemma base_sum: "inj_on (node_hash sum_xof) (default_nodes sum_xof)"
  using inj_sum unfolding default_nodes_sum by (rule inj_on_subset) simp

lemma inv_new_sum: "smt_inv sum_xof (smt_new sum_xof)"
  using base_sum by (rule smt_inv_new)

lemma new_path: "i < 256 \<Longrightarrow> compute_path_to_leaf (smt_new xof) k ! i = default_at xof (255 - i)"
proof -
  assume i: "i < 256"
  have "compute_path_to_leaf (smt_new xof) k = subslice (default_hashes xof) 1 257"
    by (simp add: compute_path_to_leaf_def smt_new_def Let_def KEY_BITS_def numeral_eq_Suc)
  then show ?thesis using i by (simp add: subslice_def default_hashes_def KEY_BITS_def del: upt_Suc)
qed

lemma pnode_parent:
  assumes "j < 256"
  shows "node_hash sum_xof (pnode j) = le_bytes 32 (2 ^ Suc j)"
proof -
  have "length (node_hash sum_xof (pnode j)) = length (le_bytes 32 (2 ^ Suc j))"
    by (simp add: node_hash_def hash_concat_def)
  then show ?thesis
    using pnode_hash [OF assms] by (subst le_nat_inject [symmetric]) (simp_all add: le_nat_le_bytes)
qed

lemma loop_nodes_sum:
  assumes "d \<le> 256" "\<And>i. i < d \<Longrightarrow> path ! i = default_at sum_xof (255 - i)"
  shows "set (loop_nodes sum_xof key0 path d (le_bytes 32 (2 ^ (256 - d)))) \<subseteq> pnode ` {..<256}"
  using assms
proof (induction d)
  case (Suc d)
  have e: "256 - d = Suc (255 - d)" "256 - Suc d = 255 - d" using Suc.prems(1) by simp_all
  have nd: "ordered key0 path d (le_bytes 32 (2 ^ (255 - d))) = pnode (255 - d)"
    using Suc.prems key0_bits [of d] by (simp add: ordered_def pnode_def)
  have "set (loop_nodes sum_xof key0 path d (le_bytes 32 (2 ^ (256 - d)))) \<subseteq> pnode ` {..<256}"
    using Suc by simp
  then have "set (loop_nodes sum_xof key0 path d (node_hash sum_xof (pnode (255 - d)))) \<subseteq> pnode ` {..<256}"
    unfolding e(1) by (simp only: pnode_parent)
  then show ?case unfolding loop_nodes.simps Let_def e(2) nd by simp
qed simp

lemma put_safe_sum:
  assumes "val \<noteq> []"
  shows "put_safe sum_xof (smt_new sum_xof) key0 val"
proof -
  have leaf: "leaf_hash sum_xof key0 val = le_bytes 32 (2 ^ (256 - 256))"
    using assms by (simp add: leaf_hash_def hash_three_def hash_bytes_def sum_xof_def key0_def)
  have "path_nodes sum_xof (smt_new sum_xof) key0 val \<subseteq> pnode ` {..<256}"
    unfolding path_nodes_def KEY_BITS_def leaf by (rule loop_nodes_sum) (simp_all add: new_path)
  moreover have "ran (nodes (smt_new sum_xof)) = {}" by (simp add: smt_new_def Let_def)
  ultimately have "inj_on (node_hash sum_xof)
      (ran (nodes (smt_new sum_xof)) \<union> path_nodes sum_xof (smt_new sum_xof) key0 val \<union> default_nodes sum_xof)"
    by (intro inj_on_subset [OF inj_sum]) (auto simp: default_nodes_sum)
  then show ?thesis by (simp add: put_safe_def clash_free_def key0_def)
qed

section \<open>Properties of the state commitment\<close>

text \<open>
  C7. Insertion is correct and keeps the invariant: after \<open>put\<close> the stored value is found (an
  empty value removes the key), every other key is unchanged, and the new root is the root
  that the reference definition computes from the leaf map alone, provided the nodes
  involved do not collide.
\<close>

theorem smt_put_correct:
  assumes "smt_inv xof t" "put_safe xof t k v"
  shows "smt_inv xof (smt_put xof t k v) \<and>
    smt_get (smt_put xof t k v) k = (if v = [] then None else Some v) \<and>
    (\<forall>k'. k' \<noteq> k \<longrightarrow> smt_get (smt_put xof t k v) k' = smt_get t k') \<and>
    smt_root (smt_put xof t k v) = tree_root xof ((smt_get t)(k := (if v = [] then None else Some v)))"
  using smt.good_put [OF assms] smt.root_compute [OF smt.good_put [OF assms]] assms(2)
    smt.get_put [of xof t k v] root_put [OF assms(1)]
  by (simp add: put_safe_def smt_get_def [abs_def])

theorem smt_put_correct_witness:
  "smt_get (smt_put sum_xof (smt_new sum_xof) key0 [1]) key0 = Some [1]"
  using smt_put_correct [OF inv_new_sum put_safe_sum [of "[1]"]] by simp

text \<open>
  Proofs are complete: after any sequence of collision-free insertions into a new tree, the
  proof the tree produces for any 32-byte key is accepted against its root and shows
  exactly the stored value, or its absence.
\<close>

theorem smt_proof_complete:
  assumes "inj_on (node_hash xof) (default_nodes xof)" "smt.puts_safe xof (smt_new xof) kvs" "length k = 32"
  shows "verify_proof xof (smt_root (smt.puts xof (smt_new xof) kvs)) k (smt_proof (smt.puts xof (smt_new xof) kvs) k) \<and>
    shown_value (smt_proof (smt.puts xof (smt_new xof) kvs) k) = smt_get (smt.puts xof (smt_new xof) kvs) k"
  using smt.check_after_puts [OF assms] by blast

theorem smt_proof_complete_witness:
  "verify_proof sum_xof (smt_root (smt_put sum_xof (smt_new sum_xof) key0 [1])) key0
     (smt_proof (smt_put sum_xof (smt_new sum_xof) key0 [1]) key0)"
  using smt_proof_complete [OF base_sum, of "[(key0, [1])]" key0] put_safe_sum by (simp add: key0_def)

text \<open>
  C8. Proofs are sound: against the root of a tree no accepted proof shows anything but what the
  tree stores, provided the nodes and leaves hashed by that proof and by the tree's own
  proof do not collide.
\<close>

theorem smt_proof_sound:
  assumes "smt_inv xof t" "length k = 32" "verify_proof xof (smt_root t) k pr"
    and "proofs_clash_free xof k pr (smt_proof t k)"
  shows "shown_value pr = smt_get t k"
proof -
  have "mp_value pr = mp_value (smt_proof t k)"
    using assms(3) smt.check_prove [OF assms(1,2)] assms(4) by (rule verified_values_agree)
  then have "shown_value pr = shown_value (smt_proof t k)" by (simp add: shown_value_def)
  also have "\<dots> = smt_get t k" by (rule smt.shown_prove [OF assms(1)])
  finally show ?thesis .
qed

lemma loop_nodes_default:
  assumes "d \<le> 256" "\<And>i. i < d \<Longrightarrow> path ! i = default_at xof (255 - i)"
  shows "set (loop_nodes xof k path d (default_at xof (256 - d))) \<subseteq> default_nodes xof"
  using assms
proof (induction d)
  case (Suc d)
  have e: "256 - d = Suc (255 - d)" "256 - Suc d = 255 - d" using Suc.prems(1) by simp_all
  have nd: "ordered k path d (default_at xof (255 - d)) =
      \<lparr> left = default_at xof (255 - d), right = default_at xof (255 - d) \<rparr>"
    using Suc.prems by (simp add: ordered_def)
  have "set (loop_nodes xof k path d (default_at xof (256 - d))) \<subseteq> default_nodes xof"
    using Suc by simp
  then show ?case unfolding loop_nodes.simps Let_def e(2) nd
    by (auto simp: node_hash_def default_nodes_def e(1))
qed simp

lemma new_proof_clash_free:
  "proofs_clash_free sum_xof key0 (smt_proof (smt_new sum_xof) key0) (smt_proof (smt_new sum_xof) key0)"
proof -
  let ?pr = "smt_proof (smt_new sum_xof) key0"
  have val: "mp_value ?pr = []" by (simp add: smt_proof_def smt_new_def Let_def)
  have sibs: "siblings ?pr = compute_path_to_leaf (smt_new sum_xof) key0" by (simp add: smt_proof_def)
  have "proof_nodes sum_xof key0 ?pr \<subseteq> default_nodes sum_xof"
    using loop_nodes_default [of 256 "compute_path_to_leaf (smt_new sum_xof) key0" sum_xof key0]
    by (simp add: proof_nodes_def val sibs leaf_hash_def KEY_BITS_def new_path)
  then show ?thesis
    using inj_on_subset [OF base_sum] by (simp add: proofs_clash_free_def val leaf_message_def)
qed

theorem smt_proof_sound_witness:
  "shown_value (smt_proof (smt_new sum_xof) key0) = smt_get (smt_new sum_xof) key0"
proof (rule smt_proof_sound [OF inv_new_sum _ _ new_proof_clash_free])
  show "length key0 = 32" by (simp add: key0_def)
  then show "verify_proof sum_xof (smt_root (smt_new sum_xof)) key0 (smt_proof (smt_new sum_xof) key0)"
    by (rule smt.check_prove [OF inv_new_sum])
qed

section \<open>Properties of the account record\<close>

text \<open>
  The 64-byte record keeps its fields apart: writing one field leaves the others unchanged
  and reads back. The balance reads back modulo \<open>2^127\<close>, and its top bit is the frozen flag:
  a balance of \<open>2^127\<close> or more freezes the account.
\<close>

theorem account_fields_independent:
  assumes "account_wf a"
  shows "unat (balance (set_balance b a)) = unat b mod 2 ^ 127 \<and>
    (is_frozen (set_balance b a) \<longleftrightarrow> is_frozen a \<or> 2 ^ 127 \<le> unat b) \<and>
    nonce (set_balance b a) = nonce a \<and> pubkey (set_balance b a) = pubkey a \<and>
    nonce (set_nonce n a) = n \<and> balance (set_nonce n a) = balance a \<and>
    (is_frozen (set_nonce n a) \<longleftrightarrow> is_frozen a) \<and>
    (is_frozen (set_frozen f a) \<longleftrightarrow> f) \<and> balance (set_frozen f a) = balance a \<and>
    last_active (set_last_active e a) = e \<and> balance (set_last_active e a) = balance a"
  using assms by (simp add: account_frame del: power_numeral)

theorem account_fields_independent_witness:
  "is_frozen (set_balance (2 ^ 127) (account_new (replicate 32 7)))"
  using account_fields_independent [of "account_new (replicate 32 7)" "2 ^ 127"] by simp

text \<open>
  The freeze networks implement \<open>set_frozen\<close>: on the flag byte followed by a well-formed
  record, the pipeline's output is byte 47 of the record with the flag set or cleared.
\<close>

theorem freeze_networks_refine_set_frozen:
  assumes "account_wf a"
  shows "and_then (freeze_setup_build xof) (\<lambda>setup.
     and_then (freeze_apply_build xof) (\<lambda>app.
     and_then (freeze_setup_run setup ((if f then 1 else 0) # abytes a)) (\<lambda>(flag, byte47).
       freeze_apply_run app flag byte47))) = Ok (abytes (set_frozen f a) ! FLAGS_BYTE)"
proof -
  have len: "length (abytes a) = 64" using assms by (simp add: account_wf_def account_consts)
  let ?t = "abytes a ! 47"
  have "abytes (set_frozen f a) ! FLAGS_BYTE = (if f then ?t OR 128 else ?t AND 127)"
    using len by (simp add: set_frozen_def Let_def account_consts)
  then have "unat (abytes (set_frozen f a) ! FLAGS_BYTE) = unat ?t mod 128 + 128 * unat (if f then 1 else 0 :: u8)"
    by (simp add: set_top low7)
  then have "abytes (set_frozen f a) ! FLAGS_BYTE = of_nat (unat ?t mod 128 + 128 * unat (if f then 1 else 0 :: u8))"
    by (metis of_nat_unat ucast_id)
  then show ?thesis
    by (simp add: freeze_setup_run_value freeze_apply_run_value freeze_setup_net_def freeze_apply_net_def)
qed

theorem freeze_networks_refine_set_frozen_witness:
  "and_then (freeze_setup_build sum_xof) (\<lambda>setup.
     and_then (freeze_apply_build sum_xof) (\<lambda>app.
     and_then (freeze_setup_run setup (1 # abytes (account_new (replicate 32 7)))) (\<lambda>(flag, byte47).
       freeze_apply_run app flag byte47))) = Ok (abytes (set_frozen True (account_new (replicate 32 7))) ! FLAGS_BYTE)"
  using freeze_networks_refine_set_frozen [of "account_new (replicate 32 7)" sum_xof True] by simp

end
