(* ===== verification/Ledger_Properties.thy ===== *)
theory Ledger_Properties
  imports Ledger_Spec Light_Client Crypto_Properties
begin

text \<open>
  The properties of the sequencer and of the light client: what signatures and hashes cover,
  what validation admits, how transactions change balances, what a block header commits to,
  and what a light client may conclude.
\<close>

declare process_txs.simps(2) [simp del]

section \<open>Encodings and hashes\<close>

text \<open>
  C36. A transaction signature covers every field: two well-formed transactions with the same
  canonical bytes differ at most in the signature itself.
\<close>

theorem canonical_covers_all_fields:
  assumes "tx_wf t1" "tx_wf t2" "canonical t1 = canonical t2"
  shows "t1\<lparr>signature := []\<rparr> = t2\<lparr>signature := []\<rparr>"
  using assms by (simp add: canonical_inject)

definition sample_tx :: signed_tx where
  "sample_tx = \<lparr> kind = Freeze, asset_id = 1, tx_nonce = 1, signer = replicate 32 9, recipient = Some key0,
     amount = replicate 16 0, flag = 1, court_order_hash = Some (replicate 32 5), multi_payload = None,
     originator_metadata = None, signature = replicate 64 0 \<rparr>"

lemma sample_tx_wf: "tx_wf sample_tx" "tx_wf (sample_tx\<lparr>signature := replicate 64 1\<rparr>)"
  by (simp_all add: sample_tx_def tx_wf_def opt_len_def opt_small_def key0_def)

theorem canonical_covers_all_fields_witness:
  "sample_tx\<lparr>signature := replicate 64 1\<rparr>\<lparr>signature := []\<rparr> = sample_tx\<lparr>signature := []\<rparr>"
  by (rule canonical_covers_all_fields [OF sample_tx_wf(2,1)]) (simp add: canonical_def)

text \<open>
  A block header commits to its content: equal header hashes mean equal headers, and equal
  transaction-list hashes mean equal transaction lists, signatures included, provided the
  digest does not collide on the two messages.
\<close>

theorem header_commits:
  assumes "header_wf h1" "header_wf h2" "header_hash xof h1 = header_hash xof h2"
    and "inj_on (\<lambda>m. xof m 32) {signing_bytes h1 @ sequencer_sig h1, signing_bytes h2 @ sequencer_sig h2}"
    and "list_all tx_wf txs1" "list_all tx_wf txs2" "tx_list_hash xof txs1 = tx_list_hash xof txs2"
    and "inj_on (\<lambda>m. xof m 32) {concat (map tx_entry txs1), concat (map tx_entry txs2)}"
  shows "h1 = h2 \<and> txs1 = txs2"
proof
  have "signing_bytes h1 @ sequencer_sig h1 = signing_bytes h2 @ sequencer_sig h2"
    using assms(3) unfolding header_hash_def hash_bytes_def by (rule inj_onD [OF assms(4)]) simp_all
  then show "h1 = h2" using header_message_inject [OF assms(1,2)] by simp
  have "concat (map tx_entry txs1) = concat (map tx_entry txs2)"
    using assms(7) unfolding tx_list_hash_entries by (rule inj_onD [OF assms(8)]) simp_all
  then show "txs1 = txs2" using tx_entries_inject [OF assms(5,6)] by simp
qed

definition sample_header :: block_header where
  "sample_header = \<lparr> block_n = 0, parent_hash = replicate 32 0, prev_state_root = replicate 32 1,
     hdr_tx_list_hash = replicate 32 2, hdr_trace_hash = replicate 32 3, new_state_root = replicate 32 4,
     issuer_registry_root = replicate 32 5, timestamp_ms = 6, sequencer_pubkey = replicate 32 7,
     sequencer_sig = replicate 64 8 \<rparr>"

theorem header_commits_witness: "sample_header = sample_header \<and> [sample_tx] = [sample_tx]"
  by (rule header_commits [where xof = sum_xof])
     (simp_all add: header_wf_def sample_header_def sample_tx_wf)

section \<open>Validation\<close>

definition open_ed :: ed25519 where
  "open_ed = \<lparr> ed_public = (\<lambda>sk. take 32 (sk @ replicate 32 0)), ed_sign = (\<lambda>sk m. replicate 64 0),
     ed_key_ok = (\<lambda>_. True), ed_check = (\<lambda>pk m s. s = replicate 64 0) \<rparr>"

lemma open_ed_correct: "ed_correct open_ed"
  by (simp add: ed_correct_def open_ed_def min_def)

definition sample_issuer :: issuer_record where
  "sample_issuer = \<lparr> ir_asset_id = 1, authority_pubkey = replicate 32 9, max_supply = replicate 16 0,
     mint_enabled = True, burn_enabled = True, freeze_enabled = True,
     travel_rule_threshold = replicate 16 255, regulator_view_keys = [], ir_name = [] \<rparr>"

definition sample_json :: json where
  "sample_json = \<lparr> to_vec = (\<lambda>_. [1]), from_slice = (\<lambda>_. Some sample_issuer) \<rparr>"

lemma sample_tx_valid: "validate open_ed sample_tx s (\<lambda>_. Some sample_issuer) = Ok ()"
  by (simp add: validate_Ok validate_checks verify_Ok_iff open_ed_def sample_tx_def sample_issuer_def)

text \<open>
  C17. What a submission for a registered asset comes to: it is queued, at the end and without any other
  change, exactly when the mempool has room, the signature over all fields verifies and
  the rules for its kind hold: a transfer, burn or multi-asset transaction has the next
  nonce, a transfer or burn an unfrozen signer; minting, burning and freezing are signed by
  the asset's authority and enabled, a freeze names a court order; a transfer or
  multi-asset transaction carries originator metadata unless there is a threshold and the
  amount does not exceed it. Minting and freezing ask for no nonce. Otherwise, and for an
  asset nobody registered, the submission is an error and the node is unchanged.
\<close>

theorem submission_decided:
  fixes nd :: node and xof :: xof
  assumes "from_slice js (to_vec js r) = Some r" "to_vec js r \<noteq> []" "ir_asset_id r = asset_id tx"
  defines "a \<equiv> state_account (node_state nd) (signer tx)" and "nd' \<equiv> register_issuer xof js r nd"
    and "exempt \<equiv> u128_from_le (travel_rule_threshold r) \<noteq> 0 \<and> u128_from_le (amount tx) \<le> u128_from_le (travel_rule_threshold r)"
  shows "(if length (queue (node_mempool nd)) < capacity (node_mempool nd) \<and>
       ed_key_ok ed (signer tx) \<and> ed_check ed (signer tx) (canonical tx) (signature tx) \<and>
       (case kind tx of
          Transfer \<Rightarrow> tx_nonce tx = nonce a + 1 \<and> \<not> is_frozen a \<and> (originator_metadata tx \<noteq> None \<or> exempt)
        | MultiAsset \<Rightarrow> tx_nonce tx = nonce a + 1 \<and> (originator_metadata tx \<noteq> None \<or> exempt)
        | Mint \<Rightarrow> signer tx = authority_pubkey r \<and> mint_enabled r
        | Burn \<Rightarrow> tx_nonce tx = nonce a + 1 \<and> \<not> is_frozen a \<and> signer tx = authority_pubkey r \<and> burn_enabled r
        | Freeze \<Rightarrow> signer tx = authority_pubkey r \<and> freeze_enabled r \<and> court_order_hash tx \<noteq> None)
     then sovereign_submit_tx xof ed js tx nd' =
       (nd'\<lparr>node_mempool := (node_mempool nd)\<lparr>queue := queue (node_mempool nd) @ [tx]\<rparr>\<rparr>, Ok ())
     else \<exists>e. sovereign_submit_tx xof ed js tx nd' = (nd', Err e)) \<and>
    (smt_get (registry (node_state nd)) (hash_bytes xof (ascii ''issuer:'' @ u32_le (asset_id tx))) = None \<longrightarrow>
       (\<exists>e. sovereign_submit_tx xof ed js tx nd = (nd, Err e)))" 
    (is "(if ?admitted then ?queued else ?refused) \<and> ?unknown")
proof
  have mem: "node_mempool nd' = node_mempool nd" by (simp add: nd'_def register_frame)
  have "lookup_issuer xof js nd' (asset_id tx) = Some r"
    using lookup_registered [OF assms(2), of xof nd] assms(1,3) by (simp add: nd'_def)
  then have "validate ed tx (node_state nd') (lookup_issuer xof js nd') = Ok () \<longleftrightarrow>
      ed_key_ok ed (signer tx) \<and> ed_check ed (signer tx) (canonical tx) (signature tx) \<and>
      check_nonce tx a = Ok () \<and> check_authority tx r = Ok () \<and> check_travel_rule tx r = Ok ()"
    by (simp add: validate_Ok verify_Ok_iff nd'_def register_frame a_def)
  then have "length (queue (node_mempool nd')) < capacity (node_mempool nd') \<and>
      validate ed tx (node_state nd') (lookup_issuer xof js nd') = Ok () \<longleftrightarrow> ?admitted"
    by (cases "kind tx") (auto simp: mem validate_checks not_less exempt_def)
  then show "if ?admitted then ?queued else ?refused"
    using submit_outcome [of nd' ed tx xof js] by (simp only: mem)
  show ?unknown
    using submit_outcome [of nd ed tx xof js] by (auto simp: validate_Ok lookup_issuer_def Let_def)
qed

text \<open>A node with one issuer queues a freeze with a court order and refuses one without.\<close>

theorem submission_decided_witness:
  "\<exists>js nd nd'. sovereign_submit_tx sum_xof open_ed js sample_tx nd = (nd', Ok ()) \<and>
     queue (node_mempool nd') = [sample_tx] \<and>
     (\<exists>e. sovereign_submit_tx sum_xof open_ed js (sample_tx\<lparr>court_order_hash := None\<rparr>) nd = (nd, Err e))"
proof -
  let ?nd = "node_new sum_xof (from_seed []) 10"
  have js: "from_slice sample_json (to_vec sample_json sample_issuer) = Some sample_issuer" "to_vec sample_json sample_issuer \<noteq> []"
    by (simp_all add: sample_json_def)
  have empty: "queue (node_mempool ?nd) = []" "0 < capacity (node_mempool ?nd)"
    by (simp_all add: node_new_def mempool_new_def)
  have "sovereign_submit_tx sum_xof open_ed sample_json sample_tx (register_issuer sum_xof sample_json sample_issuer ?nd) =
      ((register_issuer sum_xof sample_json sample_issuer ?nd)\<lparr>node_mempool := (node_mempool ?nd)\<lparr>queue := [sample_tx]\<rparr>\<rparr>, Ok ())"
    using submission_decided [OF js, of sample_tx ?nd open_ed sum_xof] empty
    by (simp add: sample_tx_def sample_issuer_def open_ed_def)
  moreover have "\<exists>e. sovereign_submit_tx sum_xof open_ed sample_json (sample_tx\<lparr>court_order_hash := None\<rparr>)
      (register_issuer sum_xof sample_json sample_issuer ?nd) = (register_issuer sum_xof sample_json sample_issuer ?nd, Err e)"
    using submission_decided [OF js, of "sample_tx\<lparr>court_order_hash := None\<rparr>" ?nd open_ed sum_xof]
    by (simp add: sample_tx_def sample_issuer_def)
  ultimately show ?thesis by (intro exI [of _ sample_json] exI) (auto simp: node_new_def)
qed

section \<open>The effect of transactions\<close>

text \<open>
  C2. Native execution refines the abstract ledger, on every branch: whatever batch of transactions a
  block holds, execution applies to the ledger of balances, nonces and frozen flags
  exactly the transactions up to the first that cannot be assembled (a multi-asset
  transaction or a transfer without recipient). If there is none, it returns one trace
  hash each; otherwise it ends with that transaction's error, and the effects stay.
\<close>

theorem native_refines_ledger:
  assumes "state_ok s" "list_all keys_ok txs"
  shows "\<exists>s'. process_txs xof native_execute ep s txs =
      (s', case dropWhile assemblable txs of
             [] \<Rightarrow> Ok (replicate (length txs) NATIVE_TRACE_MARKER) | tx # _ \<Rightarrow> Err (assembly_error tx)) \<and>
    state_ok s' \<and> ledger_of s' = fold apply_tx (takeWhile assemblable txs) (ledger_of s)"
  using assms by (rule process_refines)

definition pay_tx :: "hash \<Rightarrow> hash \<Rightarrow> nat \<Rightarrow> signed_tx" where
  "pay_tx from to amt = sample_tx\<lparr>kind := Transfer, signer := from, recipient := Some to, amount := le_bytes 16 amt\<rparr>"

lemma pay_tx_ok: "length from = 32 \<Longrightarrow> length to = 32 \<Longrightarrow> transfer_ok (pay_tx from to amt) to"
  by (simp add: transfer_ok_def pay_tx_def)

text \<open>A mint, a payment, a burn, a payment and a burn without the funds, then a transfer without recipient.\<close>

definition sample_batch :: "signed_tx list" where
  "sample_batch =
     [(pay_tx key0 key0 100)\<lparr>kind := Mint\<rparr>, pay_tx key0 (replicate 32 1) 40, (pay_tx key0 key0 10)\<lparr>kind := Burn\<rparr>,
      pay_tx key0 (replicate 32 1) 60, (pay_tx key0 key0 60)\<lparr>kind := Burn\<rparr>]"

definition no_recipient_tx :: signed_tx where
  "no_recipient_tx = sample_tx\<lparr>kind := Transfer, recipient := None, originator_metadata := Some [1]\<rparr>"

lemma sample_batch_ok:
  "list_all keys_ok sample_batch" "list_all assemblable sample_batch" "list_all (among {key0, replicate 32 1}) sample_batch"
  "keys_ok no_recipient_tx" "\<not> assemblable no_recipient_tx"
  by (simp_all add: sample_batch_def pay_tx_def keys_ok_def assemblable_def among_def target_def key0_def
      no_recipient_tx_def sample_tx_def replicate_eq_replicate)

lemma pay_amount: "amt < 2 ^ 127 \<Longrightarrow> unat (u128_from_le (amount (pay_tx f t amt))) = amt"
  by (subst unat_from_le) (simp_all add: pay_tx_def le_nat_le_bytes)

lemma pay_tx_amount: "amt < 2 ^ 127 \<Longrightarrow> tx_amount (pay_tx f t amt) = amt"
  by (simp add: tx_amount_def pay_amount)

lemma tx_amount_kind [simp]: "tx_amount (tx\<lparr>kind := k\<rparr>) = tx_amount tx"
  by (simp add: tx_amount_def)

lemma pay_tx_simps [simp]:
  "signer (pay_tx f t amt) = f" "kind (pay_tx f t amt) = Transfer" "target (pay_tx f t amt) = t"
  "target (tx\<lparr>kind := k\<rparr>) = target tx"
  by (simp_all add: pay_tx_def target_def split: option.split)

lemma sample_batch_ledger:
  defines "L \<equiv> fold apply_tx sample_batch (\<lambda>_. empty_entry)"
  shows "L key0 = \<lparr> e_balance = 50, e_nonce = 1, e_frozen = False \<rparr>"
    "e_balance (L (replicate 32 1)) = 40" "total_burned sample_batch (\<lambda>_. empty_entry) = 10"
    "sum_list (map minted sample_batch) = 100"
  by (simp_all add: L_def sample_batch_def apply_tx_def pay_tx_amount empty_entry_def store_def minted_def burned_def
      key0_def replicate_eq_replicate)

theorem native_refines_ledger_witness:
  "\<exists>s'. process_txs sum_xof native_execute 0 (state_new sum_xof) (sample_batch @ [no_recipient_tx, sample_tx]) =
     (s', Err MissingRecipient) \<and> ledger_of s' key0 = \<lparr> e_balance = 50, e_nonce = 1, e_frozen = False \<rparr>"
proof -
  have cut: "takeWhile assemblable (sample_batch @ [no_recipient_tx, sample_tx]) = sample_batch"
    "dropWhile assemblable (sample_batch @ [no_recipient_tx, sample_tx]) = [no_recipient_tx, sample_tx]"
    using sample_batch_ok(2,5) by (simp_all add: list_all_iff takeWhile_append2 dropWhile_append2)
  have err: "assembly_error no_recipient_tx = MissingRecipient"
    by (simp add: assembly_error_def no_recipient_tx_def)
  have "list_all keys_ok (sample_batch @ [no_recipient_tx, sample_tx])"
    using sample_batch_ok(1,4) by (simp add: keys_ok_def [of sample_tx]) (simp add: sample_tx_def target_def key0_def)
  from native_refines_ledger [OF state_ok_new [of sum_xof] this, of sum_xof 0] show ?thesis
    unfolding cut ledger_of_new using sample_batch_ledger(1) by (auto simp: err)
qed

text \<open>
  C9. The supply is accounted for: a batch of transactions between members of a finite set of accounts
  that are not transfers to oneself, whose holdings and mints together stay below \<open>2^127\<close>, is
  executed without error, and the total afterwards is the total before plus what was minted
  less what was burned, whatever mixture of payable and unpayable ones it holds. In
  particular, transfers and freezes conserve the total.
\<close>

theorem supply_accounted:
  assumes "state_ok s" "finite K" "list_all (\<lambda>tx. keys_ok tx \<and> assemblable tx \<and> among K tx) txs"
    and "total_supply (ledger_of s) K + sum_list (map minted txs) < 2 ^ 127"
  shows "\<exists>s'. process_txs xof native_execute ep s txs = (s', Ok (replicate (length txs) NATIVE_TRACE_MARKER)) \<and>
    state_ok s' \<and>
    total_supply (ledger_of s') K + total_burned txs (ledger_of s) = total_supply (ledger_of s) K + sum_list (map minted txs)"
proof -
  have "list_all keys_ok txs" "list_all assemblable txs" "list_all (among K) txs"
    using assms(3) by (simp_all add: list_all_iff)
  then show ?thesis
    using process_refines [OF assms(1), of txs xof ep] supply_fold [OF assms(2) _ assms(4)] assemblable_all [of txs]
    by auto
qed

theorem supply_accounted_witness:
  "\<exists>s'. process_txs sum_xof native_execute 0 (state_new sum_xof) sample_batch = (s', Ok (replicate 5 NATIVE_TRACE_MARKER)) \<and>
    total_supply (ledger_of s') {key0, replicate 32 1} = 90"
proof -
  let ?K = "{key0, replicate 32 1}"
  have zero: "total_supply (\<lambda>_. empty_entry) ?K = 0" by (simp add: total_supply_def empty_entry_def)
  have "list_all (\<lambda>tx. keys_ok tx \<and> assemblable tx \<and> among ?K tx) sample_batch"
    using sample_batch_ok(1-3) by (simp add: list_all_iff)
  moreover have "length sample_batch = 5" by (simp add: sample_batch_def)
  ultimately show ?thesis
    using supply_accounted [OF state_ok_new [of sum_xof], of ?K sample_batch sum_xof 0] sample_batch_ledger(3,4) zero
    by (auto simp: ledger_of_new)
qed

text \<open>
  C39. A transfer to oneself creates value: both records are computed from the same account and the
  second overwrites the first, so the amount is added to the balance and the nonce does not
  advance. (Validation admits such a transfer, and admits it again afterwards.)
\<close>

theorem self_transfer_mints:
  assumes "state_ok s" "transfer_ok tx (signer tx)" "payable s tx"
    and "bal s (signer tx) + unat (u128_from_le (amount tx)) < 2 ^ 127"
  shows "\<exists>s'. process_txs xof native_execute ep s [tx] = (s', Ok [NATIVE_TRACE_MARKER]) \<and>
    bal s' (signer tx) = bal s (signer tx) + unat (u128_from_le (amount tx)) \<and>
    nonce (state_account s' (signer tx)) = nonce (state_account s (signer tx))"
proof -
  have wf: "account_wf (state_account s (signer tx))" "pubkey (state_account s (signer tx)) = signer tx"
    using assms(1,2) by (simp_all add: transfer_ok_def state_account_wf)
  have "state_account (after_transfer xof ep tx (signer tx) s) (signer tx) =
      credit (u128_from_le (amount tx)) ep (state_account s (signer tx))"
    using assms(3) wf by (simp add: after_transfer_def state_account_put credit_effect)
  then show ?thesis
    using assms(4) wf by (simp add: process_transfer [OF assms(2)] credit_effect)
qed

text \<open>A ledger on which one account holds a given balance.\<close>

definition funded :: "nat \<Rightarrow> state" where
  "funded n = put_account sum_xof (set_balance (of_nat n) (account_new key0)) (state_new sum_xof)"

lemma funded_account:
  "state_ok (funded n)" "state_account (funded n) key0 = set_balance (of_nat n) (account_new key0)"
proof -
  have wf: "account_wf (account_new key0)" "length key0 = 32" by (simp_all add: key0_def)
  then have pk: "pubkey (set_balance (of_nat n) (account_new key0)) = key0"
    by (simp add: account_frame account_new_values)
  show "state_ok (funded n)"
    unfolding funded_def using wf by (intro state_ok_put state_ok_new) simp
  show "state_account (funded n) key0 = set_balance (of_nat n) (account_new key0)"
    using wf pk by (simp add: funded_def state_account_put)
qed

lemma funded_values:
  "n < 2 ^ 127 \<Longrightarrow> bal (funded n) key0 = n" "n < 2 ^ 127 \<Longrightarrow> \<not> is_frozen (state_account (funded n) key0)"
proof -
  assume n: "n < 2 ^ 127"
  have wf: "account_wf (account_new key0)" "length key0 = 32" by (simp_all add: key0_def)
  have "unat (of_nat n :: u128) = n" using n by (intro unat_of_nat_less) simp
  then show "bal (funded n) key0 = n" "\<not> is_frozen (state_account (funded n) key0)"
    using n wf by (simp_all add: funded_account account_frame account_new_values not_le del: power_numeral)
qed

lemma pay_payable: "amt \<le> n \<Longrightarrow> n < 2 ^ 127 \<Longrightarrow> payable (funded n) (pay_tx key0 t amt)"
  using pay_amount [of amt key0 t] funded_values [of n]
  by (simp add: payable_def word_less_nat_alt pay_tx_def)

theorem self_transfer_mints_witness:
  "\<exists>s'. process_txs sum_xof native_execute 0 (funded 100) [pay_tx key0 key0 40] = (s', Ok [NATIVE_TRACE_MARKER]) \<and>
    bal s' key0 = 140"
proof -
  have "transfer_ok (pay_tx key0 key0 40) (signer (pay_tx key0 key0 40))"
    using pay_tx_ok [of key0 key0 40] by (simp add: pay_tx_def key0_def)
  then show ?thesis
    using self_transfer_mints [OF funded_account(1) _ pay_payable, of key0 40 100 sum_xof 0]
      pay_amount [of 40 key0 key0] funded_values [of 100]
    by (auto simp: pay_tx_def)
qed

text \<open>
  A transfer submitted twice is executed twice: the mempool accepts the same signed
  transaction again, and the executor does not look at the nonce, so one signature moves
  the amount two times.
\<close>

theorem duplicate_transfer_pays_twice:
  assumes "state_ok s" "transfer_ok tx to" "signer tx \<noteq> to" "validate ed tx s reg = Ok ()"
    and "length (queue mp) + 2 \<le> capacity mp"
    and "2 * unat (u128_from_le (amount tx)) \<le> bal s (signer tx)"
    and "bal s to + 2 * unat (u128_from_le (amount tx)) < 2 ^ 127"
  shows "ingress ed (fst (ingress ed mp tx s reg)) tx s reg = (mp\<lparr>queue := queue mp @ [tx, tx]\<rparr>, Ok ()) \<and>
    (\<exists>s'. process_txs xof native_execute ep s [tx, tx] = (s', Ok [NATIVE_TRACE_MARKER, NATIVE_TRACE_MARKER]) \<and>
      bal s' (signer tx) = bal s (signer tx) - 2 * unat (u128_from_le (amount tx)) \<and>
      bal s' to = bal s to + 2 * unat (u128_from_le (amount tx)))"
proof -
  let ?amt = "u128_from_le (amount tx)" and ?f = "signer tx"
  let ?s1 = "after_transfer xof ep tx to s"
  let ?s2 = "after_transfer xof ep tx to ?s1"
  have frozen: "\<not> is_frozen (state_account s ?f)"
    using assms(2,4) by (simp add: validate_Ok check_nonce_Ok transfer_ok_def)
  have wf: "account_wf (state_account st k)" if "state_ok st" "k = ?f \<or> k = to" for st k
    using that assms(2) by (auto simp: transfer_ok_def state_account_wf)
  have ok1: "state_ok ?s1" by (rule state_ok_after_transfer [OF assms(1,2)])
  have pay: "payable s tx" using frozen assms(6) by (simp add: payable_def word_less_nat_alt)
  note acc1 = after_transfer_accounts [OF assms(1-3) pay]
  have le: "?amt \<le> balance (state_account s ?f)" using assms(6) by (simp add: word_le_nat_alt)
  have f1: "bal ?s1 ?f = bal s ?f - unat ?amt" "\<not> is_frozen (state_account ?s1 ?f)"
    using assms(3) frozen le wf [OF assms(1)] by (simp_all add: acc1 debit_effect)
  have t1: "bal ?s1 to = bal s to + unat ?amt"
    using assms(7) wf [OF assms(1)] by (simp add: acc1 credit_effect)
  have pay1: "payable ?s1 tx" using f1 assms(6) by (simp add: payable_def word_less_nat_alt)
  note acc2 = after_transfer_accounts [OF ok1 assms(2,3) pay1]
  have le1: "?amt \<le> balance (state_account ?s1 ?f)" using f1(1) assms(6) by (simp add: word_le_nat_alt)
  have f2: "bal ?s2 ?f = bal s ?f - 2 * unat ?amt"
    using assms(3) le1 f1(1) wf [OF ok1] by (simp add: acc2 debit_effect)
  have t2: "bal ?s2 to = bal s to + 2 * unat ?amt"
    using assms(7) t1 wf [OF ok1] by (simp add: acc2 credit_effect)
  show ?thesis
    using ingress_twice(2) [OF assms(4,5)] f2 t2 by (simp add: process_transfer [OF assms(2)])
qed

definition dup_tx :: signed_tx where
  "dup_tx = (pay_tx key0 (replicate 32 1) 30)\<lparr>originator_metadata := Some [1]\<rparr>"

theorem duplicate_transfer_pays_twice_witness:
  "\<exists>s'. process_txs sum_xof native_execute 0 (funded 100) [dup_tx, dup_tx] =
     (s', Ok [NATIVE_TRACE_MARKER, NATIVE_TRACE_MARKER]) \<and> bal s' key0 = 40"
proof -
  let ?to = "replicate 32 1 :: bytes"
  have len: "length key0 = 32" by (simp add: key0_def)
  have to: "transfer_ok dup_tx ?to" "signer dup_tx = key0" "key0 \<noteq> ?to"
    using pay_tx_ok [of key0 ?to 30] by (simp_all add: dup_tx_def transfer_ok_def pay_tx_def key0_def replicate_eq_replicate)
  have amt: "unat (u128_from_le (amount dup_tx)) = 30"
    using pay_amount [of 30 key0 ?to] by (simp add: dup_tx_def)
  have acc: "nonce (state_account (funded 100) key0) = 0" "bal (funded 100) key0 = 100"
    "\<not> is_frozen (state_account (funded 100) key0)"
    using funded_values [of 100] len by (simp_all add: funded_account account_frame account_new_values)
  have "bal (funded 100) ?to = 0"
    using to(3) len by (simp add: funded_def state_account_put account_frame account_new_values state_account_new)
  moreover have "validate open_ed dup_tx (funded 100) (\<lambda>_. Some sample_issuer) = Ok ()"
    using acc to(2) by (simp add: validate_Ok check_nonce_Ok check_authority_Ok check_travel_rule_Ok verify_Ok_iff
        open_ed_def dup_tx_def pay_tx_def sample_tx_def)
  ultimately show ?thesis
    using duplicate_transfer_pays_twice [OF funded_account(1) to(1) _ _, of open_ed 100 "\<lambda>_. Some sample_issuer"
        "mempool_new 2" sum_xof 0] to amt acc
    by (auto simp: mempool_new_def)
qed

text \<open>
  A burn can be replayed: executing it does not advance the signer's nonce, so the same
  signed transaction is valid again afterwards.
\<close>

theorem burn_replayable:
  assumes "state_ok s" "kind tx = Burn" "length (signer tx) = 32" "validate ed tx s reg = Ok ()"
    and "u128_from_le (amount tx) \<le> balance (state_account s (signer tx))"
  shows "\<exists>s'. process_txs xof native_execute ep s [tx] = (s', Ok [NATIVE_TRACE_MARKER]) \<and>
    bal s' (signer tx) = bal s (signer tx) - unat (u128_from_le (amount tx)) \<and>
    validate ed tx s' reg = Ok ()"
proof -
  let ?a = "state_account s (signer tx)" and ?amt = "u128_from_le (amount tx)"
  let ?a' = "set_last_active (ucast ep) (set_balance (balance ?a - ?amt) ?a)"
  let ?s' = "put_account xof ?a' s"
  have wf: "account_wf ?a" "pubkey ?a = signer tx" using assms(1,3) by (simp_all add: state_account_wf)
  have u: "unat (balance ?a - ?amt) = unat (balance ?a) - unat ?amt"
    using assms(5) by (simp add: unat_sub_if' word_le_nat_alt)
  then have lt: "unat (balance ?a - ?amt) < 2 ^ 127" using unat_balance_bound [OF wf(1)] by linarith
  have acc: "state_account ?s' (signer tx) = ?a'"
    using wf by (simp add: state_account_put account_frame)
  have "validate ed tx ?s' reg = Ok ()"
    using assms(4) by (rule validate_depends)
      (use wf lt in \<open>simp_all add: acc account_frame not_le del: power_numeral\<close>)
  moreover have "bal ?s' (signer tx) = bal s (signer tx) - unat ?amt"
    using wf lt u by (simp add: acc account_frame del: power_numeral)
  ultimately show ?thesis using process_burn [OF assms(2,5)] by simp
qed

definition burn_tx :: signed_tx where
  "burn_tx = sample_tx\<lparr>kind := Burn, signer := key0, amount := le_bytes 16 30\<rparr>"

theorem burn_replayable_witness:
  "\<exists>s'. process_txs sum_xof native_execute 0 (funded 100) [burn_tx] = (s', Ok [NATIVE_TRACE_MARKER]) \<and>
     bal s' key0 = 70 \<and>
     validate open_ed burn_tx s' (\<lambda>_. Some (sample_issuer\<lparr>authority_pubkey := key0\<rparr>)) = Ok ()"
proof -
  have len: "length key0 = 32" by (simp add: key0_def)
  have sg: "signer burn_tx = key0" "kind burn_tx = Burn" by (simp_all add: burn_tx_def)
  have amt: "unat (u128_from_le (amount burn_tx)) = 30"
    by (subst unat_from_le) (simp_all add: burn_tx_def le_nat_le_bytes)
  have acc: "nonce (state_account (funded 100) key0) = 0" "bal (funded 100) key0 = 100"
    "\<not> is_frozen (state_account (funded 100) key0)"
    using funded_values [of 100] len by (simp_all add: funded_account account_frame account_new_values)
  have "validate open_ed burn_tx (funded 100) (\<lambda>_. Some (sample_issuer\<lparr>authority_pubkey := key0\<rparr>)) = Ok ()"
    using acc by (simp add: validate_Ok check_nonce_Ok check_authority_Ok check_travel_rule_Ok verify_Ok_iff
        open_ed_def burn_tx_def sample_tx_def sample_issuer_def)
  then show ?thesis
    using burn_replayable [OF funded_account(1) sg(2), of open_ed 100 _ sum_xof 0] sg len amt acc
    by (auto simp: word_le_nat_alt)
qed

section \<open>Blocks\<close>

text \<open>
  What a produced block commits to: the first \<open>block_size\<close> queued transactions, the account
  roots before and after, the hash link to the previous header, the next block number, and a
  signature of the sequencer that verifies.
\<close>

theorem produced_block_commits:
  assumes "produce_block xof ed exec now1 now2 nd = (nd', Ok (Some blk))" "ed_correct ed"
  shows "last_header nd' = Some (blk_header blk) \<and>
    blk_txs blk = take (block_size nd) (queue (node_mempool nd)) \<and>
    hdr_tx_list_hash (blk_header blk) = tx_list_hash xof (blk_txs blk) \<and>
    prev_state_root (blk_header blk) = accounts_root (node_state nd) \<and>
    new_state_root (blk_header blk) = accounts_root (node_state nd') \<and>
    (\<forall>p. last_header nd = Some p \<longrightarrow>
       parent_hash (blk_header blk) = header_hash xof p \<and> block_n (blk_header blk) = block_n p + 1) \<and>
    verify ed (sequencer_pubkey (blk_header blk)) (signing_bytes (blk_header blk))
      (sequencer_sig (blk_header blk)) = Ok ()"
  using produce_block_Some [OF assms(1)] verify_signed [OF assms(2)] by simp

definition sample_node :: node where
  "sample_node = (node_new sum_xof (from_seed (replicate 32 3)) 10)\<lparr>node_mempool := (mempool_new 10)\<lparr>queue := [sample_tx]\<rparr>\<rparr>"

definition frozen_state :: state where
  "frozen_state = put_account sum_xof (set_frozen True (account_new key0)) (state_new sum_xof)"

lemma sample_process:
  "process_txs sum_xof native_execute ep (state_new sum_xof) [sample_tx] = (frozen_state, Ok [NATIVE_TRACE_MARKER])"
  by (subst process_freeze) (simp_all add: sample_tx_def target_def state_account_new frozen_state_def)

lemma sample_block:
  "\<exists>nd' blk. produce_block sum_xof open_ed native_execute 0 0 sample_node = (nd', Ok (Some blk)) \<and>
     node_state nd' = frozen_state"
  by (simp add: produce_block_def sample_node_def node_new_def mempool_new_def drain_def sample_process Let_def)

theorem produced_block_commits_witness:
  "\<exists>nd' blk. produce_block sum_xof open_ed native_execute 0 0 sample_node = (nd', Ok (Some blk)) \<and>
     blk_txs blk = [sample_tx] \<and> new_state_root (blk_header blk) = accounts_root frozen_state"
proof -
  obtain nd' blk where b: "produce_block sum_xof open_ed native_execute 0 0 sample_node = (nd', Ok (Some blk))"
    "node_state nd' = frozen_state"
    using sample_block by blast
  then show ?thesis
    using produced_block_commits [OF b(1) open_ed_correct]
    by (auto simp: sample_node_def node_new_def)
qed

text \<open>
  One transaction that cannot be assembled loses a block: a transfer without recipient, which
  validation does not reject, makes \<open>produce_block\<close> fail after the transactions before it have
  already changed the state. The batch is gone from the queue, the state has moved on, and
  no header commits to it.
\<close>

theorem poison_transaction_loses_block:
  assumes "queue (node_mempool nd) = pre @ bad # post" "length (queue (node_mempool nd)) \<le> block_size nd"
    and "kind bad = Transfer" "recipient bad = None"
    and "process_txs xof exec (ucast (of_nat (unat now1 div 1000) :: u64)) (node_state nd) pre = (s1, Ok hs)"
  shows "produce_block xof ed exec now1 now2 nd =
    (nd\<lparr>node_mempool := (node_mempool nd)\<lparr>queue := []\<rparr>, node_state := s1\<rparr>, Err MissingRecipient)"
  using assms process_poison [OF assms(5,3,4), of post]
  by (simp add: produce_block_def drain_def Let_def split: option.splits)

lemma no_recipient_valid:
  "validate open_ed no_recipient_tx (state_new sum_xof) (\<lambda>_. Some sample_issuer) = Ok ()"
  by (simp add: validate_Ok validate_checks verify_Ok_iff open_ed_def no_recipient_tx_def sample_tx_def
      state_account_new account_new_values)

theorem poison_transaction_loses_block_witness:
  "snd (produce_block sum_xof open_ed native_execute 0 0
      (sample_node\<lparr>node_mempool := (mempool_new 10)\<lparr>queue := [sample_tx, no_recipient_tx]\<rparr>\<rparr>)) = Err MissingRecipient \<and>
   node_state (fst (produce_block sum_xof open_ed native_execute 0 0
      (sample_node\<lparr>node_mempool := (mempool_new 10)\<lparr>queue := [sample_tx, no_recipient_tx]\<rparr>\<rparr>))) = frozen_state"
  by (subst (1 2) poison_transaction_loses_block [where pre = "[sample_tx]" and bad = no_recipient_tx
        and post = "[]" and ?s1.0 = frozen_state and hs = "[NATIVE_TRACE_MARKER]"])
     (simp_all add: sample_node_def node_new_def no_recipient_tx_def sample_process)

section \<open>The light client\<close>

text \<open>The sequencer's header as the light client sees it.\<close>

definition to_lc :: "block_header \<Rightarrow> signed_header" where
  "to_lc h = \<lparr> sh_header = \<lparr> lc_block_n = block_n h, lc_parent_hash = parent_hash h,
       lc_prev_state_root = prev_state_root h, lc_tx_list_hash = hdr_tx_list_hash h,
       lc_trace_hash = hdr_trace_hash h, lc_new_state_root = new_state_root h,
       lc_issuer_registry_root = issuer_registry_root h, lc_timestamp_ms = timestamp_ms h,
       lc_sequencer_pubkey = sequencer_pubkey h \<rparr>, sh_signature = sequencer_sig h \<rparr>"

lemma to_lc_bytes:
  "lc_signing_bytes (sh_header (to_lc h)) = signing_bytes h" "full_hash xof (to_lc h) = header_hash xof h"
  by (simp_all add: to_lc_def lc_signing_bytes_def signing_bytes_def full_hash_def header_hash_def)

text \<open>
  C18. The light client is sound: when it accepts a balance under a head whose state root is the root
  of a tree, the chain is signed throughout by the expected key and linked by hash from the
  genesis root, and the balance is the one the tree stores for the account.
\<close>

theorem light_client_sound:
  assumes "verify_balance xof ed genesis hs pk acct pr = Ok b"
    and "smt_inv xof t" "smt_root t = lc_new_state_root (sh_header (last hs))" "length acct = 32"
    and "proofs_clash_free xof acct pr (smt_proof t acct)"
  shows "(\<forall>h \<in> set hs. signed_by ed pk h) \<and> linked xof hs \<and> lc_prev_state_root (sh_header (hd hs)) = genesis \<and>
    b = (case smt_get t acct of
           Some v \<Rightarrow> if length v = 64 then balance \<lparr> abytes = v \<rparr> else 0 | None \<Rightarrow> 0)"
proof -
  note v = assms(1) [unfolded verify_balance_Ok]
  have "mp_value pr = mp_value (smt_proof t acct)"
    using v smt.check_prove [OF assms(2,4)] assms(3,5) by (intro verified_values_agree) auto
  then have "mp_value pr = (case smt_get t acct of Some w \<Rightarrow> w | None \<Rightarrow> [])"
    by (simp add: smt_proof_def smt_get_def split: option.splits)
  with v show ?thesis by (auto split: option.splits)
qed

definition genesis_header :: signed_header where
  "genesis_header = sh_sign open_ed \<lparr> lc_block_n = 0, lc_parent_hash = replicate 32 0,
     lc_prev_state_root = replicate 32 0, lc_tx_list_hash = replicate 32 0, lc_trace_hash = replicate 32 0,
     lc_new_state_root = smt_root (smt_new sum_xof), lc_issuer_registry_root = replicate 32 0,
     lc_timestamp_ms = 0, lc_sequencer_pubkey = replicate 32 3 \<rparr> (from_seed (replicate 32 3))"

theorem light_client_sound_witness:
  "verify_balance sum_xof open_ed (replicate 32 0) [genesis_header] (replicate 32 3) key0
     (smt_proof (smt_new sum_xof) key0) = Ok 0 \<and> signed_by open_ed (replicate 32 3) genesis_header"
proof -
  have ok: "verify_balance sum_xof open_ed (replicate 32 0) [genesis_header] (replicate 32 3) key0
      (smt_proof (smt_new sum_xof) key0) = Ok 0"
    using smt.check_prove [OF inv_new_sum, of key0]
    by (simp add: verify_balance_Ok genesis_header_def sh_sign_def signed_by_def verify_Ok_iff open_ed_def
        kp_sign_def key0_def) (simp add: smt_proof_def smt_new_def Let_def)
  then show ?thesis
    using light_client_sound [OF ok inv_new_sum _ _ new_proof_clash_free]
    by (simp add: genesis_header_def sh_sign_def key0_def)
qed

end
