(* ===== verification/Ledger_Run.thy ===== *)
theory Ledger_Run
  imports Ledger_Properties
begin

text \<open>
  The node as a state machine: the steps a sovereign sequencer takes (transactions submitted,
  issuers registered, blocks produced) and the chain of headers they leave behind. The
  invariant links the chain to the state, and gives the end-to-end guarantee between the
  sequencer and the light client.
\<close>

inductive ledger_run ::
  "xof \<Rightarrow> ed25519 \<Rightarrow> json \<Rightarrow> executor \<Rightarrow> node \<Rightarrow> block_header list \<Rightarrow> node \<Rightarrow> bool"
  for xof ed js exec nd0 where
  start: "ledger_run xof ed js exec nd0 [] nd0" if "last_header nd0 = None"
| submit: "ledger_run xof ed js exec nd0 hs (fst (sovereign_submit_tx xof ed js tx nd))"
    if "ledger_run xof ed js exec nd0 hs nd"
| register: "ledger_run xof ed js exec nd0 hs (register_issuer xof js r nd)"
    if "ledger_run xof ed js exec nd0 hs nd"
| idle: "ledger_run xof ed js exec nd0 hs nd'"
    if "ledger_run xof ed js exec nd0 hs nd" "produce_block xof ed exec n1 n2 nd = (nd', Ok None)"
| block: "ledger_run xof ed js exec nd0 (hs @ [blk_header blk]) nd'"
    if "ledger_run xof ed js exec nd0 hs nd" "produce_block xof ed exec n1 n2 nd = (nd', Ok (Some blk))"

inductive_cases ledger_run_emptyE: "ledger_run xof ed js exec nd0 [] nd"

text \<open>The chain is linked, signed by the node's key, and ends in the node's state.\<close>

definition chain_inv :: "xof \<Rightarrow> ed25519 \<Rightarrow> node \<Rightarrow> block_header list \<Rightarrow> node \<Rightarrow> bool" where
  "chain_inv xof ed nd0 hs nd \<longleftrightarrow>
     node_keypair nd = node_keypair nd0 \<and>
     last_header nd = (if hs = [] then None else Some (last hs)) \<and>
     linked xof (map to_lc hs) \<and>
     list_all (\<lambda>h. signed_by ed (kp_public ed (node_keypair nd0)) (to_lc h)) hs \<and>
     (if hs = [] then accounts_root (node_state nd) else prev_state_root (hd hs)) =
       accounts_root (node_state nd0) \<and>
     (hs \<noteq> [] \<longrightarrow> new_state_root (last hs) = accounts_root (node_state nd))"

lemma linked_snoc:
  "linked xof (hs @ [h]) \<longleftrightarrow>
     linked xof hs \<and> (hs \<noteq> [] \<longrightarrow> lc_parent_hash (sh_header h) = full_hash xof (last hs))"
  by (induction xof hs rule: linked.induct) auto

lemma chain_inv_frame:
  assumes "chain_inv xof ed nd0 hs nd" "node_keypair nd' = node_keypair nd" "last_header nd' = last_header nd"
    and "accounts (node_state nd') = accounts (node_state nd)"
  shows "chain_inv xof ed nd0 hs nd'"
  using assms by (cases "hs = []") (simp_all add: chain_inv_def accounts_root_def)

lemma produce_block_None:
  assumes "produce_block xof ed exec n1 n2 nd = (nd', Ok None)"
  shows "node_keypair nd' = node_keypair nd" "last_header nd' = last_header nd" "node_state nd' = node_state nd"
  using assms
  by (auto simp: produce_block_def drain_def Let_def split: if_splits prod.splits res.splits option.splits)

lemma chain_inv_block:
  assumes inv: "chain_inv xof ed nd0 hs nd" and blk: "produce_block xof ed exec n1 n2 nd = (nd', Ok (Some blk))"
    and ed: "ed_correct ed"
  shows "chain_inv xof ed nd0 (hs @ [blk_header blk]) nd'"
proof -
  let ?h = "blk_header blk"
  note b = produce_block_Some [OF blk]
  have "signed_by ed (kp_public ed (node_keypair nd0)) (to_lc ?h)"
    using b inv verify_signed [OF ed, of "node_keypair nd0" "signing_bytes ?h"]
    by (simp add: signed_by_def to_lc_bytes chain_inv_def) (simp add: to_lc_def)
  moreover have "linked xof (map to_lc hs @ [to_lc ?h])"
    using inv b by (auto simp: linked_snoc chain_inv_def to_lc_bytes last_map) (simp add: to_lc_def)
  moreover have "prev_state_root (hd (hs @ [?h])) = accounts_root (node_state nd0)"
    using inv b(5) by (cases hs) (simp_all add: chain_inv_def)
  ultimately show ?thesis
    using inv b(1,2,6) by (simp add: chain_inv_def)
qed

lemma ledger_run_inv:
  assumes "ledger_run xof ed js exec nd0 hs nd" "ed_correct ed"
  shows "chain_inv xof ed nd0 hs nd"
  using assms
proof (induction rule: ledger_run.induct)
  case start
  then show ?case by (simp add: chain_inv_def)
next
  case (submit hs nd tx)
  then show ?case
    by (intro chain_inv_frame [OF submit.IH]) (simp_all add: sovereign_submit_tx_def Let_def split: prod.splits)
next
  case (register hs nd r)
  then show ?case
    by (intro chain_inv_frame [OF register.IH]) (simp_all add: register_issuer_def Let_def)
next
  case (idle hs nd n1 n2 nd')
  then show ?case
    using produce_block_None [OF idle(2)] by (intro chain_inv_frame [OF idle.IH]) simp_all
next
  case (block hs nd n1 n2 nd' blk)
  then show ?case by (intro chain_inv_block [OF block.IH])
qed

lemma shown_balance:
  assumes "length pk = 32"
  shows "(if length (mp_value (account_proof s pk)) = 64 then balance \<lparr> abytes = mp_value (account_proof s pk) \<rparr> else 0) =
    balance (state_account s pk)"
  using assms
  by (auto simp: account_proof_def smt_proof_def state_account_def smt_get_def account_new_overwrite
      account_new_values split: option.splits)

lemma client_agrees:
  assumes "ledger_run xof ed js exec nd0 hs nd" "hs \<noteq> []" "ed_correct ed" "length pk = 32"
    and "smt_inv xof (accounts (node_state nd))"
  shows "verify_balance xof ed (accounts_root (node_state nd0)) (map to_lc hs)
      (kp_public ed (node_keypair nd)) pk (account_proof (node_state nd) pk) =
    Ok (balance (state_account (node_state nd) pk))"
proof -
  have inv: "chain_inv xof ed nd0 hs nd" using assms(1,3) by (rule ledger_run_inv)
  have "lc_prev_state_root (sh_header (hd (map to_lc hs))) = accounts_root (node_state nd0)"
    using inv assms(2) by (simp add: chain_inv_def hd_map) (simp add: to_lc_def)
  moreover have "lc_new_state_root (sh_header (last (map to_lc hs))) = smt_root (accounts (node_state nd))"
    using inv assms(2) by (simp add: chain_inv_def last_map accounts_root_def) (simp add: to_lc_def)
  moreover have "verify_proof xof (smt_root (accounts (node_state nd))) pk (account_proof (node_state nd) pk)"
    unfolding account_proof_def by (rule smt.check_prove [OF assms(5,4)])
  ultimately show ?thesis
    using inv assms(2) shown_balance [OF assms(4), of "node_state nd"]
    by (simp add: verify_balance_Ok chain_inv_def list_all_iff)
qed

text \<open>
  End to end, from sequencer to light client: after any run of submissions, registrations and
  successfully produced blocks, the light client that is given the headers in order, the
  sequencer's key and the proof from the live state accepts, and obtains exactly the balance
  the sequencer holds for the account.
\<close>

theorem light_client_agrees_with_sequencer:
  assumes "ledger_run xof ed js exec nd0 hs nd" "hs \<noteq> []" "ed_correct ed" "length pk = 32"
    and "smt_inv xof (accounts (node_state nd))"
  shows "verify_balance xof ed (accounts_root (node_state nd0)) (map to_lc hs)
      (kp_public ed (node_keypair nd)) pk (account_proof (node_state nd) pk) =
    Ok (balance (state_account (node_state nd) pk))"
  using assms by (rule client_agrees)

definition plain_json :: json where
  "plain_json = \<lparr> to_vec = (\<lambda>_. [1]), from_slice = (\<lambda>_. None) \<rparr>"

lemma frozen_state_inv: "smt_inv sum_xof (accounts frozen_state)"
proof -
  have wf: "account_wf (account_new key0)" "length key0 = 32" by (simp_all add: key0_def)
  then have "abytes (set_frozen True (account_new key0)) \<noteq> []" "pubkey (set_frozen True (account_new key0)) = key0"
    using account_wf_set(1) [OF wf(1), of True]
    by (auto simp: account_wf_def account_consts account_frame account_new_values)
  then show ?thesis
    using smt.good_put [OF inv_new_sum put_safe_sum]
    by (simp add: frozen_state_def put_account_def state_new_def)
qed

theorem light_client_agrees_with_sequencer_witness:
  "\<exists>(nd :: node) (blk :: block). verify_balance sum_xof open_ed (accounts_root (node_state sample_node)) [to_lc (blk_header blk)]
      (kp_public open_ed (node_keypair nd)) key0 (account_proof (node_state nd) key0) = Ok 0"
proof -
  obtain nd blk where b: "produce_block sum_xof open_ed native_execute 0 0 sample_node = (nd, Ok (Some blk))"
    "node_state nd = frozen_state"
    using sample_block by blast
  have "last_header sample_node = None" by (simp add: sample_node_def node_new_def)
  then have "ledger_run sum_xof open_ed plain_json native_execute sample_node ([] @ [blk_header blk]) nd"
    by (intro ledger_run.block [OF ledger_run.start b(1)])
  then have "verify_balance sum_xof open_ed (accounts_root (node_state sample_node)) [to_lc (blk_header blk)]
      (kp_public open_ed (node_keypair nd)) key0 (account_proof (node_state nd) key0) =
      Ok (balance (state_account frozen_state key0))"
    using light_client_agrees_with_sequencer [of sum_xof open_ed plain_json native_execute sample_node
        "[blk_header blk]" nd key0] open_ed_correct frozen_state_inv b(2)
    by (simp add: key0_def)
  moreover have "balance (state_account frozen_state key0) = 0"
    by (simp add: frozen_state_def state_account_put account_frame account_new_values key0_def)
  ultimately show ?thesis by (intro exI [of _ nd] exI [of _ blk]) simp
qed

end
