(* ===== verification/Service_Laws.thy ===== *)
theory Service_Laws
  imports Sequencer_Service Ledger_Run
begin

text \<open>
  What the running service promises. The locale \<open>consensus_front\<close> is the contract of the consensus
  interface, with both front ends as interpretations; the inductive \<open>service_run\<close> interleaves the turns of
  the production loop with submissions and registrations in any order.
\<close>

section \<open>The consensus interface\<close>

fun submit_all :: "'s consensus \<Rightarrow> signed_tx list \<Rightarrow> 's \<Rightarrow> 's" where
  "submit_all c [] s = s"
| "submit_all c (tx # txs) s = submit_all c txs (fst (submit_tx c tx s))"

definition enqueue :: "signed_tx list \<Rightarrow> node \<Rightarrow> node" where
  "enqueue txs nd = nd\<lparr>node_mempool := (node_mempool nd)\<lparr>queue := queue (node_mempool nd) @ txs\<rparr>\<rparr>"

lemma enqueue_simps [simp]:
  "enqueue [] nd = nd" "enqueue ys (enqueue xs nd) = enqueue (xs @ ys) nd"
  "node_state (enqueue txs nd) = node_state nd" "last_header (enqueue txs nd) = last_header nd"
  "queue (node_mempool (enqueue txs nd)) = queue (node_mempool nd) @ txs"
  "capacity (node_mempool (enqueue txs nd)) = capacity (node_mempool nd)"
  by (simp_all add: enqueue_def)

locale consensus_front =
  fixes c :: "'s consensus" and node_of :: "'s \<Rightarrow> node"
  assumes accepts: "submit_tx c tx s = (s', Ok ()) \<Longrightarrow> node_of s' = enqueue [tx] (node_of s)"
    and refuses: "submit_tx c tx s = (s', Err e) \<Longrightarrow> s' = s"
    and answers: "snd (submit_tx c tx s) \<noteq> Panic"
    and height_frame: "last_header (node_of s) = last_header (node_of s') \<Longrightarrow> height c s = height c s'"
begin

lemma submit_once: "\<exists>ys. subseq ys [tx] \<and> node_of (fst (submit_tx c tx s)) = enqueue ys (node_of s)"
proof (cases "submit_tx c tx s")
  case (Pair s' r)
  show ?thesis
  proof (cases r)
    case (Ok u)
    then show ?thesis using accepts [of tx s s'] Pair by (intro exI [of _ "[tx]"]) simp
  next
    case (Err e)
    then show ?thesis using refuses [of tx s s' e] Pair by (intro exI [of _ "[]"]) simp
  next
    case Panic
    then show ?thesis using answers [of tx s] Pair by simp
  qed
qed

text \<open>Whatever is submitted, the accepted transactions are queued in order and nothing else changes.\<close>

lemma submit_all_queues: "\<exists>ys. subseq ys txs \<and> node_of (submit_all c txs s) = enqueue ys (node_of s)"
proof (induction txs arbitrary: s)
  case (Cons tx txs)
  obtain xs where xs: "subseq xs [tx]" "node_of (fst (submit_tx c tx s)) = enqueue xs (node_of s)"
    using submit_once by blast
  moreover obtain ys where "subseq ys txs" "node_of (submit_all c txs (fst (submit_tx c tx s))) = enqueue ys (enqueue xs (node_of s))"
    using Cons.IH [of "fst (submit_tx c tx s)"] xs by auto
  ultimately show ?case
    using list_emb_append_mono [of "(=)" xs "[tx]" ys txs] by (intro exI [of _ "xs @ ys"]) simp
qed (auto intro: exI [of _ "[]"])

lemma submit_all_height: "height c (submit_all c txs s) = height c s"
proof -
  obtain ys where "node_of (submit_all c txs s) = enqueue ys (node_of s)" using submit_all_queues by blast
  then show ?thesis by (intro height_frame) simp
qed

end

lemma sovereign_submit_cases:
  "sovereign_submit_tx xof ed js tx nd = (nd', r) \<Longrightarrow>
     (r = Ok () \<and> nd' = enqueue [tx] nd \<and> length (queue (node_mempool nd)) < capacity (node_mempool nd)) \<or>
     (\<exists>e. r = Err e \<and> nd' = nd)"
  using submit_outcome [of nd ed tx xof js] by (auto simp: enqueue_def split: if_splits)

interpretation sov: consensus_front "sovereign_consensus xof ed js" sov_node for xof ed js
proof
  fix tx e and s s' :: sovereign
  obtain nd r where sub: "sovereign_submit_tx xof ed js tx (sov_node s) = (nd, r)" by (metis prod.exhaust)
  note sovereign_submit_cases [OF sub]
  then show "submit_tx (sovereign_consensus xof ed js) tx s = (s', Ok ()) \<Longrightarrow> sov_node s' = enqueue [tx] (sov_node s)"
    "submit_tx (sovereign_consensus xof ed js) tx s = (s', Err e) \<Longrightarrow> s' = s"
    "snd (submit_tx (sovereign_consensus xof ed js) tx s) \<noteq> Panic"
    using sub by (auto simp: sovereign_consensus_def)
qed (simp add: sovereign_consensus_def sovereign_height_def)

interpretation abci: consensus_front abci_consensus abci_node
  by unfold_locales (simp_all add: abci_consensus_def)

section \<open>Executors and blocks\<close>

lemma decode_no_panic: "decode_output_accounts ts k \<noteq> Panic"
  by (simp add: decode_output_accounts_def Let_def)

lemma token_line_no_panic: "token_line ls \<noteq> Panic"
  by (induction ls) (simp_all split: option.split)

lemma and_then_Panic_iff: "and_then m f = Panic \<longleftrightarrow> m = Panic \<or> (\<exists>a. m = Ok a \<and> f a = Panic)"
  by (cases m) auto

lemma map_err_Panic_iff [simp]: "map_err g m = Panic \<longleftrightarrow> m = Panic"
  by (cases m) auto

lemma execute_no_panic: "execute_trace xof os ex tx w \<noteq> Panic"
proof (cases ex)
  case NativeTraceExecutor
  then show ?thesis
    by (simp add: native_execute_def native_freeze_def native_transfer_def native_mint_def native_burn_def
        native_multi_asset_def Let_def split: tx_kind.split option.split prod.split)
next
  case (SubprocessTraceExecutor self)
  then show ?thesis
    by (auto simp: subprocess_execute_def Let_def and_then_Panic_iff decode_no_panic extract_tokens_from_verbose_def
        token_line_no_panic split: option.split)
qed

lemma witness_no_panic: "assemble_witness s tx ep \<noteq> Panic"
  by (simp add: assemble_witness_def and_then_Panic_iff split: tx_kind.split option.split)

lemma process_no_panic:
  assumes "\<And>tx w. exec tx w \<noteq> Panic"
  shows "process_txs xof exec ep s txs = (s', r) \<Longrightarrow> r \<noteq> Panic"
proof (induction txs arbitrary: s s' r)
  case (Cons tx txs)
  have "and_then (assemble_witness s tx ep) (\<lambda>w. map_err TraceFailed (exec tx w)) \<noteq> Panic"
    using assms by (simp add: and_then_Panic_iff witness_no_panic)
  then show ?case
    using Cons.prems Cons.IH by (auto simp: Let_def and_then_Panic_iff split: res.splits prod.splits)
qed simp

lemma produce_block_no_panic:
  assumes "\<And>tx w. exec tx w \<noteq> Panic" "produce_block xof ed exec n1 n2 nd = (nd', r)"
  shows "r \<noteq> Panic"
  using assms(2)
  by (auto simp: produce_block_def Let_def drain_def dest: process_no_panic [OF assms(1)]
      split: if_splits prod.splits res.splits)

text \<open>Whatever its result, block production takes one batch from the front of the queue.\<close>

lemma produce_block_drains:
  assumes "produce_block xof ed exec n1 n2 nd = (nd', r)"
  shows "queue (node_mempool nd') = drop (block_size nd) (queue (node_mempool nd))"
    "capacity (node_mempool nd') = capacity (node_mempool nd)"
    "block_size nd' = block_size nd" "node_keypair nd' = node_keypair nd"
  using assms
  by (auto simp: produce_block_def Let_def drain_def min_def split: if_splits prod.splits res.splits option.splits)

lemma produce_block_idle:
  assumes "produce_block xof ed exec n1 n2 nd = (nd', Ok None)"
  shows "take (block_size nd) (queue (node_mempool nd)) = []"
  using assms
  by (auto simp: produce_block_def Let_def drain_def min_def split: if_splits prod.splits res.splits option.splits)

lemma produce_block_frame:
  assumes "produce_block xof ed exec n1 n2 nd = (nd', r)" "\<And>b. r \<noteq> Ok (Some b)"
  shows "last_header nd' = last_header nd"
  using assms
  by (auto simp: produce_block_def Let_def drain_def min_def split: if_splits prod.splits res.splits option.splits)

section \<open>The running service\<close>

abbreviation live :: "service \<Rightarrow> node" where "live srv \<equiv> sn_node (srv_node srv)"

definition on_live :: "(node \<Rightarrow> node) \<Rightarrow> service \<Rightarrow> service" where
  "on_live f srv = srv\<lparr>srv_node := (srv_node srv)\<lparr>sn_node := f (live srv)\<rparr>\<rparr>"

lemma on_live_simps [simp]:
  "live (on_live f srv) = f (live srv)" "produced (on_live f srv) = produced srv" "warnings (on_live f srv) = warnings srv"
  "sn_cfg (srv_node (on_live f srv)) = sn_cfg (srv_node srv)" "sn_trace (srv_node (on_live f srv)) = sn_trace (srv_node srv)"
  by (simp_all add: on_live_def)

text \<open>
  The turns of the loop, with what other tasks do to the shared node between them. The set has the
  issuers registered so far.
\<close>

inductive service_run :: "xof \<Rightarrow> ed25519 \<Rightarrow> json \<Rightarrow> host \<Rightarrow> config \<Rightarrow> issuer_record set \<Rightarrow> service \<Rightarrow> bool" for xof ed js os cfg where
  start: "service_run xof ed js os cfg {} (service_start xof os cfg)"
| turn: "service_run xof ed js os cfg R srv'"
    if "service_run xof ed js os cfg R srv" "tick xof ed os t1 t2 srv = Ok srv'"
| submit: "service_run xof ed js os cfg R (on_live (\<lambda>nd. fst (sovereign_submit_tx xof ed js tx nd)) srv)"
    if "service_run xof ed js os cfg R srv"
| register: "service_run xof ed js os cfg (insert r R) (on_live (register_issuer xof js r) srv)"
    if "service_run xof ed js os cfg R srv"

text \<open>The four ways a turn can end.\<close>

lemma tick_cases:
  assumes "produce_block xof ed (execute_trace xof os (sn_trace (srv_node srv))) (chrono_now_ms t1) (chrono_now_ms t2) (live srv) = (nd, r)"
  obtains (idle) "r = Ok None" "tick xof ed os t1 t2 srv = Ok (on_live (\<lambda>_. nd) srv)"
    | (block) b where "r = Ok (Some b)" "tick xof ed os t1 t2 srv = Ok ((on_live (\<lambda>_. nd) srv)\<lparr>produced := produced srv @ [b]\<rparr>)"
    | (warn) e where "r = Err e" "tick xof ed os t1 t2 srv = Ok ((on_live (\<lambda>_. nd) srv)\<lparr>warnings := warnings srv @ [e]\<rparr>)"
proof (cases r)
  case (Ok b)
  then show thesis using assms idle block by (cases b) (simp_all add: tick_def on_live_def)
next
  case (Err e)
  then show thesis using assms warn by (simp add: tick_def on_live_def)
next
  case Panic
  then show thesis using produce_block_no_panic [OF execute_no_panic assms] by simp
qed

lemma tick_total:
  "\<exists>srv'. tick xof ed os t1 t2 srv = Ok srv' \<and>
     queue (node_mempool (live srv')) = drop (block_size (live srv)) (queue (node_mempool (live srv))) \<and>
     block_size (live srv') = block_size (live srv) \<and> sn_cfg (srv_node srv') = sn_cfg (srv_node srv)"
proof -
  obtain nd r where p: "produce_block xof ed (execute_trace xof os (sn_trace (srv_node srv))) (chrono_now_ms t1) (chrono_now_ms t2) (live srv) = (nd, r)"
    by (metis prod.exhaust)
  note produce_block_drains [OF p]
  then show ?thesis by (cases rule: tick_cases [OF p]) simp_all
qed

definition service_inv :: "host \<Rightarrow> config \<Rightarrow> service \<Rightarrow> bool" where
  "service_inv os cfg srv \<longleftrightarrow>
     sn_trace (srv_node srv) = choose_executor os cfg \<and>
     block_size (live srv) = cfg_block_size cfg \<and> capacity (node_mempool (live srv)) = 10000 \<and>
     length (queue (node_mempool (live srv))) \<le> 10000 \<and>
     last_header (live srv) = (if produced srv = [] then None else Some (blk_header (last (produced srv)))) \<and>
     (\<forall>i < length (produced srv). block_n (blk_header (produced srv ! i)) = of_nat i \<and>
        1 \<le> length (blk_txs (produced srv ! i)) \<and> length (blk_txs (produced srv ! i)) \<le> cfg_block_size cfg)"

lemma produced_nonempty:
  assumes "produce_block xof ed exec n1 n2 nd = (nd', Ok (Some b))"
  shows "blk_txs b \<noteq> []"
  using assms
  by (auto simp: produce_block_def Let_def drain_def min_def split: if_splits prod.splits res.splits option.splits)

lemma service_inv_tick:
  assumes inv: "service_inv os cfg srv" and t: "tick xof ed os t1 t2 srv = Ok srv'"
  shows "service_inv os cfg srv'"
proof -
  obtain nd r where p: "produce_block xof ed (execute_trace xof os (sn_trace (srv_node srv))) (chrono_now_ms t1) (chrono_now_ms t2) (live srv) = (nd, r)"
    by (metis prod.exhaust)
  from p show ?thesis
  proof (cases rule: tick_cases)
    case idle
    then show ?thesis
      using inv t produce_block_drains [OF p] produce_block_frame [OF p] by (auto simp: service_inv_def)
  next
    case (warn e)
    then show ?thesis
      using inv t produce_block_drains [OF p] produce_block_frame [OF p] by (auto simp: service_inv_def)
  next
    case (block b)
    note b = produce_block_Some [OF p [unfolded block(1)]] produced_nonempty [OF p [unfolded block(1)]]
    have "block_n (blk_header b) = of_nat (length (produced srv))"
      using inv b(10) by (auto simp: service_inv_def last_conv_nth neq_Nil_conv)
    then show ?thesis
      using inv t block(2) b produce_block_drains [OF p]
      by (auto simp: service_inv_def nth_append less_Suc_eq Suc_le_eq)
  qed
qed

lemma service_run_inv: "service_run xof ed js os cfg R srv \<Longrightarrow> service_inv os cfg srv"
proof (induction rule: service_run.induct)
  case start
  then show ?case by (simp add: service_inv_def service_start_def sequencer_node_new_def node_new_def mempool_new_def)
next
  case (turn R srv t1 t2 srv')
  then show ?case by (blast intro: service_inv_tick)
next
  case (submit R srv tx)
  obtain nd r where "sovereign_submit_tx xof ed js tx (live srv) = (nd, r)" by (metis prod.exhaust)
  moreover from this have "nd = live srv \<or> nd = enqueue [tx] (live srv) \<and>
      length (queue (node_mempool (live srv))) < capacity (node_mempool (live srv))"
    using sovereign_submit_cases by blast
  ultimately show ?case using submit.IH by (auto simp: service_inv_def enqueue_def)
next
  case (register R srv r)
  then show ?case by (simp add: service_inv_def register_issuer_def Let_def)
qed

end
