(* ===== verification/Service_Properties.thy ===== *)
theory Service_Properties
  imports Service_Laws
begin

text \<open>
  The properties of the running service: its bounds, the draining of the mempool by the production
  loop, its refinement of the ledger run behind the light-client theorem, and what the
  two consensus front ends do with submissions.
\<close>

section \<open>Bounds\<close>

text \<open>
  C6. Bounds of the running service, after any interleaving of turns, submissions and registrations:
  the mempool never holds more than the 10000 transactions the node was created with room for,
  every block has at least one and at most the configured number of transactions, and the
  blocks are numbered consecutively from 0 (modulo 2 to the 64).
\<close>

theorem service_stays_bounded:
  assumes "service_run xof ed js os cfg R srv"
  shows "length (queue (node_mempool (sn_node (srv_node srv)))) \<le> 10000 \<and>
    (\<forall>i < length (produced srv). block_n (blk_header (produced srv ! i)) = of_nat i \<and>
      1 \<le> length (blk_txs (produced srv ! i)) \<and> length (blk_txs (produced srv ! i)) \<le> cfg_block_size cfg)"
  using service_run_inv [OF assms] by (simp add: service_inv_def)

text \<open>A small service: one registered issuer, one submitted freeze, one turn.\<close>

definition sample_config :: config where
  "sample_config = \<lparr> data_dir = ascii ''data'', cfg_weights_dir = ascii ''weights'', cfg_transformer_vm_path = ascii ''vm'',
     rpc_listen = ascii ''127.0.0.1:8545'', sequencer_secret = replicate 32 3, block_interval_ms = 1000, cfg_block_size = 10 \<rparr>"

definition bare_host :: host where
  "bare_host = \<lparr> temp_file = (\<lambda>_. True), path_exists = (\<lambda>_. False), wasm_run = (\<lambda>_ _ _. None) \<rparr>"

definition sample_service :: "xof \<Rightarrow> json \<Rightarrow> service" where
  "sample_service xof js = on_live (\<lambda>nd. fst (sovereign_submit_tx xof open_ed js sample_tx nd))
     (on_live (register_issuer xof js sample_issuer) (service_start xof bare_host sample_config))"

lemma sample_service_run: "service_run xof open_ed js bare_host sample_config {sample_issuer} (sample_service xof js)"
  unfolding sample_service_def by (rule service_run.submit, rule service_run.register, rule service_run.start)

text \<open>The serialiser need only read back the one record that is registered.\<close>

definition reads_sample :: "json \<Rightarrow> bool" where
  "reads_sample js \<longleftrightarrow> to_vec js sample_issuer \<noteq> [] \<and> from_slice js (to_vec js sample_issuer) = Some sample_issuer"

lemma reads_sample_json: "reads_sample sample_json"
  by (simp add: reads_sample_def sample_json_def)

lemma sample_lookup:
  assumes "reads_sample js"
  shows "lookup_issuer xof js (register_issuer xof js sample_issuer nd) (asset_id sample_tx) = Some sample_issuer"
proof -
  have "ir_asset_id sample_issuer = asset_id sample_tx" by (simp add: sample_issuer_def sample_tx_def)
  then show ?thesis using lookup_registered [of js sample_issuer xof nd] assms by (simp add: reads_sample_def)
qed

lemma sample_service_live:
  assumes "reads_sample js"
  shows "live (sample_service xof js) =
    enqueue [sample_tx] (register_issuer xof js sample_issuer (node_new xof (from_seed (replicate 32 3)) 10))"
proof -
  let ?nd = "register_issuer xof js sample_issuer (node_new xof (from_seed (replicate 32 3)) 10)"
  have "validate open_ed sample_tx (node_state ?nd) (lookup_issuer xof js ?nd) = Ok ()"
    using sample_tx_valid [of "node_state ?nd"] by (simp add: validate_def sample_lookup [OF assms])
  moreover have "queue (node_mempool ?nd) = []" "capacity (node_mempool ?nd) = 10000"
    by (simp_all add: register_issuer_def node_new_def mempool_new_def Let_def)
  ultimately show ?thesis
    by (simp add: sample_service_def service_start_def sequencer_node_new_def sample_config_def config_keypair_def
        sovereign_submit_tx_def ingress_def enqueue_def)
qed

lemma sample_live_queue:
  assumes "reads_sample js"
  shows "queue (node_mempool (live (sample_service xof js))) = [sample_tx]" "block_size (live (sample_service xof js)) = 10"
  unfolding sample_service_live [OF assms] by (simp_all add: enqueue_def register_issuer_def node_new_def mempool_new_def Let_def)

lemma native_turn: "execute_trace xof os NativeTraceExecutor = native_execute"
  by (intro ext) simp

lemma sample_trace: "sn_trace (srv_node (sample_service xof js)) = NativeTraceExecutor"
  by (simp add: sample_service_def service_start_def sequencer_node_new_def choose_executor_def bare_host_def)

lemma sample_turn:
  assumes "reads_sample js"
  obtains srv b where "tick xof open_ed bare_host 0 0 (sample_service xof js) = Ok srv"
    and "service_run xof open_ed js bare_host sample_config {sample_issuer} srv"
    and "produced srv = [b]" "blk_txs b = [sample_tx]" "warnings srv = []"
    and "produce_block xof open_ed native_execute (chrono_now_ms 0) (chrono_now_ms 0) (live (sample_service xof js)) = (live srv, Ok (Some b))"
proof -
  have k: "kind sample_tx = Freeze" by (simp add: sample_tx_def)
  have "\<exists>nd b. produce_block xof open_ed native_execute (chrono_now_ms 0) (chrono_now_ms 0) (live (sample_service xof js)) = (nd, Ok (Some b))"
    using sample_live_queue [OF assms, of xof]
    by (simp add: produce_block_def drain_def process_freeze [OF k] Let_def split_beta del: process_txs.simps)
  then obtain nd b where p: "produce_block xof open_ed native_execute (chrono_now_ms 0) (chrono_now_ms 0) (live (sample_service xof js)) = (nd, Ok (Some b))"
    by blast
  let ?srv = "(sample_service xof js)\<lparr>srv_node := srv_node (sample_service xof js)\<lparr>sn_node := nd\<rparr>, produced := [b]\<rparr>"
  have init: "produced (sample_service xof js) = []" "warnings (sample_service xof js) = []"
    by (simp_all add: sample_service_def service_start_def)
  have turn: "tick xof open_ed bare_host 0 0 (sample_service xof js) = Ok ?srv"
    using p init by (simp add: tick_def sample_trace native_turn)
  show thesis
  proof (rule that)
    show "service_run xof open_ed js bare_host sample_config {sample_issuer} ?srv"
      using sample_service_run turn by (rule service_run.turn)
    show "blk_txs b = [sample_tx]"
      using produce_block_Some(3) [OF p] sample_live_queue [OF assms, of xof] by simp
  qed (use turn init p in simp_all)
qed

theorem service_stays_bounded_witness:
  "\<exists>srv. tick sum_xof open_ed bare_host 0 0 (sample_service sum_xof sample_json) = Ok srv \<and> length (produced srv) = 1 \<and>
     length (queue (node_mempool (sn_node (srv_node srv)))) \<le> 10000 \<and> block_n (blk_header (produced srv ! 0)) = 0 \<and>
     length (blk_txs (produced srv ! 0)) \<le> 10"
proof -
  obtain srv b where srv: "tick sum_xof open_ed bare_host 0 0 (sample_service sum_xof sample_json) = Ok srv"
      "service_run sum_xof open_ed sample_json bare_host sample_config {sample_issuer} srv" "produced srv = [b]"
    by (rule sample_turn [OF reads_sample_json])
  from service_stays_bounded [OF srv(2)] srv(1,3) show ?thesis by (auto simp: sample_config_def)
qed

section \<open>The production loop\<close>

lemma tick_blocks:
  assumes "tick xof ed os t1 t2 srv = Ok srv'"
  shows "length (warnings srv) \<le> length (warnings srv')"
    and "length (warnings srv') = length (warnings srv) \<Longrightarrow> concat (map blk_txs (produced srv')) =
      concat (map blk_txs (produced srv)) @ take (block_size (live srv)) (queue (node_mempool (live srv)))"
proof -
  obtain nd r where p: "produce_block xof ed (execute_trace xof os (sn_trace (srv_node srv))) (chrono_now_ms t1) (chrono_now_ms t2) (live srv) = (nd, r)"
    by (metis prod.exhaust)
  then have "length (warnings srv) \<le> length (warnings srv') \<and>
      (length (warnings srv') = length (warnings srv) \<longrightarrow> concat (map blk_txs (produced srv')) =
      concat (map blk_txs (produced srv)) @ take (block_size (live srv)) (queue (node_mempool (live srv))))"
  proof (cases rule: tick_cases)
    case idle
    then show ?thesis using assms produce_block_idle [OF p [unfolded idle(1)]] by auto
  next
    case (block b)
    then show ?thesis using assms produce_block_Some(3) [OF p [unfolded block(1)]] by auto
  next
    case (warn e)
    then show ?thesis using assms by auto
  qed
  then show "length (warnings srv) \<le> length (warnings srv')"
    "length (warnings srv') = length (warnings srv) \<Longrightarrow> concat (map blk_txs (produced srv')) =
      concat (map blk_txs (produced srv)) @ take (block_size (live srv)) (queue (node_mempool (live srv)))"
    by simp_all
qed

lemma turns_drain:
  "\<exists>srv'. for_each readings (\<lambda>(t1, t2). tick xof ed os t1 t2) srv = Ok srv' \<and>
     queue (node_mempool (live srv')) = drop (length readings * block_size (live srv)) (queue (node_mempool (live srv))) \<and>
     length (warnings srv) \<le> length (warnings srv') \<and>
     (length (warnings srv') = length (warnings srv) \<longrightarrow> concat (map blk_txs (produced srv')) =
        concat (map blk_txs (produced srv)) @ take (length readings * block_size (live srv)) (queue (node_mempool (live srv))))"
proof (induction readings arbitrary: srv)
  case (Cons x readings)
  obtain t1 t2 where x: "x = (t1, t2)" by (cases x)
  obtain srv1 where t: "tick xof ed os t1 t2 srv = Ok srv1"
      "queue (node_mempool (live srv1)) = drop (block_size (live srv)) (queue (node_mempool (live srv)))"
      "block_size (live srv1) = block_size (live srv)"
    using tick_total by blast
  then show ?case
    using Cons.IH [of srv1] tick_blocks [OF t(1)] by (auto simp: x take_add ac_simps)
qed simp

text \<open>
  C5. The production loop empties the mempool: with a positive interval and block size, the loop runs
  every turn without stopping, whatever fails inside a turn, and after as many turns as there
  are batches the queue is empty. If none of the turns logged a warning, the blocks
  produced contain exactly the queued transactions, in order.
\<close>

theorem run_sequencer_drains:
  assumes "block_interval_ms (sn_cfg (srv_node srv)) \<noteq> 0"
    and "length (queue (node_mempool (sn_node (srv_node srv)))) \<le> length readings * block_size (sn_node (srv_node srv))"
  shows "\<exists>srv'. run_sequencer xof ed os readings srv = Ok srv' \<and> queue (node_mempool (sn_node (srv_node srv'))) = [] \<and>
    (warnings srv' = warnings srv \<longrightarrow> concat (map blk_txs (produced srv')) =
       concat (map blk_txs (produced srv)) @ queue (node_mempool (sn_node (srv_node srv))))"
  using turns_drain [of readings xof ed os srv] assms by (auto simp: run_sequencer_def)

theorem run_sequencer_drains_witness:
  "\<exists>srv'. run_sequencer sum_xof open_ed bare_host [(0, 0)] (sample_service sum_xof sample_json) = Ok srv' \<and> queue (node_mempool (sn_node (srv_node srv'))) = []"
proof -
  have "block_interval_ms (sn_cfg (srv_node (sample_service sum_xof sample_json))) \<noteq> 0"
    by (simp add: sample_service_def service_start_def sequencer_node_new_def sample_config_def)
  then show ?thesis
    using run_sequencer_drains [of "sample_service sum_xof sample_json" "[(0, 0)]" sum_xof open_ed bare_host] sample_live_queue [OF reads_sample_json] by auto
qed

section \<open>Refinement of the ledger run\<close>

text \<open>
  As long as no turn has logged a warning, the service is a run of the ledger: its blocks are the
  headers of a run from the freshly created node, with the executor chosen at the start, that
  ends in the node the service serves. The guarantees of such runs, among them that of
  the light client, therefore hold of the service.
\<close>

theorem service_refines_ledger:
  assumes "service_run xof ed js os cfg R srv" "warnings srv = []"
  shows "ledger_run xof ed js (execute_trace xof os (choose_executor os cfg)) (sn_node (sequencer_node_new xof os cfg))
    (map blk_header (produced srv)) (sn_node (srv_node srv))"
  using assms
proof (induction rule: service_run.induct)
  case start
  then show ?case by (simp add: service_start_def sequencer_node_new_def node_new_def ledger_run.start)
next
  case (turn R srv t1 t2 srv')
  have ex: "sn_trace (srv_node srv) = choose_executor os cfg"
    using service_run_inv [OF turn.hyps(1)] by (simp add: service_inv_def)
  have "warnings srv = []" using tick_blocks(1) [OF turn.hyps(2)] turn.prems by simp
  note run = turn.IH [OF this]
  obtain nd r where p: "produce_block xof ed (execute_trace xof os (sn_trace (srv_node srv))) (chrono_now_ms t1) (chrono_now_ms t2) (live srv) = (nd, r)"
    by (metis prod.exhaust)
  then show ?case
  proof (cases rule: tick_cases)
    case idle
    then show ?thesis using ledger_run.idle [OF run p [unfolded ex idle(1)]] turn.hyps(2) by auto
  next
    case (block b)
    then show ?thesis using ledger_run.block [OF run p [unfolded ex block(1)]] turn.hyps(2) by auto
  next
    case (warn e)
    then show ?thesis using turn.hyps(2) turn.prems by auto
  qed
next
  case (submit R srv tx)
  then show ?case by (simp add: ledger_run.submit)
next
  case (register R srv r)
  then show ?case by (simp add: ledger_run.register)
qed

theorem service_refines_ledger_witness:
  "\<exists>srv :: service. length (produced srv) = 1 \<and>
     ledger_run sum_xof open_ed sample_json (execute_trace sum_xof bare_host (choose_executor bare_host sample_config))
       (sn_node (sequencer_node_new sum_xof bare_host sample_config)) (map blk_header (produced srv)) (sn_node (srv_node srv))"
proof -
  obtain srv b where srv: "service_run sum_xof open_ed sample_json bare_host sample_config {sample_issuer} srv"
      "produced srv = [b]" "warnings srv = []"
    by (rule sample_turn [OF reads_sample_json])
  from service_refines_ledger [OF srv(1,3)] srv(2) show ?thesis by (intro exI [of _ srv]) simp
qed

section \<open>Consensus front ends\<close>

text \<open>
  What the two consensus front ends do with submissions. Of any sequence of transactions the
  sovereign front end queues some, in the order they came, and changes nothing else of the
  node; its height stays. The ABCI front end takes none and stays at height 0.
\<close>

theorem consensus_fronts_queue:
  "(\<exists>ys. subseq ys txs \<and> sov_node (submit_all (sovereign_consensus xof ed js) txs s) = enqueue ys (sov_node s)) \<and>
   height (sovereign_consensus xof ed js) (submit_all (sovereign_consensus xof ed js) txs s) = height (sovereign_consensus xof ed js) s \<and>
   submit_all abci_consensus txs a = a \<and> height abci_consensus a = 0"
proof -
  have "submit_all abci_consensus txs a = a"
    by (induction txs) (simp_all add: abci_consensus_def)
  then show ?thesis
    using sov.submit_all_queues [of txs xof ed js s] sov.submit_all_height [of xof ed js txs s]
    by (simp add: abci_consensus_def)
qed

end
