(* ===== verification/Replay_Properties.thy ===== *)
theory Replay_Properties
  imports Service_Properties
begin

text \<open>
  The composition of the service, the ledger and the light client: the accounts a running service
  holds are those that replaying its published blocks on an empty ledger gives, and the
  balances a light client verifies are those of the replay.
\<close>

section \<open>Replaying blocks\<close>

definition replay :: "block list \<Rightarrow> ledger" where
  "replay blocks = fold apply_tx (concat (map blk_txs blocks)) (\<lambda>_. empty_entry)"

lemma replay_simps: "replay [] = (\<lambda>_. empty_entry)" "replay (bs @ [b]) = fold apply_tx (blk_txs b) (replay bs)"
  by (simp_all add: replay_def)

lemma produce_block_process:
  assumes "produce_block xof ed exec n1 n2 nd = (nd', Ok (Some b))"
  shows "\<exists>hs. process_txs xof exec (ucast (of_nat (unat n1 div 1000) :: u64)) (node_state nd) (blk_txs b) = (node_state nd', Ok hs)"
  using assms
  by (auto simp: produce_block_def Let_def drain_def min_def sign_header_def
      split: if_splits prod.splits res.splits option.splits)

text \<open>A state whose records are well-formed, whose tree came from insertions, and which abstracts to a ledger.\<close>

definition represents :: "xof \<Rightarrow> state \<Rightarrow> ledger \<Rightarrow> bool" where
  "represents xof s L \<longleftrightarrow> state_ok s \<and> ledger_of s = L \<and> (\<exists>N. built xof N (accounts s))"

lemma represents_new: "represents xof (state_new xof) (\<lambda>_. empty_entry)"
proof -
  have "accounts (state_new xof) = smt_new xof" by (simp add: state_new_def)
  then show ?thesis using built.empty by (auto simp: represents_def state_ok_new ledger_of_new)
qed

lemma represents_register:
  "represents xof (node_state (register_issuer xof js r nd)) L = represents xof (node_state nd) L"
proof -
  have "state_ok (node_state (register_issuer xof js r nd)) = state_ok (node_state nd)"
    "ledger_of (node_state (register_issuer xof js r nd)) = ledger_of (node_state nd)"
    "accounts (node_state (register_issuer xof js r nd)) = accounts (node_state nd)"
    by (simp_all add: register_issuer_def Let_def state_ok_def ledger_of_def fun_eq_iff state_account_def)
  then show ?thesis by (simp add: represents_def)
qed

lemma produce_block_ledger:
  assumes "produce_block xof ed native_execute n1 n2 nd = (nd', Ok (Some b))"
    and rep: "represents xof (node_state nd) L" and keys: "list_all keys_ok (blk_txs b)"
  shows "represents xof (node_state nd') (fold apply_tx (blk_txs b) L)"
proof -
  have ok: "state_ok (node_state nd)" "ledger_of (node_state nd) = L" and tree: "\<exists>N. built xof N (accounts (node_state nd))"
    using rep by (simp_all add: represents_def)
  obtain ep hs where run: "process_txs xof native_execute ep (node_state nd) (blk_txs b) = (node_state nd', Ok hs)"
    using produce_block_process [OF assms(1)] by blast
  have "dropWhile assemblable (blk_txs b) = []"
    using process_refines [OF ok(1) keys, of xof ep] run by (auto split: list.splits)
  then have cut: "takeWhile assemblable (blk_txs b) = blk_txs b"
    using takeWhile_dropWhile_id [of assemblable "blk_txs b"] by (metis append_Nil2)
  have "state_ok (node_state nd') \<and> ledger_of (node_state nd') = fold apply_tx (blk_txs b) L"
    using process_refines [OF ok(1) keys, of xof ep] unfolding run cut ok(2) by auto
  moreover have "\<exists>N. built xof N (accounts (node_state nd'))"
    using process_writes [OF run ok(1) keys] tree by (auto intro: built_puts)
  ultimately show ?thesis by (simp add: represents_def)
qed

lemma service_ledger:
  assumes "service_run xof ed js os cfg R srv" "choose_executor os cfg = NativeTraceExecutor" "warnings srv = []"
    and "list_all keys_ok (concat (map blk_txs (produced srv)))"
  shows "represents xof (node_state (live srv)) (replay (produced srv))"
  using assms(1,3,4)
proof (induction rule: service_run.induct)
  case start
  then show ?case
    by (simp add: service_start_def sequencer_node_new_def node_new_def represents_new replay_simps)
next
  case (turn R srv t1 t2 srv')
  have ex: "execute_trace xof os (sn_trace (srv_node srv)) = native_execute"
    using service_run_inv [OF turn.hyps(1)] assms(2) by (simp add: service_inv_def native_turn)
  have "warnings srv = []" using tick_blocks(1) [OF turn.hyps(2)] turn.prems(1) by simp
  note IH = turn.IH [OF this]
  obtain nd r where p: "produce_block xof ed (execute_trace xof os (sn_trace (srv_node srv))) (chrono_now_ms t1) (chrono_now_ms t2) (live srv) = (nd, r)"
    by (metis prod.exhaust)
  then show ?case
  proof (cases rule: tick_cases)
    case idle
    then have "node_state nd = node_state (live srv)" using produce_block_None(3) p by blast
    then show ?thesis using idle IH turn by auto
  next
    case (block b)
    have keys: "list_all keys_ok (concat (map blk_txs (produced srv)))" "list_all keys_ok (blk_txs b)"
      using block(2) turn.hyps(2) turn.prems(2) by auto
    show ?thesis
      using produce_block_ledger [OF p [unfolded ex block(1)] IH [OF keys(1)] keys(2)] block(2) turn.hyps(2)
      by (auto simp: replay_simps)
  next
    case (warn e)
    then show ?thesis using turn.hyps(2) turn.prems by auto
  qed
next
  case (submit R srv tx)
  then show ?case by (simp add: sovereign_submit_tx_def Let_def split: prod.splits)
next
  case (register R srv r)
  then show ?case by (simp add: represents_register)
qed

lemma service_entry:
  assumes "service_run xof ed js os cfg R srv" "choose_executor os cfg = NativeTraceExecutor" "warnings srv = []"
    and "list_all keys_ok (concat (map blk_txs (produced srv)))" "length pk = 32"
  shows "entry_of (state_account (node_state (live srv)) pk) = replay (produced srv) pk"
proof -
  have "ledger_of (node_state (live srv)) pk = replay (produced srv) pk"
    using service_ledger [OF assms(1-4)] by (simp add: represents_def)
  then show ?thesis using assms(5) by (simp add: ledger_of_def)
qed

section \<open>The properties\<close>

text \<open>
  C4. What a service serves is what its blocks say: after any interleaving of turns, submissions and
  registrations of a service with the native executor that has logged no warning, every
  account has the balance, the nonce and the frozen flag that replaying the transactions of
  the produced blocks, in order, on an empty ledger gives. So anyone who has the blocks
  can recompute the accounts.
\<close>

theorem service_replays_blocks:
  assumes "service_run xof ed js os cfg R srv" "choose_executor os cfg = NativeTraceExecutor" "warnings srv = []"
    and "list_all keys_ok (concat (map blk_txs (produced srv)))" "length pk = 32"
  shows "\<lparr> e_balance = unat (balance (state_account (node_state (sn_node (srv_node srv))) pk)),
      e_nonce = nonce (state_account (node_state (sn_node (srv_node srv))) pk),
      e_frozen = is_frozen (state_account (node_state (sn_node (srv_node srv))) pk) \<rparr> = replay (produced srv) pk"
  using service_entry [OF assms] by (simp add: entry_of_def)

text \<open>
  C1. End to end, from submission to the light client: a light client that knows only the
  configured key and the root of the empty ledger, and is given the headers of the blocks a
  service has produced and the proof the service hands out for an account, accepts, and the
  balance it obtains is the one that replaying the blocks gives. The service runs the native
  executor and has logged no warning. The accounts tree came from insertions that hashed a
  finite set \<open>N\<close> of nodes, and the one thing asked of the hash is that it does not collide on
  such a set.
\<close>

theorem light_client_sees_replay:
  assumes "service_run xof ed js os cfg R srv" "choose_executor os cfg = NativeTraceExecutor" "warnings srv = []"
    and "list_all keys_ok (concat (map blk_txs (produced srv)))" "produced srv \<noteq> []"
    and "ed_correct ed" "length pk = 32"
  shows "(\<exists>N. finite N \<and> built xof N (accounts (node_state (sn_node (srv_node srv))))) \<and>
    (\<forall>N. built xof N (accounts (node_state (sn_node (srv_node srv)))) \<longrightarrow> clash_free xof N \<longrightarrow>
      (\<exists>b. verify_balance xof ed (accounts_root (state_new xof)) (map (\<lambda>blk. to_lc (blk_header blk)) (produced srv))
         (kp_public ed (config_keypair cfg)) pk (account_proof (node_state (sn_node (srv_node srv))) pk) = Ok b \<and>
       unat b = e_balance (replay (produced srv) pk)))"
proof -
  have tree: "\<exists>N. finite N \<and> built xof N (accounts (node_state (live srv)))"
    using service_ledger [OF assms(1-4)] by (auto simp: represents_def intro: built_finite)
  let ?nd0 = "sn_node (sequencer_node_new xof os cfg)"
  note run = service_refines_ledger [OF assms(1,3)]
  have key: "node_keypair (live srv) = config_keypair cfg"
    using ledger_run_inv [OF run assms(6)] by (simp add: chain_inv_def sequencer_node_new_def node_new_def)
  have root: "accounts_root (node_state ?nd0) = accounts_root (state_new xof)"
    by (simp add: sequencer_node_new_def node_new_def)
  have bal: "unat (balance (state_account (node_state (live srv)) pk)) = e_balance (replay (produced srv) pk)"
    using service_entry [OF assms(1-4,7)] by (metis entry_of_simps(1))
  have accepts: "\<exists>b. verify_balance xof ed (accounts_root (state_new xof)) (map (\<lambda>blk. to_lc (blk_header blk)) (produced srv))
      (kp_public ed (config_keypair cfg)) pk (account_proof (node_state (live srv)) pk) = Ok b \<and>
    unat b = e_balance (replay (produced srv) pk)" if N: "built xof N (accounts (node_state (live srv)))" "clash_free xof N" for N
  proof -
    have "smt_inv xof (accounts (node_state (live srv)))" using built_inv [OF N] by blast
    from client_agrees [OF run _ assms(6,7) this] show ?thesis
      using assms(5) bal unfolding key root by (simp add: comp_def)
  qed
  show ?thesis using tree accepts by blast
qed

section \<open>A service that has frozen an account\<close>

lemma sample_replay:
  "\<exists>srv b. service_run sum_xof open_ed sample_json bare_host sample_config {sample_issuer} srv \<and> produced srv = [b] \<and>
     blk_txs b = [sample_tx] \<and> warnings srv = [] \<and> accounts (node_state (live srv)) = accounts frozen_state"
proof -
  obtain srv b where run: "service_run sum_xof open_ed sample_json bare_host sample_config {sample_issuer} srv"
    and b: "produced srv = [b]" and txs: "blk_txs b = [sample_tx]" and quiet: "warnings srv = []"
    and blk: "produce_block sum_xof open_ed native_execute (chrono_now_ms 0) (chrono_now_ms 0) (live (sample_service sum_xof sample_json)) =
      (live srv, Ok (Some b))"
    by (rule sample_turn [OF reads_sample_json])
  let ?s = "node_state (live (sample_service sum_xof sample_json))"
  have acc: "accounts ?s = accounts (state_new sum_xof)"
    by (simp add: sample_service_live [OF reads_sample_json] enqueue_def register_issuer_def node_new_def Let_def)
  then have "state_account ?s key0 = account_new key0"
    using state_account_new [of sum_xof key0] by (simp add: state_account_def)
  moreover have "kind sample_tx = Freeze" "target sample_tx = key0" "flag sample_tx \<noteq> 0"
    by (simp_all add: sample_tx_def target_def)
  ultimately have "node_state (live srv) = put_account sum_xof (set_frozen True (account_new key0)) ?s"
    using produce_block_process [OF blk] process_freeze [of sample_tx sum_xof] txs by (auto simp del: process_txs.simps)
  then have "accounts (node_state (live srv)) = accounts frozen_state"
    by (simp add: put_account_def acc frozen_state_def)
  then show ?thesis using run b txs quiet by auto
qed

lemma key0_len: "length key0 = 32"
  by (simp add: key0_def)

lemma frozen_tree:
  "\<exists>N. built sum_xof N (accounts frozen_state) \<and> clash_free sum_xof N"
proof -
  let ?a = "set_frozen True (account_new key0)"
  have "accounts frozen_state = smt_put sum_xof (smt_new sum_xof) key0 (abytes ?a)"
    by (simp add: frozen_state_def put_account_def state_new_def account_frame account_new_values key0_len)
  moreover have "built sum_xof ({} \<union> path_nodes sum_xof (smt_new sum_xof) key0 (abytes ?a))
      (smt_put sum_xof (smt_new sum_xof) key0 (abytes ?a))"
    by (intro built.put built.empty key0_len)
  moreover have "abytes ?a \<noteq> []" 
    using account_wf_set(1) [OF account_wf_new [OF key0_len], of True] by (auto simp: account_wf_def account_consts)
  then have "clash_free sum_xof (path_nodes sum_xof (smt_new sum_xof) key0 (abytes ?a))"
    using put_safe_sum [of "abytes ?a"] unfolding put_safe_def by (auto intro: clash_free_subset)
  ultimately show ?thesis by auto
qed

lemma sample_replay_setup:
  "choose_executor bare_host sample_config = NativeTraceExecutor" "keys_ok sample_tx"
  "blk_txs b = [sample_tx] \<Longrightarrow> replay [b] key0 = \<lparr> e_balance = 0, e_nonce = 0, e_frozen = True \<rparr>"
  by (simp_all add: choose_executor_def bare_host_def keys_ok_def sample_tx_def target_def key0_def replay_def
      apply_tx_def empty_entry_def Let_def)

theorem service_replays_blocks_witness:
  "\<exists>srv b. service_run sum_xof open_ed sample_json bare_host sample_config {sample_issuer} srv \<and>
     produced srv = [b] \<and> blk_txs b = [sample_tx] \<and> replay [b] key0 = \<lparr> e_balance = 0, e_nonce = 0, e_frozen = True \<rparr> \<and>
     unat (balance (state_account (node_state (sn_node (srv_node srv))) key0)) = 0 \<and>
     is_frozen (state_account (node_state (sn_node (srv_node srv))) key0)"
proof -
  obtain srv b where s: "service_run sum_xof open_ed sample_json bare_host sample_config {sample_issuer} srv" "produced srv = [b]"
      "blk_txs b = [sample_tx]" "warnings srv = []"
    using sample_replay by blast
  then show ?thesis
    using service_replays_blocks [OF s(1) sample_replay_setup(1) s(4), of key0] sample_replay_setup(2,3)
    by (intro exI [of _ srv] exI [of _ b]) (simp add: key0_len)
qed

theorem light_client_sees_replay_witness:
  "\<exists>(srv :: service) (b :: block). verify_balance sum_xof open_ed (accounts_root (state_new sum_xof)) [to_lc (blk_header b)]
      (kp_public open_ed (config_keypair sample_config)) key0 (account_proof (node_state (sn_node (srv_node srv))) key0) = Ok 0"
proof -
  obtain srv b where s: "service_run sum_xof open_ed sample_json bare_host sample_config {sample_issuer} srv" "produced srv = [b]"
      "blk_txs b = [sample_tx]" "warnings srv = []" "accounts (node_state (live srv)) = accounts frozen_state"
    using sample_replay by blast
  have "\<exists>v. verify_balance sum_xof open_ed (accounts_root (state_new sum_xof)) [to_lc (blk_header b)]
      (kp_public open_ed (config_keypair sample_config)) key0 (account_proof (node_state (live srv)) key0) = Ok v \<and> unat v = 0"
    using light_client_sees_replay [OF s(1) sample_replay_setup(1) s(4) _ _ open_ed_correct, of key0]
      s(2,3,5) sample_replay_setup(2,3) frozen_tree by (auto simp: key0_len)
  then show ?thesis by (auto simp: unat_eq_0)
qed

end
