(* ===== verification/Pilot.thy ===== *)
theory Pilot
  imports Ledger_Run
begin

text \<open>
  The issuer pilot, \<open>pilot/issuer_demo/src/main.rs\<close>: an issuer is registered, units are minted to
  a treasury, paid on to a customer and from there to a merchant, and burned, each in a block
  of its own that the pilot builds; the light client then checks the merchant's balance
  against the four headers. The network, the clock and the log output are not modelled.
\<close>

section \<open>The program\<close>

datatype pilot_error = ExecuteFailed trace_error | VerifyFailed verify_error

definition build_tx ::
  "ed25519 \<Rightarrow> tx_kind \<Rightarrow> u32 \<Rightarrow> u64 \<Rightarrow> keypair \<Rightarrow> bytes option \<Rightarrow> u128 \<Rightarrow> u8 \<Rightarrow> bytes option \<Rightarrow> signed_tx" where
  "build_tx ed knd aid non kp rcpt amt flg meta =
     (let tx = \<lparr> kind = knd, asset_id = aid, tx_nonce = non, signer = kp_public ed kp, recipient = rcpt,
                 amount = u128_le amt, flag = flg, court_order_hash = None, multi_payload = None,
                 originator_metadata = meta, signature = replicate 64 0 \<rparr>
      in tx\<lparr>signature := kp_sign ed kp (canonical tx)\<rparr>)"

text \<open>The accounts a block's transaction reads; \<open>unwrap\<close> panics on a transfer without recipient.\<close>

definition pilot_accounts :: "state \<Rightarrow> signed_tx \<Rightarrow> (account list, pilot_error) res" where
  "pilot_accounts s tx =
     (let to = (case recipient tx of Some r \<Rightarrow> r | None \<Rightarrow> signer tx);
          tgt = (case kind tx of Mint \<Rightarrow> to | Freeze \<Rightarrow> to | Transfer \<Rightarrow> signer tx | Burn \<Rightarrow> to
                 | MultiAsset \<Rightarrow> signer tx)
      in case kind tx of
           Transfer \<Rightarrow> and_then (expect (recipient tx)) (\<lambda>r. Ok [state_account s (signer tx), state_account s r])
         | _ \<Rightarrow> Ok [state_account s tgt])"

definition finalize_block ::
  "xof \<Rightarrow> ed25519 \<Rightarrow> keypair \<Rightarrow> signed_tx \<Rightarrow> u64 \<Rightarrow> block_header option \<Rightarrow> state \<Rightarrow>
   (state \<times> block_header, pilot_error) res" where
  "finalize_block xof ed seq_kp tx n last_hdr s =
     (let prev = accounts_root s;
          parent = (case last_hdr of Some h \<Rightarrow> header_hash xof h | None \<Rightarrow> replicate 32 0)
      in and_then (pilot_accounts s tx) (\<lambda>accs.
         let w = \<lparr> epoch = ucast (n + 1), w_accounts = accs, w_amount = amount tx, w_flag = flag tx \<rparr>
         in and_then (map_err ExecuteFailed (native_execute tx w)) (\<lambda>r.
            let s' = (if success r then fold (put_account xof) (updated_accounts r) s else s);
                h = \<lparr> block_n = n, parent_hash = parent, prev_state_root = prev,
                      hdr_tx_list_hash = tx_list_hash xof [tx],
                      hdr_trace_hash = combined_trace_hash xof [tr_trace_hash r],
                      new_state_root = accounts_root s', issuer_registry_root = registry_root s',
                      timestamp_ms = 0, sequencer_pubkey = kp_public ed seq_kp,
                      sequencer_sig = replicate 64 0 \<rparr>
            in Ok (s', h\<lparr>sequencer_sig := kp_sign ed seq_kp (signing_bytes h)\<rparr>))))"

definition adopt_header_for_lightclient :: "ed25519 \<Rightarrow> block_header \<Rightarrow> keypair \<Rightarrow> signed_header" where
  "adopt_header_for_lightclient ed h kp =
     sh_sign ed \<lparr> lc_block_n = block_n h, lc_parent_hash = parent_hash h,
       lc_prev_state_root = prev_state_root h, lc_tx_list_hash = hdr_tx_list_hash h,
       lc_trace_hash = hdr_trace_hash h, lc_new_state_root = new_state_root h,
       lc_issuer_registry_root = issuer_registry_root h, lc_timestamp_ms = timestamp_ms h,
       lc_sequencer_pubkey = sequencer_pubkey h \<rparr> kp"

definition seeded :: "u8 \<Rightarrow> keypair" where
  "seeded b = from_seed (replicate 32 b)"

definition pilot_issuer :: "ed25519 \<Rightarrow> issuer_record" where
  "pilot_issuer ed =
     \<lparr> ir_asset_id = 1, authority_pubkey = kp_public ed (seeded 0xa1), max_supply = u128_le (- 1),
       mint_enabled = True, burn_enabled = True, freeze_enabled = True,
       travel_rule_threshold = u128_le 10000, regulator_view_keys = [], ir_name = ascii ''USD-DEMO'' \<rparr>"

text \<open>The four transactions, in order.\<close>

definition pilot_txs :: "ed25519 \<Rightarrow> signed_tx list" where
  "pilot_txs ed =
     (let issuer = seeded 0xa1; treasury = seeded 0xa2; customer = seeded 0xa3; merchant = seeded 0xa4
      in [build_tx ed Mint 1 0 issuer (Some (kp_public ed treasury)) 1000000 0 None,
          build_tx ed Transfer 1 1 treasury (Some (kp_public ed customer)) 100 0 None,
          build_tx ed Transfer 1 1 customer (Some (kp_public ed merchant)) 50 0 None,
          build_tx ed Burn 1 2 issuer (Some (kp_public ed treasury)) 100 0 None])"

text \<open>Each block follows the one before; the number of the next block is the chain's length.\<close>

fun pilot_blocks ::
  "xof \<Rightarrow> ed25519 \<Rightarrow> signed_tx list \<Rightarrow> block_header list \<Rightarrow> state \<Rightarrow>
   (state \<times> block_header list, pilot_error) res" where
  "pilot_blocks xof ed [] hs s = Ok (s, hs)"
| "pilot_blocks xof ed (tx # txs) hs s =
     and_then (finalize_block xof ed (seeded 0xa0) tx (of_nat (length hs))
                 (if hs = [] then None else Some (last hs)) s)
       (\<lambda>(s, h). pilot_blocks xof ed txs (hs @ [h]) s)"

text \<open>
  The fifth step: the light client verifies the merchant's balance against the chain of headers.
  The last assertion panics when it is not 50.
\<close>

definition pilot_verify :: "xof \<Rightarrow> ed25519 \<Rightarrow> hash \<Rightarrow> block_header list \<Rightarrow> state \<Rightarrow> (unit, pilot_error) res" where
  "pilot_verify xof ed genesis_root chain s =
     (let merchant = kp_public ed (seeded 0xa4)
      in and_then (map_err VerifyFailed
           (verify_balance xof ed genesis_root
              (map (\<lambda>h. adopt_header_for_lightclient ed h (seeded 0xa0)) chain)
              (kp_public ed (seeded 0xa0)) merchant (account_proof s merchant)))
           (\<lambda>bal. if bal = 50 then Ok () else Panic))"

definition pilot_main :: "xof \<Rightarrow> ed25519 \<Rightarrow> json \<Rightarrow> (unit, pilot_error) res" where
  "pilot_main xof ed js =
     (let nd = node_new xof (from_seed (replicate 32 0xa0)) 16;
          genesis_root = accounts_root (node_state nd);
          nd = register_issuer xof js (pilot_issuer ed) nd
      in and_then (pilot_blocks xof ed (pilot_txs ed) [] (node_state nd)) (\<lambda>(s, chain).
         pilot_verify xof ed genesis_root chain s))"

section \<open>The chain\<close>

text \<open>
  The headers are linked, signed by the sequencer's key, start at the genesis root and end at
  the root of the accounts.
\<close>

definition pilot_chain :: "xof \<Rightarrow> ed25519 \<Rightarrow> hash \<Rightarrow> block_header list \<Rightarrow> state \<Rightarrow> bool" where
  "pilot_chain xof ed genesis hs s \<longleftrightarrow>
     linked xof (map to_lc hs) \<and>
     list_all (\<lambda>h. sequencer_pubkey h = kp_public ed (seeded 0xa0) \<and>
                   sequencer_sig h = kp_sign ed (seeded 0xa0) (signing_bytes h)) hs \<and>
     (if hs = [] then accounts_root s else prev_state_root (hd hs)) = genesis \<and>
     (hs \<noteq> [] \<longrightarrow> new_state_root (last hs) = accounts_root s)"

lemma signing_bytes_sig [simp]: "signing_bytes (h\<lparr>sequencer_sig := x\<rparr>) = signing_bytes h"
  by (simp add: signing_bytes_def)

lemma pilot_chain_step:
  assumes "pilot_chain xof ed g hs s"
    "finalize_block xof ed (seeded 0xa0) tx n (if hs = [] then None else Some (last hs)) s = Ok (s', h)"
  shows "pilot_chain xof ed g (hs @ [h]) s'"
proof -
  have h: "sequencer_pubkey h = kp_public ed (seeded 0xa0)"
    "sequencer_sig h = kp_sign ed (seeded 0xa0) (signing_bytes h)"
    "prev_state_root h = accounts_root s" "new_state_root h = accounts_root s'"
    "hs \<noteq> [] \<Longrightarrow> parent_hash h = header_hash xof (last hs)"
    using assms(2) by (auto simp: finalize_block_def Let_def and_then_Ok_iff signing_bytes_def)
  have "linked xof (map to_lc hs @ [to_lc h])"
    using assms(1) h(5) by (auto simp: linked_snoc pilot_chain_def to_lc_bytes last_map) (simp add: to_lc_def)
  moreover have "prev_state_root (hd (hs @ [h])) = g"
    using assms(1) h(3) by (cases hs) (simp_all add: pilot_chain_def)
  ultimately show ?thesis
    using assms(1) h(1,2,4) by (simp add: pilot_chain_def)
qed

lemma pilot_blocks_chain:
  "pilot_blocks xof ed txs hs s = Ok (s', hs') \<Longrightarrow> pilot_chain xof ed g hs s \<Longrightarrow>
     pilot_chain xof ed g hs' s' \<and> length hs' = length hs + length txs"
proof (induction txs arbitrary: hs s)
  case (Cons tx txs)
  then obtain s1 h where "finalize_block xof ed (seeded 0xa0) tx (of_nat (length hs))
      (if hs = [] then None else Some (last hs)) s = Ok (s1, h)" "pilot_blocks xof ed txs (hs @ [h]) s1 = Ok (s', hs')"
    by (auto simp: and_then_Ok_iff split: prod.splits)
  then show ?case using Cons.IH pilot_chain_step [OF Cons.prems(2)] by fastforce
qed simp

text \<open>Signing is deterministic, so the pilot's copy of a header is the header itself.\<close>

lemma adopt_signed:
  "sequencer_sig h = kp_sign ed kp (signing_bytes h) \<Longrightarrow> adopt_header_for_lightclient ed h kp = to_lc h"
  by (simp add: adopt_header_for_lightclient_def sh_sign_def to_lc_def lc_signing_bytes_def signing_bytes_def)

section \<open>The balances\<close>

text \<open>An unfrozen account with the given number of units.\<close>

definition funds :: "state \<Rightarrow> hash \<Rightarrow> nat \<Rightarrow> bool" where
  "funds s k n \<longleftrightarrow> bal s k = n \<and> \<not> is_frozen (state_account s k)"

lemma build_tx_simps [simp]:
  "kind (build_tx ed knd aid non kp rcpt amt flg meta) = knd"
  "signer (build_tx ed knd aid non kp rcpt amt flg meta) = kp_public ed kp"
  "recipient (build_tx ed knd aid non kp rcpt amt flg meta) = rcpt"
  "amount (build_tx ed knd aid non kp rcpt amt flg meta) = u128_le amt"
  "flag (build_tx ed knd aid non kp rcpt amt flg meta) = flg"
  by (simp_all add: build_tx_def Let_def)

text \<open>The stored accounts are well formed and their tree came from insertions.\<close>

definition pilot_ok :: "xof \<Rightarrow> state \<Rightarrow> bool" where
  "pilot_ok xof s \<longleftrightarrow> state_ok s \<and> (\<exists>N. built xof N (accounts s))"

lemma put_funds:
  assumes "pilot_ok xof s" "account_wf a" "pubkey a = k"
  shows "pilot_ok xof (put_account xof a s)"
    "funds (put_account xof a s) k' n \<longleftrightarrow> (if k' = k then unat (balance a) = n \<and> \<not> is_frozen a else funds s k' n)"
  using assms built_puts [of xof _ s "[a]"] by (auto simp: pilot_ok_def state_ok_put funds_def state_account_put)

lemma pilot_account:
  assumes "pilot_ok xof s" "length k = 32" "funds s k n"
  shows "account_wf (state_account s k)" "pubkey (state_account s k) = k"
    "unat (balance (state_account s k)) = n" "\<not> is_frozen (state_account s k)"
  using assms state_account_wf [of s k] by (auto simp: pilot_ok_def funds_def)

lemma finalize_mint:
  assumes "pilot_ok xof s" "length k = 32" "funds s k n" "n + unat amt < 2 ^ 127"
  shows "\<exists>s' h. finalize_block xof ed skp (build_tx ed Mint aid non kp (Some k) amt flg meta) bn lst s = Ok (s', h) \<and>
     pilot_ok xof s' \<and> (\<forall>k' n'. funds s' k' n' \<longleftrightarrow> (if k' = k then n' = n + unat amt else funds s k' n'))"
proof -
  let ?a = "state_account s k"
  have a: "account_wf ?a" "pubkey ?a = k" "unat (balance ?a) = n" "\<not> is_frozen ?a"
    using pilot_account [OF assms(1-3)] by simp_all
  have add: "checked_add (balance ?a) amt = Some (balance ?a + amt)"
    using a(3) assms(4) by (simp add: checked_add_def)
  let ?s = "put_account xof (credit amt (ucast (bn + 1)) ?a) s"
  have "\<exists>h. finalize_block xof ed skp (build_tx ed Mint aid non kp (Some k) amt flg meta) bn lst s = Ok (?s, h)"
    using add by (simp add: finalize_block_def pilot_accounts_def native_execute_def native_mint_def credit_def Let_def)
  moreover have "unat amt < 2 ^ 127" using assms(4) by linarith
  then have "\<not> is_frozen (credit amt (ucast (bn + 1)) ?a)"
    "unat (balance (credit amt (ucast (bn + 1)) ?a)) = n + unat amt"
    using credit_effect [OF a(1), of amt "ucast (bn + 1)"] a(3,4) assms(4) by simp_all
  then have "pilot_ok xof ?s \<and> (\<forall>k' n'. funds ?s k' n' \<longleftrightarrow> (if k' = k then n' = n + unat amt else funds s k' n'))"
    using put_funds [OF assms(1) credit_effect(1) [OF a(1)]] credit_effect(2) [OF a(1)] a(2) by auto
  ultimately show ?thesis by blast
qed

lemma finalize_transfer:
  assumes "pilot_ok xof s" "length (kp_public ed kp) = 32" "length k = 32" "kp_public ed kp \<noteq> k"
    "funds s (kp_public ed kp) m" "funds s k n" "unat amt \<le> m" "n + unat amt < 2 ^ 127"
  shows "\<exists>s' h. finalize_block xof ed skp (build_tx ed Transfer aid non kp (Some k) amt flg meta) bn lst s = Ok (s', h) \<and>
     pilot_ok xof s' \<and> (\<forall>k' n'. funds s' k' n' \<longleftrightarrow>
       (if k' = kp_public ed kp then n' = m - unat amt else if k' = k then n' = n + unat amt else funds s k' n'))"
proof -
  let ?ep = "ucast (bn + 1) :: u32" and ?f = "state_account s (kp_public ed kp)" and ?t = "state_account s k"
  have f: "account_wf ?f" "pubkey ?f = kp_public ed kp" "unat (balance ?f) = m" "\<not> is_frozen ?f"
    and t: "account_wf ?t" "pubkey ?t = k" "unat (balance ?t) = n" "\<not> is_frozen ?t"
    using pilot_account [OF assms(1,2,5)] pilot_account [OF assms(1,3,6)] by simp_all
  have le: "amt \<le> balance ?f" using f(3) assms(7) by (simp add: word_le_nat_alt)
  let ?s1 = "put_account xof (debit amt ?ep ?f) s"
  let ?s = "put_account xof (credit amt ?ep ?t) ?s1"
  have "\<exists>h. finalize_block xof ed skp (build_tx ed Transfer aid non kp (Some k) amt flg meta) bn lst s = Ok (?s, h)"
    using le f(4)
    by (simp add: finalize_block_def pilot_accounts_def native_execute_def native_transfer_cases Let_def
        not_less [symmetric])
  moreover have "pilot_ok xof ?s \<and> (\<forall>k' n'. funds ?s k' n' \<longleftrightarrow>
       (if k' = kp_public ed kp then n' = m - unat amt else if k' = k then n' = n + unat amt else funds s k' n'))"
  proof -
    have d: "account_wf (debit amt ?ep ?f)" "pubkey (debit amt ?ep ?f) = kp_public ed kp"
      "unat (balance (debit amt ?ep ?f)) = m - unat amt" "\<not> is_frozen (debit amt ?ep ?f)"
      using debit_effect [OF f(1) le] f by simp_all
    have "unat amt < 2 ^ 127" using assms(8) by linarith
    then have c: "account_wf (credit amt ?ep ?t)" "pubkey (credit amt ?ep ?t) = k"
      "unat (balance (credit amt ?ep ?t)) = n + unat amt" "\<not> is_frozen (credit amt ?ep ?t)"
      using credit_effect [OF t(1), of amt ?ep] t assms(8) by simp_all
    show ?thesis
      using put_funds [OF assms(1) d(1,2)] put_funds [OF _ c(1,2), of xof ?s1] d c assms(4) by auto
  qed
  ultimately show ?thesis by blast
qed

lemma finalize_burn:
  assumes "pilot_ok xof s" "length k = 32" "funds s k n" "unat amt \<le> n"
  shows "\<exists>s' h. finalize_block xof ed skp (build_tx ed Burn aid non kp (Some k) amt flg meta) bn lst s = Ok (s', h) \<and>
     pilot_ok xof s' \<and> (\<forall>k' n'. funds s' k' n' \<longleftrightarrow> (if k' = k then n' = n - unat amt else funds s k' n'))"
proof -
  let ?a = "state_account s k"
  have a: "account_wf ?a" "pubkey ?a = k" "unat (balance ?a) = n" "\<not> is_frozen ?a"
    using pilot_account [OF assms(1-3)] by simp_all
  have le: "amt \<le> balance ?a" using a(3) assms(4) by (simp add: word_le_nat_alt)
  let ?b = "set_last_active (ucast (ucast (bn + 1) :: u32)) (set_balance (balance ?a - amt) ?a)"
  let ?s = "put_account xof ?b s"
  have "\<exists>h. finalize_block xof ed skp (build_tx ed Burn aid non kp (Some k) amt flg meta) bn lst s = Ok (?s, h)"
    using le by (simp add: finalize_block_def pilot_accounts_def native_execute_def native_burn_def Let_def
        not_less [symmetric])
  moreover have "unat (balance ?a - amt) = n - unat amt"
    using le a(3) by (simp add: unat_sub_if' word_le_nat_alt)
  then have b: "account_wf ?b" "pubkey ?b = k" "unat (balance ?b) = n - unat amt" "\<not> is_frozen ?b"
    using a unat_balance_bound [OF a(1)] by (simp_all add: account_frame not_le del: power_numeral)
  have "pilot_ok xof ?s \<and> (\<forall>k' n'. funds ?s k' n' \<longleftrightarrow> (if k' = k then n' = n - unat amt else funds s k' n'))"
    using put_funds [OF assms(1) b(1,2)] b by auto
  ultimately show ?thesis by blast
qed

definition pilot_start :: "xof \<Rightarrow> ed25519 \<Rightarrow> json \<Rightarrow> state" where
  "pilot_start xof ed js =
     node_state (register_issuer xof js (pilot_issuer ed) (node_new xof (from_seed (replicate 32 0xa0)) 16))"

lemma pilot_start_funds:
  "pilot_ok xof (pilot_start xof ed js)" "length k = 32 \<Longrightarrow> funds (pilot_start xof ed js) k n \<longleftrightarrow> n = 0"
  "accounts_root (pilot_start xof ed js) = accounts_root (state_new xof)"
  using state_ok_new [of xof] state_account_new [of xof k] built.empty [of xof]
  by (auto simp: pilot_ok_def state_new_def pilot_start_def register_issuer_def node_new_def Let_def state_ok_def funds_def
      state_account_def accounts_root_def account_new_values)

lemma pilot_blocks_balances:
  assumes "ed_correct ed" "distinct (map (\<lambda>b. kp_public ed (seeded b)) [0xa2, 0xa3, 0xa4])"
  shows "\<exists>s chain. pilot_blocks xof ed (pilot_txs ed) [] (pilot_start xof ed js) = Ok (s, chain) \<and>
     pilot_ok xof s \<and> funds s (kp_public ed (seeded 0xa2)) 999800 \<and>
     funds s (kp_public ed (seeded 0xa3)) 50 \<and> funds s (kp_public ed (seeded 0xa4)) 50"
proof -
  let ?t = "kp_public ed (seeded 0xa2)" and ?c = "kp_public ed (seeded 0xa3)" and ?m = "kp_public ed (seeded 0xa4)"
  have len: "length (kp_public ed kp) = 32" for kp using assms(1) by (simp add: ed_correct_def kp_public_def)
  have ne: "?t \<noteq> ?c" "?c \<noteq> ?m" "?t \<noteq> ?m" using assms(2) by auto
  let ?s0 = "pilot_start xof ed js"
  have s0: "pilot_ok xof ?s0" "funds ?s0 ?t 0" "funds ?s0 ?c 0" "funds ?s0 ?m 0"
    using pilot_start_funds len by simp_all
  obtain s1 h1 where 1: "finalize_block xof ed (seeded 0xa0) (pilot_txs ed ! 0) 0 None ?s0 = Ok (s1, h1)"
    "pilot_ok xof s1" "funds s1 ?t 1000000" "funds s1 ?c 0" "funds s1 ?m 0"
    using finalize_mint [OF s0(1) len s0(2), of 1000000] s0 ne by (fastforce simp: pilot_txs_def Let_def)
  obtain s2 h2 where 2: "finalize_block xof ed (seeded 0xa0) (pilot_txs ed ! 1) 1 (Some h1) s1 = Ok (s2, h2)"
    "pilot_ok xof s2" "funds s2 ?t 999900" "funds s2 ?c 100" "funds s2 ?m 0"
    using finalize_transfer [OF 1(2) len len ne(1) 1(3,4), of 100] 1 ne by (fastforce simp: pilot_txs_def Let_def)
  obtain s3 h3 where 3: "finalize_block xof ed (seeded 0xa0) (pilot_txs ed ! 2) 2 (Some h2) s2 = Ok (s3, h3)"
    "pilot_ok xof s3" "funds s3 ?t 999900" "funds s3 ?c 50" "funds s3 ?m 50"
    using finalize_transfer [OF 2(2) len len ne(2) 2(4,5), of 50] 2 ne by (fastforce simp: pilot_txs_def Let_def)
  obtain s4 h4 where 4: "finalize_block xof ed (seeded 0xa0) (pilot_txs ed ! 3) 3 (Some h3) s3 = Ok (s4, h4)"
    "pilot_ok xof s4" "funds s4 ?t 999800" "funds s4 ?c 50" "funds s4 ?m 50"
    using finalize_burn [OF 3(2) len 3(3), of 100] 3 ne by (fastforce simp: pilot_txs_def Let_def)
  have "pilot_blocks xof ed (pilot_txs ed) [] ?s0 = Ok (s4, [h1, h2, h3, h4])"
    using 1(1) 2(1) 3(1) 4(1) by (simp add: pilot_txs_def Let_def)
  then show ?thesis using 4 by blast
qed

section \<open>The pilot completes\<close>

text \<open>The light client on the pilot's chain: the headers pass, and the verdict is that on the Merkle proof.\<close>

lemma pilot_client:
  assumes "ed_correct ed" "pilot_chain xof ed g chain s" "chain \<noteq> []" "length pk = 32"
    and "verify_proof xof (accounts_root s) pk (account_proof s pk)"
  shows "verify_balance xof ed g (map to_lc chain) (kp_public ed (seeded 0xa0)) pk (account_proof s pk) =
    Ok (balance (state_account s pk))"
proof -
  let ?seq = "kp_public ed (seeded 0xa0)"
  obtain h hs where hs: "chain = h # hs" using assms(3) by (cases chain) auto
  have signed: "\<forall>h\<in>set chain. signed_by ed ?seq (to_lc h)"
    using assms(2) verify_signed [OF assms(1), of "seeded 0xa0"]
    by (auto simp: pilot_chain_def list_all_iff signed_by_def to_lc_bytes) (simp_all add: to_lc_def)
  have "lc_prev_state_root (sh_header (to_lc h)) = g" "linked xof (to_lc h # map to_lc hs)"
    using assms(2) hs by (simp add: pilot_chain_def to_lc_def) (use assms(2) hs in \<open>simp add: pilot_chain_def\<close>)
  then have "check_chain xof ed g ?seq 0 None (map to_lc chain) = Ok ()"
    unfolding hs list.map check_chain_Ok using signed hs by simp
  moreover have "lc_new_state_root (sh_header (last (map to_lc chain))) = accounts_root s"
    using assms(2,3) by (simp add: last_map pilot_chain_def) (simp add: to_lc_def)
  moreover have "map to_lc chain \<noteq> []" using hs by simp
  ultimately show ?thesis
    using assms(5) shown_balance [OF assms(4), of s]
    unfolding verify_balance_def by (auto simp del: check_chain.simps map_is_Nil_conv)
qed

text \<open>C21. The pilot runs to its end: all four blocks execute, the treasury is left with 999800
  units, the customer and the merchant with 50 each; the light client accepts the four
  headers and the proof of the merchant's account, reads 50, and the program ends
  successfully. The accounts tree came from insertions that hashed a finite set \<open>N\<close> of nodes, and
  the one thing asked of the hash is that it does not collide on such a set.\<close>

theorem pilot_completes:
  assumes "ed_correct ed" "distinct (map (\<lambda>b. kp_public ed (seeded b)) [0xa2, 0xa3, 0xa4])"
  shows "\<exists>s chain. pilot_blocks xof ed (pilot_txs ed) [] (pilot_start xof ed js) = Ok (s, chain) \<and>
     length chain = 4 \<and>
     bal s (kp_public ed (seeded 0xa2)) = 999800 \<and> bal s (kp_public ed (seeded 0xa3)) = 50 \<and>
     bal s (kp_public ed (seeded 0xa4)) = 50 \<and>
     (\<exists>N. finite N \<and> built xof N (accounts s)) \<and>
     (\<forall>N. built xof N (accounts s) \<longrightarrow> clash_free xof N \<longrightarrow> pilot_main xof ed js = Ok ())"
proof -
  let ?seq = "kp_public ed (seeded 0xa0)" and ?m = "kp_public ed (seeded 0xa4)"
  let ?g = "accounts_root (state_new xof)"
  have key: "length ?m = 32" using assms(1) by (simp add: ed_correct_def kp_public_def)
  obtain s chain where run: "pilot_blocks xof ed (pilot_txs ed) [] (pilot_start xof ed js) = Ok (s, chain)"
    and ok: "pilot_ok xof s"
    and f: "funds s (kp_public ed (seeded 0xa2)) 999800" "funds s (kp_public ed (seeded 0xa3)) 50" "funds s ?m 50"
    using pilot_blocks_balances [OF assms, of xof js] by blast
  have "pilot_chain xof ed ?g [] (pilot_start xof ed js)"
    using pilot_start_funds(3) by (simp add: pilot_chain_def)
  then have chain: "pilot_chain xof ed ?g chain s" and len: "length chain = 4"
    using pilot_blocks_chain [OF run] by (auto simp: pilot_txs_def Let_def)
  have adopt: "map (\<lambda>h. adopt_header_for_lightclient ed h (seeded 0xa0)) chain = map to_lc chain"
    using chain adopt_signed by (auto simp: pilot_chain_def list_all_iff)
  have fifty: "balance (state_account s ?m) = 50" using f(3) by (simp add: funds_def word_unat_eq_iff)
  have main: "pilot_main xof ed js = Ok ()" if N: "built xof N (accounts s)" "clash_free xof N" for N
  proof -
    have "smt_inv xof (accounts s)" using built_inv [OF N] by blast
    then have "verify_proof xof (accounts_root s) ?m (account_proof s ?m)"
      using proof_verifies [OF _ key] by (simp add: accounts_root_def account_proof_def)
    moreover have "chain \<noteq> []" using len by auto
    ultimately have "verify_balance xof ed ?g (map to_lc chain) ?seq ?m (account_proof s ?m) = Ok 50"
      using pilot_client [OF assms(1) chain _ key] fifty by simp
    then show ?thesis
      unfolding pilot_main_def pilot_verify_def Let_def pilot_start_def [symmetric] run and_then.simps case_prod_conv adopt
      by (simp add: node_new_def)
  qed
  show ?thesis
    using run len f main ok built_finite unfolding pilot_ok_def funds_def by blast
qed

theorem pilot_completes_witness:
  "pilot_main code_xof open_ed plain_json = Ok () \<and>
   (\<exists>s chain. pilot_blocks code_xof open_ed (pilot_txs open_ed) [] (pilot_start code_xof open_ed plain_json) = Ok (s, chain) \<and>
     length chain = 4 \<and> bal s (replicate 32 0xa2) = 999800 \<and> bal s (replicate 32 0xa4) = 50)"
proof -
  have keys: "kp_public open_ed (seeded b) = replicate 32 b" for b
    by (simp add: kp_public_def open_ed_def seeded_def from_seed_def)
  then have "distinct (map (\<lambda>b. kp_public open_ed (seeded b)) [0xa2, 0xa3, 0xa4])"
    by (simp add: replicate_eq_replicate)
  from pilot_completes [OF open_ed_correct this, of code_xof plain_json] show ?thesis
    using built_code_clash_free by (auto simp: keys)
qed

end
