(* ===== verification/Binary64.thy ===== *)
theory Binary64
  imports Prelude "HOL-Library.Log_Nat"
begin

text \<open>
  The \<open>f64\<close> arithmetic of the legacy runner: IEEE 754 binary64 with round-to-nearest,
  ties-to-even, as Rust specifies it for \<open>+\<close>, \<open>-\<close>, \<open>*\<close>, \<open>/\<close>, the comparisons and
  \<open>f64::from_le_bytes\<close>. NaN payloads are not observable and are one value. A finite
  number is a sign, a significand and an exponent offset: every finite binary64 value is an
  integer multiple of \<open>2 ^ -1074\<close>, and \<open>Fin s m k\<close> is \<open>m * 2 ^ k\<close> such units. The lemmas
  are exactness of rounding on representable values, the canonical form of every result,
  and the behaviour of signed zeros that sparse evaluation relies on.
\<close>

section \<open>Values\<close>

datatype f64 = NaN | Infinite bool | Fin bool nat nat

text \<open>The canonical significand and exponent range of binary64.\<close>

fun is_canonical :: "f64 \<Rightarrow> bool" where
  "is_canonical (Fin s m k) \<longleftrightarrow> m < 2 ^ 53 \<and> k \<le> 2045 \<and> (k = 0 \<or> 2 ^ 52 \<le> m)"
| "is_canonical _ \<longleftrightarrow> True"

fun is_finite :: "f64 \<Rightarrow> bool" where
  "is_finite (Fin s m k) \<longleftrightarrow> True"
| "is_finite _ \<longleftrightarrow> False"

fun is_nan :: "f64 \<Rightarrow> bool" where
  "is_nan NaN \<longleftrightarrow> True"
| "is_nan _ \<longleftrightarrow> False"

definition pos_zero :: f64 where "pos_zero = Fin False 0 0"
definition neg_zero :: f64 where "neg_zero = Fin True 0 0"

text \<open>The value in units of \<open>2 ^ -1074\<close>, for finite numbers.\<close>

fun units :: "f64 \<Rightarrow> int" where
  "units (Fin s m k) = (if s then - int (m * 2 ^ k) else int (m * 2 ^ k))"
| "units _ = 0"

fun sign_of :: "f64 \<Rightarrow> bool" where
  "sign_of (Fin s m k) = s"
| "sign_of (Infinite s) = s"
| "sign_of NaN = False"

section \<open>Rounding\<close>

text \<open>
  \<open>round_ratio s n d\<close> rounds \<open>n / d\<close> units to the nearest representable number, ties to
  the even significand, overflowing to infinity.
\<close>

definition round_even :: "nat \<Rightarrow> nat \<Rightarrow> nat" where
  "round_even n d =
     (let q = n div d; r = n mod d
      in if d < 2 * r \<or> (2 * r = d \<and> odd q) then q + 1 else q)"

definition round_ratio :: "bool \<Rightarrow> nat \<Rightarrow> nat \<Rightarrow> f64" where
  "round_ratio s n d =
     (let k = floorlog 2 (n div d) - 53;
          m = round_even n (d * 2 ^ k)
      in if m = 2 ^ 53 then (if k + 1 > 2045 then Infinite s else Fin s (2 ^ 52) (k + 1))
         else if k > 2045 then Infinite s else Fin s m k)"

section \<open>Operations\<close>

fun f64_neg :: "f64 \<Rightarrow> f64" where
  "f64_neg NaN = NaN"
| "f64_neg (Infinite s) = Infinite (\<not> s)"
| "f64_neg (Fin s m k) = Fin (\<not> s) m k"

fun f64_add :: "f64 \<Rightarrow> f64 \<Rightarrow> f64" where
  "f64_add NaN _ = NaN"
| "f64_add _ NaN = NaN"
| "f64_add (Infinite s) (Infinite t) = (if s = t then Infinite s else NaN)"
| "f64_add (Infinite s) (Fin _ _ _) = Infinite s"
| "f64_add (Fin _ _ _) (Infinite t) = Infinite t"
| "f64_add (Fin s m k) (Fin t n l) =
     (let v = units (Fin s m k) + units (Fin t n l)
      in if v = 0 then Fin (s \<and> t) 0 0 else round_ratio (v < 0) (nat \<bar>v\<bar>) 1)"

definition f64_sub :: "f64 \<Rightarrow> f64 \<Rightarrow> f64" where
  "f64_sub a b = f64_add a (f64_neg b)"

fun f64_mul :: "f64 \<Rightarrow> f64 \<Rightarrow> f64" where
  "f64_mul NaN _ = NaN"
| "f64_mul _ NaN = NaN"
| "f64_mul (Infinite s) (Infinite t) = Infinite (s \<noteq> t)"
| "f64_mul (Infinite s) (Fin t n l) = (if n = 0 then NaN else Infinite (s \<noteq> t))"
| "f64_mul (Fin s m k) (Infinite t) = (if m = 0 then NaN else Infinite (s \<noteq> t))"
| "f64_mul (Fin s m k) (Fin t n l) = round_ratio (s \<noteq> t) (m * n * 2 ^ (k + l)) (2 ^ 1074)"

fun f64_div :: "f64 \<Rightarrow> f64 \<Rightarrow> f64" where
  "f64_div NaN _ = NaN"
| "f64_div _ NaN = NaN"
| "f64_div (Infinite s) (Infinite t) = NaN"
| "f64_div (Infinite s) (Fin t n l) = Infinite (s \<noteq> t)"
| "f64_div (Fin s m k) (Infinite t) = Fin (s \<noteq> t) 0 0"
| "f64_div (Fin s m k) (Fin t n l) =
     (if n = 0 then (if m = 0 then NaN else Infinite (s \<noteq> t))
      else round_ratio (s \<noteq> t) (m * 2 ^ k * 2 ^ 1074) (n * 2 ^ l))"

fun f64_lt :: "f64 \<Rightarrow> f64 \<Rightarrow> bool" where
  "f64_lt NaN _ \<longleftrightarrow> False"
| "f64_lt _ NaN \<longleftrightarrow> False"
| "f64_lt (Infinite s) (Infinite t) \<longleftrightarrow> s \<and> \<not> t"
| "f64_lt (Infinite s) (Fin _ _ _) \<longleftrightarrow> s"
| "f64_lt (Fin _ _ _) (Infinite t) \<longleftrightarrow> \<not> t"
| "f64_lt a b \<longleftrightarrow> units a < units b"

fun f64_eq :: "f64 \<Rightarrow> f64 \<Rightarrow> bool" where
  "f64_eq NaN _ \<longleftrightarrow> False"
| "f64_eq _ NaN \<longleftrightarrow> False"
| "f64_eq (Infinite s) (Infinite t) \<longleftrightarrow> s = t"
| "f64_eq (Fin s m k) (Fin t n l) \<longleftrightarrow> units (Fin s m k) = units (Fin t n l)"
| "f64_eq _ _ \<longleftrightarrow> False"

definition f64_gt :: "f64 \<Rightarrow> f64 \<Rightarrow> bool" where
  "f64_gt a b \<longleftrightarrow> f64_lt b a"

text \<open>\<open>pos as f64\<close>: an integer rounded to the nearest binary64 number.\<close>

definition f64_of_nat :: "nat \<Rightarrow> f64" where
  "f64_of_nat n = round_ratio False (n * 2 ^ 1074) 1"

text \<open>
  \<open>f64::from_le_bytes\<close>: one sign bit, eleven exponent bits, fifty-two fraction bits.
\<close>

definition f64_from_le_bytes :: "bytes \<Rightarrow> f64" where
  "f64_from_le_bytes bs =
     (let b = le_nat bs;
          s = (b div 2 ^ 63 mod 2 = 1);
          e = b div 2 ^ 52 mod 2 ^ 11;
          f = b mod 2 ^ 52
      in if e = 2047 then (if f = 0 then Infinite s else NaN)
         else if e = 0 then Fin s f 0
         else Fin s (2 ^ 52 + f) (e - 1))"

section \<open>Rounding is exact on representable values\<close>

lemma round_even_mult [simp]: "0 < d \<Longrightarrow> round_even (m * d) d = m"
  by (simp add: round_even_def)

lemma floorlog_significand:
  assumes "2 ^ 52 \<le> m" "m < 2 ^ 53"
  shows "floorlog 2 (m * 2 ^ k) = 53 + k"
proof (rule antisym)
  have "m * 2 ^ k < 2 ^ 53 * 2 ^ k"
    using assms(2) by simp
  then show "floorlog 2 (m * 2 ^ k) \<le> 53 + k"
    by (simp add: floorlog_le_iff power_add)
  have "2 ^ 52 * 2 ^ k \<le> m * 2 ^ k"
    using assms(1) by simp
  then have "(2::nat) ^ (52 + k) \<le> m * 2 ^ k"
    by (simp only: power_add)
  then show "53 + k \<le> floorlog 2 (m * 2 ^ k)"
    using floorlog_geI [of 2 "53 + k" "m * 2 ^ k"] by simp
qed

lemma round_exact:
  assumes "is_canonical (Fin s m k)" "0 < d"
  shows "round_ratio s (m * 2 ^ k * d) d = Fin s m k"
proof -
  have "floorlog 2 (m * 2 ^ k) - 53 = k"
  proof (cases "k = 0")
    case True
    then show ?thesis using assms(1) by (simp add: floorlog_le_iff)
  next
    case False
    then show ?thesis using assms(1) floorlog_significand [of m k] by simp
  qed
  moreover have "round_even (m * 2 ^ k * d) (d * 2 ^ k) = m"
    using assms(2) round_even_mult [of "d * 2 ^ k" m] by (simp add: ac_simps)
  ultimately show ?thesis
    using assms by (simp add: round_ratio_def Let_def)
qed

lemma round_exact_1:
  "is_canonical (Fin s m k) \<Longrightarrow> round_ratio s (m * 2 ^ k) 1 = Fin s m k"
  using round_exact [of s m k 1] by simp

lemma round_ratio_zero [simp]: "0 < d \<Longrightarrow> round_ratio s 0 d = Fin s 0 0"
  using round_exact [of s 0 0 d] by simp

section \<open>Results are canonical\<close>

lemma scaled_quotient_bounds:
  assumes "0 < d" "k = floorlog 2 (n div d) - 53"
  shows "n div (d * 2 ^ k) < 2 ^ 53" "0 < k \<Longrightarrow> 2 ^ 52 \<le> n div (d * 2 ^ k)"
proof -
  let ?q = "n div d"
  have shape: "n div (d * 2 ^ k) = ?q div 2 ^ k"
    by (simp add: div_mult2_eq)
  have "?q < 2 ^ floorlog 2 ?q"
    using floorlog_bounds [of ?q 2] by (cases "?q = 0") auto
  also have "\<dots> \<le> 2 ^ (53 + k)"
    using assms(2) by (intro power_increasing) auto
  finally show "n div (d * 2 ^ k) < 2 ^ 53"
    unfolding shape by (simp add: div_less_iff_less_mult power_add)
  show "2 ^ 52 \<le> n div (d * 2 ^ k)" if "0 < k"
  proof -
    have "0 < ?q" using that assms(2) by (cases "?q = 0") (auto simp: floorlog_def)
    then have "2 ^ (floorlog 2 ?q - 1) \<le> ?q" using floorlog_bounds [of ?q 2] by auto
    moreover have "floorlog 2 ?q - 1 = 52 + k" using that assms(2) by simp
    ultimately have "2 ^ 52 * 2 ^ k \<le> ?q" by (simp add: power_add)
    then show ?thesis unfolding shape by (simp add: less_eq_div_iff_mult_less_eq)
  qed
qed

lemma round_even_cases: "round_even n d = n div d \<or> round_even n d = n div d + 1"
  by (simp add: round_even_def Let_def)

lemma canonical_round [simp]:
  assumes "0 < d"
  shows "is_canonical (round_ratio s n d)"
proof -
  define k where "k = floorlog 2 (n div d) - 53"
  define m where "m = round_even n (d * 2 ^ k)"
  have "m \<le> 2 ^ 53" "k = 0 \<or> 2 ^ 52 \<le> m"
    using scaled_quotient_bounds [OF assms k_def] round_even_cases [of n "d * 2 ^ k"]
    unfolding m_def by (cases "k = 0"; fastforce)+
  then show ?thesis
    unfolding round_ratio_def Let_def k_def [symmetric] m_def [symmetric] by auto
qed

lemma canonical_add [simp]: "is_canonical a \<Longrightarrow> is_canonical b \<Longrightarrow> is_canonical (f64_add a b)"
  by (cases "(a, b)" rule: f64_add.cases) (auto simp: Let_def simp del: units.simps)

lemma canonical_mul [simp]: "is_canonical a \<Longrightarrow> is_canonical b \<Longrightarrow> is_canonical (f64_mul a b)"
  by (cases "(a, b)" rule: f64_mul.cases) auto

lemma canonical_zero [simp]: "is_canonical pos_zero" "is_canonical neg_zero"
  by (simp_all add: pos_zero_def neg_zero_def)

lemma canonical_from_le_bytes [simp]: "is_canonical (f64_from_le_bytes bs)"
proof -
  have "le_nat bs mod 2 ^ 52 < 2 ^ 52" "le_nat bs div 2 ^ 52 mod 2 ^ 11 < 2 ^ 11" by simp_all
  then show ?thesis by (auto simp: f64_from_le_bytes_def Let_def)
qed

section \<open>Signed zeros\<close>

lemma round_ratio_nonzero:
  assumes "0 < n" "round_ratio s n 1 = Fin t m k"
  shows "m \<noteq> 0"
proof -
  define j where "j = floorlog 2 (n div 1) - 53"
  have "n div 2 ^ j \<noteq> 0"
    using scaled_quotient_bounds(2) [of 1 j n] assms(1) j_def by (cases "j = 0") auto
  then have "round_even n (2 ^ j) \<noteq> 0"
    using round_even_cases [of n "2 ^ j"] by auto
  then show ?thesis
    using assms(2) unfolding round_ratio_def Let_def j_def [symmetric]
    by (auto split: if_splits)
qed

lemma units_nonzero:
  assumes "0 < m"
  shows "nat \<bar>units (Fin s m k)\<bar> = m * 2 ^ k" "units (Fin s m k) \<noteq> 0" "units (Fin s m k) < 0 \<longleftrightarrow> s"
proof -
  define n where "n = m * 2 ^ k"
  have "0 < n" using assms by (simp add: n_def)
  then show "nat \<bar>units (Fin s m k)\<bar> = m * 2 ^ k" "units (Fin s m k) \<noteq> 0" "units (Fin s m k) < 0 \<longleftrightarrow> s"
    unfolding units.simps n_def [symmetric] by auto
qed

lemma units_zero [simp]: "units (Fin s 0 k) = 0"
  by simp

lemma units_nonpos: "units (Fin True m k) \<le> 0"
  by simp

text \<open>Adding a zero of either sign keeps every number but the negative zero.\<close>

lemma add_zero_exact:
  assumes "is_canonical a" "a \<noteq> neg_zero" "z = pos_zero \<or> z = neg_zero"
  shows "f64_add a z = a"
proof (cases a)
  case (Fin s m k)
  have z: "z = Fin (z = neg_zero) 0 0"
    using assms(3) by (auto simp: pos_zero_def neg_zero_def)
  show ?thesis
  proof (cases "m = 0")
    case True
    then have "k = 0" "\<not> s" using assms(1,2) Fin by (auto simp: neg_zero_def)
    then show ?thesis using True Fin by (subst z) simp
  next
    case False
    then have "nat \<bar>units a\<bar> = m * 2 ^ k" "units a \<noteq> 0" "units a < 0 \<longleftrightarrow> s"
      using Fin units_nonzero [of m s k] by simp_all
    then show ?thesis
      using round_exact_1 [of s m k] assms(1) Fin
      by (subst z) (simp add: Let_def del: units.simps)
  qed
qed (use assms(3) in \<open>auto simp: pos_zero_def neg_zero_def\<close>)

lemma add_keeps_not_neg_zero:
  assumes "a \<noteq> neg_zero" "is_canonical a"
  shows "f64_add a b \<noteq> neg_zero"
proof (cases a)
  case (Fin s m k)
  note a = Fin
  show ?thesis
  proof (cases b)
    case (Fin t n l)
    let ?v = "units a + units b"
    have "\<not> (s \<and> t)" if "?v = 0"
    proof
      assume neg: "s \<and> t"
      then have "units a = 0"
        using that a Fin units_nonpos [of m k] units_nonpos [of n l] by (simp del: units.simps)
      then have "m = 0" using a units_nonzero(2) [of m s k] by (cases "m = 0") auto
      then show False using neg a assms by (auto simp: neg_zero_def)
    qed
    moreover have "round_ratio (?v < 0) (nat \<bar>?v\<bar>) 1 \<noteq> neg_zero" if "?v \<noteq> 0"
      using round_ratio_nonzero [of "nat \<bar>?v\<bar>"] that by (auto simp: neg_zero_def)
    ultimately show ?thesis
      using a Fin by (auto simp: Let_def neg_zero_def simp del: units.simps)
  qed (auto simp: a neg_zero_def)
qed (cases b; auto simp: neg_zero_def)+

lemma mul_zero_finite:
  assumes "f64_eq a pos_zero" "is_finite x"
  shows "f64_mul a x = pos_zero \<or> f64_mul a x = neg_zero"
proof -
  obtain s k where "a = Fin s 0 k"
    using assms(1) by (cases a) (auto simp: pos_zero_def split: if_splits)
  then show ?thesis
    using assms(2) by (cases x) (auto simp: pos_zero_def neg_zero_def)
qed

lemma f64_add_comm: "f64_add a b = f64_add b a"
  by (cases a; cases b) (auto simp: Let_def add.commute conj_commute simp del: units.simps)

lemma add_neg_zero_left [simp]: "is_canonical a \<Longrightarrow> f64_add neg_zero a = a"
  using add_zero_exact [of a neg_zero] f64_add_comm [of neg_zero a]
  by (cases "a = neg_zero") (auto simp: neg_zero_def)

lemma add_pos_zero_left:
  "is_canonical a \<Longrightarrow> f64_add pos_zero a = (if a = neg_zero then pos_zero else a)"
  using add_zero_exact [of a pos_zero] f64_add_comm [of pos_zero a]
  by (auto simp: neg_zero_def pos_zero_def)

lemma zeros_differ [simp]: "pos_zero \<noteq> neg_zero" "neg_zero \<noteq> pos_zero"
  by (simp_all add: neg_zero_def pos_zero_def)

lemma add_pos_zero_pair:
  assumes "is_canonical a" "is_canonical b"
  shows "f64_add (f64_add pos_zero a) b = f64_add pos_zero (f64_add a b)"
proof (cases "a = neg_zero")
  case True
  then show ?thesis using assms by (simp add: add_pos_zero_left)
next
  case False
  then have "f64_add a b \<noteq> neg_zero" using add_keeps_not_neg_zero assms by simp
  then show ?thesis using False assms by (simp add: add_pos_zero_left)
qed

end
