(* ===== verification/Legacy_Sparse.thy ===== *)
theory Legacy_Sparse
  imports Binary64
begin

text \<open>
  The matrix-vector products of the legacy runner (\<open>legacy/rust_runner/src/sparse.rs\<close>): the
  dense loop, the compressed-sparse-row representation with its two-nonzeros-per-row fast
  path, and the enumeration that selects between them. A dense matrix is its shape and its
  row-major data. The lemmas give the representation \<open>from_view\<close> builds in closed form.
\<close>

text \<open>The errors of the runner: the \<open>anyhow\<close> chains by what caused them.\<close>

datatype runner_error =
    OpenFailed
  | UnexpectedEof
  | ReadingTensor
  | ReadingTokenBytes
  | NonUtf8Token
  | NdarrayShape
  | UnknownToken rstring

record matrix =
  nrows :: usize
  ncols :: usize
  mdata :: "f64 list"

text \<open>Every \<open>f64\<close> is a canonical value, and an array holds as many as its shape says.\<close>

definition vec_ok :: "f64 list \<Rightarrow> bool" where
  "vec_ok x \<longleftrightarrow> list_all is_canonical x"

definition matrix_ok :: "matrix \<Rightarrow> bool" where
  "matrix_ok w \<longleftrightarrow> length (mdata w) = nrows w * ncols w \<and> vec_ok (mdata w)"

definition mget :: "matrix \<Rightarrow> usize \<Rightarrow> usize \<Rightarrow> f64" where
  "mget w i j = mdata w ! (i * ncols w + j)"

section \<open>The sparse representation\<close>

record sparse_matrix =
  sp_rows :: usize
  sp_cols :: usize
  nnz :: usize
  sp_val :: "f64 list"
  sp_col :: "u32 list"
  sp_ptr :: "u32 list"
  fast_row12 :: bool
  arity :: "u8 list"
  col0 :: "u32 list"
  col1 :: "u32 list"
  val0 :: "f64 list"
  val1 :: "f64 list"

definition sparse_init :: "usize \<Rightarrow> usize \<Rightarrow> sparse_matrix" where
  "sparse_init rows cols =
     \<lparr> sp_rows = rows, sp_cols = cols, nnz = 0, sp_val = [], sp_col = [],
       sp_ptr = replicate (rows + 1) 0, fast_row12 = True, arity = replicate rows 0,
       col0 = replicate rows 0, col1 = replicate rows 0,
       val0 = replicate rows pos_zero, val1 = replicate rows pos_zero \<rparr>"

text \<open>One column \<open>j\<close> of row \<open>i\<close>; the pair carries the structure and \<open>row_nnz\<close>.\<close>

definition scan_entry ::
  "matrix \<Rightarrow> usize \<Rightarrow> usize \<Rightarrow> sparse_matrix \<times> usize \<Rightarrow> sparse_matrix \<times> usize" where
  "scan_entry dense i j = (\<lambda>(sp, row_nnz).
     let v = mget dense i j
     in if \<not> f64_eq v pos_zero then
          (let sp1 = sp\<lparr>sp_val := sp_val sp @ [v], sp_col := sp_col sp @ [of_nat j], nnz := nnz sp + 1\<rparr>;
               sp2 = (if row_nnz = 0 then
                        sp1\<lparr>col0 := (col0 sp1)[i := of_nat j], val0 := (val0 sp1)[i := v]\<rparr>
                      else if row_nnz = 1 then
                        sp1\<lparr>col1 := (col1 sp1)[i := of_nat j], val1 := (val1 sp1)[i := v]\<rparr>
                      else sp1)
           in (sp2, row_nnz + 1))
        else (sp, row_nnz))"

definition scan_row :: "matrix \<Rightarrow> usize \<Rightarrow> sparse_matrix \<Rightarrow> sparse_matrix" where
  "scan_row dense i sp =
     (let sp1 = sp\<lparr>sp_ptr := (sp_ptr sp)[i := of_nat (nnz sp)]\<rparr>;
          (sp2, row_nnz) = fold (scan_entry dense i) [0..<ncols dense] (sp1, 0);
          sp3 = sp2\<lparr>arity := (arity sp2)[i := of_nat (min row_nnz 255)]\<rparr>
      in if row_nnz > 2 then sp3\<lparr>fast_row12 := False\<rparr> else sp3)"

definition from_view :: "matrix \<Rightarrow> sparse_matrix" where
  "from_view dense =
     (let sp = fold (scan_row dense) [0..<nrows dense] (sparse_init (nrows dense) (ncols dense))
      in sp\<lparr>sp_ptr := (sp_ptr sp)[nrows dense := of_nat (nnz sp)]\<rparr>)"

definition worth_using :: "usize \<Rightarrow> usize \<Rightarrow> usize \<Rightarrow> bool" where
  "worth_using rows cols n =
     (let total = saturating_mul_usize rows cols
      in if total = 0 then False else saturating_mul_usize n 25 < total)"

section \<open>Products\<close>

definition mul_at :: "f64 \<Rightarrow> f64 list \<Rightarrow> u32 \<Rightarrow> (f64, runner_error) res" where
  "mul_at v x c = and_then (get_at x (unat c)) (\<lambda>xc. Ok (f64_mul v xc))"

definition fast_row :: "sparse_matrix \<Rightarrow> f64 list \<Rightarrow> usize \<Rightarrow> (f64, runner_error) res" where
  "fast_row sp x i =
     and_then (get_at (arity sp) i) (\<lambda>a.
       if a = 0 then Ok pos_zero
       else and_then (get_at (val0 sp) i) (\<lambda>v0. and_then (get_at (col0 sp) i) (\<lambda>c0.
            and_then (mul_at v0 x c0) (\<lambda>p0.
              if a = 1 then Ok p0
              else and_then (get_at (val1 sp) i) (\<lambda>v1. and_then (get_at (col1 sp) i) (\<lambda>c1.
                   and_then (mul_at v1 x c1) (\<lambda>p1. Ok (f64_add p0 p1))))))))"

definition csr_row :: "sparse_matrix \<Rightarrow> f64 list \<Rightarrow> usize \<Rightarrow> (f64, runner_error) res" where
  "csr_row sp x i =
     and_then (get_at (sp_ptr sp) i) (\<lambda>lo. and_then (get_at (sp_ptr sp) (i + 1)) (\<lambda>hi.
     for_each [unat lo..<unat hi]
       (\<lambda>k s. and_then (get_at (sp_val sp) k) (\<lambda>v. and_then (get_at (sp_col sp) k) (\<lambda>c.
              and_then (mul_at v x c) (\<lambda>p. Ok (f64_add s p)))))
       pos_zero))"

text \<open>The two \<open>debug_assert_eq\<close> calls are absent from a release build, which this is.\<close>

definition matvec_into :: "sparse_matrix \<Rightarrow> f64 list \<Rightarrow> f64 list \<Rightarrow> (f64 list, runner_error) res" where
  "matvec_into sp x y =
     for_each [0..<sp_rows sp]
       (\<lambda>i y. and_then (if fast_row12 sp then fast_row sp x i else csr_row sp x i) (\<lambda>s. set_at y i s))
       y"

definition matvec_view :: "sparse_matrix \<Rightarrow> f64 list \<Rightarrow> (f64 list, runner_error) res" where
  "matvec_view sp x = matvec_into sp x (replicate (sp_rows sp) pos_zero)"

section \<open>Linear maps\<close>

datatype linear = Dense matrix | Sparse sparse_matrix

definition from_dense :: "matrix \<Rightarrow> linear" where
  "from_dense dense = Dense dense"

definition dense_row :: "matrix \<Rightarrow> f64 list \<Rightarrow> usize \<Rightarrow> (f64, runner_error) res" where
  "dense_row w x i =
     for_each [0..<ncols w]
       (\<lambda>j s. and_then (get_at (mdata w) (i * ncols w + j)) (\<lambda>wij.
              and_then (get_at x j) (\<lambda>xj. Ok (f64_add s (f64_mul wij xj)))))
       pos_zero"

fun matvec :: "linear \<Rightarrow> f64 list \<Rightarrow> (f64 list, runner_error) res" where
  "matvec (Dense w) x =
     for_each [0..<nrows w] (\<lambda>i y. and_then (dense_row w x i) (\<lambda>s. set_at y i s))
       (replicate (nrows w) pos_zero)"
| "matvec (Sparse sp) x = matvec_view sp x"

fun linear_rows :: "linear \<Rightarrow> usize" where
  "linear_rows (Dense w) = nrows w"
| "linear_rows (Sparse sp) = sp_rows sp"

fun linear_cols :: "linear \<Rightarrow> usize" where
  "linear_cols (Dense w) = ncols w"
| "linear_cols (Sparse sp) = sp_cols sp"

fun is_sparse :: "linear \<Rightarrow> bool" where
  "is_sparse (Dense w) \<longleftrightarrow> False"
| "is_sparse (Sparse sp) \<longleftrightarrow> True"

section \<open>The representation in closed form\<close>

text \<open>The nonzero entries of row \<open>i\<close> among its first \<open>n\<close> columns, in column order.\<close>

definition entries :: "matrix \<Rightarrow> usize \<Rightarrow> usize \<Rightarrow> (usize \<times> f64) list" where
  "entries w i n = filter (\<lambda>(j, v). \<not> f64_eq v pos_zero) (map (\<lambda>j. (j, mget w i j)) [0..<n])"

lemma entries_Suc:
  "entries w i (Suc n) =
     entries w i n @ (if f64_eq (mget w i n) pos_zero then [] else [(n, mget w i n)])"
  by (simp add: entries_def)

lemma entries_bound: "(j, v) \<in> set (entries w i n) \<Longrightarrow> j < n"
  by (auto simp: entries_def)

lemma length_entries: "length (entries w i n) \<le> n"
  using length_filter_le [of _ "map (\<lambda>j. (j, mget w i j)) [0..<n]"] by (simp add: entries_def)

definition set_nth :: "'b list \<Rightarrow> nat \<Rightarrow> ('a \<Rightarrow> 'b) \<Rightarrow> 'a list \<Rightarrow> nat \<Rightarrow> 'b list" where
  "set_nth xs i f es n = (if n < length es then xs[i := f (es ! n)] else xs)"

lemma scan_entries:
  "fold (scan_entry w i) [0..<n] (sp, 0) =
     (let es = entries w i n
      in (sp\<lparr>sp_val := sp_val sp @ map snd es, sp_col := sp_col sp @ map (of_nat \<circ> fst) es,
             nnz := nnz sp + length es,
             col0 := set_nth (col0 sp) i (of_nat \<circ> fst) es 0, val0 := set_nth (val0 sp) i snd es 0,
             col1 := set_nth (col1 sp) i (of_nat \<circ> fst) es 1, val1 := set_nth (val1 sp) i snd es 1\<rparr>,
          length es))"
proof (induction n)
  case 0
  then show ?case by (simp add: entries_def set_nth_def)
next
  case (Suc n)
  consider "length (entries w i n) = 0" | "length (entries w i n) = 1" | "2 \<le> length (entries w i n)"
    by linarith
  then show ?case
    by cases (use Suc in \<open>auto simp: entries_Suc scan_entry_def set_nth_def Let_def nth_append\<close>)
qed

definition stored_upto :: "matrix \<Rightarrow> usize \<Rightarrow> usize" where
  "stored_upto w n = sum_list (map (\<lambda>i. length (entries w i (ncols w))) [0..<n])"

definition nth_or :: "'b \<Rightarrow> ('a \<Rightarrow> 'b) \<Rightarrow> 'a list \<Rightarrow> nat \<Rightarrow> 'b" where
  "nth_or z f es n = (if n < length es then f (es ! n) else z)"

lemma set_nth_prefix:
  "n < r \<Longrightarrow> set_nth (map g [0..<n] @ replicate (r - n) z) n f es k =
     map g [0..<n] @ nth_or z f es k # replicate (r - Suc n) z"
  by (simp add: set_nth_def nth_or_def list_update_append Suc_diff_Suc [symmetric])

definition scanned :: "matrix \<Rightarrow> usize \<Rightarrow> sparse_matrix" where
  "scanned w n =
     (let E = (\<lambda>i. entries w i (ncols w)); r = nrows w
      in \<lparr> sp_rows = r, sp_cols = ncols w, nnz = stored_upto w n,
           sp_val = concat (map (\<lambda>i. map snd (E i)) [0..<n]),
           sp_col = concat (map (\<lambda>i. map (of_nat \<circ> fst) (E i)) [0..<n]),
           sp_ptr = map (\<lambda>i. of_nat (stored_upto w i)) [0..<n] @ replicate (r + 1 - n) 0,
           fast_row12 = (\<forall>i<n. length (E i) \<le> 2),
           arity = map (\<lambda>i. of_nat (min (length (E i)) 255)) [0..<n] @ replicate (r - n) 0,
           col0 = map (\<lambda>i. nth_or 0 (of_nat \<circ> fst) (E i) 0) [0..<n] @ replicate (r - n) 0,
           col1 = map (\<lambda>i. nth_or 0 (of_nat \<circ> fst) (E i) 1) [0..<n] @ replicate (r - n) 0,
           val0 = map (\<lambda>i. nth_or pos_zero snd (E i) 0) [0..<n] @ replicate (r - n) pos_zero,
           val1 = map (\<lambda>i. nth_or pos_zero snd (E i) 1) [0..<n] @ replicate (r - n) pos_zero \<rparr>)"

lemma scan_rows:
  "n \<le> nrows w \<Longrightarrow> fold (scan_row w) [0..<n] (sparse_init (nrows w) (ncols w)) = scanned w n"
proof (induction n)
  case 0
  then show ?case by (simp add: scanned_def sparse_init_def stored_upto_def Let_def)
next
  case (Suc n)
  then have lt: "n < nrows w" "n < nrows w + 1" by simp_all
  have IH: "fold (scan_row w) [0..<n] (sparse_init (nrows w) (ncols w)) = scanned w n"
    using Suc by simp
  have le: "(\<forall>i<Suc n. P i) \<longleftrightarrow> (\<forall>i<n. P i) \<and> P n" for P
    using less_Suc_eq by auto
  have "scan_row w n (scanned w n) = scanned w (Suc n)"
    using lt
    by (simp add: scan_row_def scan_entries scanned_def Let_def le stored_upto_def
        list_update_prefix set_nth_prefix del: replicate.simps)
  then show ?case by (simp add: IH)
qed

lemma from_view_closed:
  "from_view w = (scanned w (nrows w))\<lparr>sp_ptr := map (\<lambda>i. of_nat (stored_upto w i)) [0..<Suc (nrows w)]\<rparr>"
  by (simp add: from_view_def scan_rows Let_def scanned_def list_update_append)

end
