(* ===== verification/Legacy_Sparse_Laws.thy ===== *)
theory Legacy_Sparse_Laws
  imports Legacy_Sparse
begin

text \<open>
  The two sparse evaluations against the dense loop, row by row: the compressed rows add the
  same products in the same order and skip only zeros, which is exact; the fast path leaves
  out the addition of the initial zero, which shows when the row is a negative zero.
\<close>

section \<open>Row sums\<close>

definition entry_sum :: "f64 list \<Rightarrow> (usize \<times> f64) list \<Rightarrow> f64 \<Rightarrow> f64" where
  "entry_sum x es s = fold (\<lambda>(j, v) s. f64_add s (f64_mul v (x ! j))) es s"

lemma entry_sum_simps [simp]:
  "entry_sum x [] s = s"
  "entry_sum x ((j, v) # es) s = entry_sum x es (f64_add s (f64_mul v (x ! j)))"
  by (simp_all add: entry_sum_def)

lemma entry_sum_append: "entry_sum x (es @ fs) s = entry_sum x fs (entry_sum x es s)"
  by (simp add: entry_sum_def)

definition operand :: "f64 list \<Rightarrow> (usize \<times> f64) \<Rightarrow> bool" where
  "operand x = (\<lambda>(j, v). is_canonical v \<and> is_canonical (x ! j) \<and> is_finite (x ! j))"

lemma entry_sum_skips_zeros:
  assumes "is_canonical s" "s \<noteq> neg_zero" "\<forall>e\<in>set es. operand x e"
  shows "entry_sum x (filter (\<lambda>(j, v). \<not> f64_eq v pos_zero) es) s = entry_sum x es s"
  using assms
proof (induction es arbitrary: s)
  case (Cons e es)
  obtain j v where e: "e = (j, v)" by (cases e)
  have op: "is_canonical v" "is_canonical (x ! j)" "is_finite (x ! j)"
    using Cons.prems(3) e by (auto simp: operand_def)
  have "f64_add s (f64_mul v (x ! j)) = s" if "f64_eq v pos_zero"
    using mul_zero_finite [OF that op(3)] add_zero_exact Cons.prems by blast
  moreover have "is_canonical (f64_add s (f64_mul v (x ! j)))" "f64_add s (f64_mul v (x ! j)) \<noteq> neg_zero"
    using Cons.prems op add_keeps_not_neg_zero by simp_all
  ultimately show ?case using Cons e by simp
qed simp

section \<open>Rows of the three evaluations\<close>

definition all_entries :: "matrix \<Rightarrow> usize \<Rightarrow> (usize \<times> f64) list" where
  "all_entries w i = map (\<lambda>j. (j, mget w i j)) [0..<ncols w]"

lemma cell_bound: "i < r \<Longrightarrow> j < c \<Longrightarrow> i * c + j < r * c" for i j r c :: nat
proof -
  assume "i < r" "j < c"
  then have "i * c + j < Suc i * c" by simp
  also have "\<dots> \<le> r * c" using \<open>i < r\<close> by (intro mult_le_mono1) simp
  finally show ?thesis .
qed

lemma dense_row_entry_sum:
  assumes "matrix_ok w" "i < nrows w" "length x = ncols w"
  shows "dense_row w x i = Ok (entry_sum x (all_entries w i) pos_zero)"
proof -
  let ?P = "\<lambda>n s. s = entry_sum x (map (\<lambda>j. (j, mget w i j)) [0..<n]) pos_zero"
  have "\<exists>t. dense_row w x i = Ok t \<and> ?P (ncols w) t"
    unfolding dense_row_def
    by (rule for_each_upt)
      (use assms cell_bound [of i "nrows w"] in \<open>auto simp: matrix_ok_def mget_def entry_sum_append\<close>)
  then show ?thesis by (simp add: all_entries_def)
qed

lemma csr_scan:
  assumes "\<forall>(j, v)\<in>set es. j < length x \<and> j < 2 ^ 32" "length A = n" "length B = n"
  shows "for_each [n..<n + length es]
       (\<lambda>k s. and_then (get_at (A @ map snd es @ A') k) (\<lambda>v.
              and_then (get_at (B @ map (of_nat \<circ> fst) es @ B') k) (\<lambda>c.
              and_then (mul_at v x c) (\<lambda>p. Ok (f64_add s p))))) s
     = Ok (entry_sum x es s)"
  using assms
proof (induction es arbitrary: A B n s)
  case (Cons e es)
  obtain j v where e: "e = (j, v)" by (cases e)
  have j: "j < length x" "unat (of_nat j :: u32) = j"
    using Cons.prems(1) e by (auto simp: unat_of_nat)
  have "[n..<n + length (e # es)] = n # [Suc n..<Suc n + length es]"
    by (simp add: upt_conv_Cons del: upt_Suc)
  then show ?case
    using Cons.IH [of "A @ [v]" "Suc n" "B @ [of_nat j]" "f64_add s (f64_mul v (x ! j))"] Cons.prems e j
    by (simp add: mul_at_def nth_append)
qed simp

lemma concat_rows_split:
  assumes "i < r"
  shows "\<exists>B. concat (map f [0..<r]) = concat (map f [0..<i]) @ f i @ B"
proof -
  have "[0..<r] = [0..<i] @ i # [Suc i..<r]"
    using assms upt_add_eq_append [of 0 i "r - i"] by (simp add: upt_conv_Cons)
  then show ?thesis by simp
qed

lemma length_concat_rows:
  "length (concat (map (\<lambda>i. map f (entries w i (ncols w))) [0..<n])) = stored_upto w n"
  by (simp add: length_concat stored_upto_def comp_def)

lemma stored_upto_mono: "m \<le> n \<Longrightarrow> stored_upto w m \<le> stored_upto w n"
  by (induction n rule: dec_induct) (auto simp: stored_upto_def)

lemma stored_upto_bound: "stored_upto w n \<le> n * ncols w"
proof (induction n)
  case (Suc n)
  then show ?case using length_entries [of w n "ncols w"] by (simp add: stored_upto_def)
qed (simp add: stored_upto_def)

lemma column_small: "i < r \<Longrightarrow> j < c \<Longrightarrow> r * c < b \<Longrightarrow> j < b" for i j r c b :: nat
  using cell_bound [of i r j c] by linarith

lemma csr_row_entry_sum:
  assumes "i < nrows w" "length x = ncols w" "nrows w * ncols w < 2 ^ 32"
  shows "csr_row (from_view w) x i = Ok (entry_sum x (entries w i (ncols w)) pos_zero)"
proof -
  let ?E = "\<lambda>i. entries w i (ncols w)"
  have "stored_upto w (Suc i) \<le> nrows w * ncols w"
    using stored_upto_mono [of "Suc i" "nrows w" w] stored_upto_bound [of w "nrows w"] assms(1) by simp
  then have small: "stored_upto w i < 2 ^ 32" "stored_upto w (Suc i) < 2 ^ 32"
    using assms(3) stored_upto_mono [of i "Suc i" w] by simp_all
  have ptrs: "unat (of_nat (stored_upto w i) :: u32) = stored_upto w i"
    "unat (of_nat (stored_upto w (Suc i)) :: u32) = stored_upto w (Suc i)"
    using small by (simp_all add: unat_of_nat)
  have cols: "\<forall>(j, v)\<in>set (?E i). j < length x \<and> j < 2 ^ 32"
    using column_small [OF assms(1) _ assms(3)] assms(2) entries_bound by fastforce
  obtain A' where A': "concat (map (\<lambda>i. map snd (?E i)) [0..<nrows w])
      = concat (map (\<lambda>i. map snd (?E i)) [0..<i]) @ map snd (?E i) @ A'"
    using concat_rows_split [OF assms(1), of "\<lambda>i. map snd (?E i)"] by auto
  obtain B' where B': "concat (map (\<lambda>i. map (of_nat \<circ> fst) (?E i)) [0..<nrows w])
      = concat (map (\<lambda>i. map (of_nat \<circ> fst) (?E i)) [0..<i]) @ map (of_nat \<circ> fst) (?E i) @ (B' :: u32 list)"
    using concat_rows_split [OF assms(1), of "\<lambda>i. map (of_nat \<circ> fst) (?E i)"] by auto
  have "stored_upto w (Suc i) = stored_upto w i + length (?E i)" by (simp add: stored_upto_def)
  then show ?thesis
    unfolding csr_row_def from_view_closed
    using assms(1) ptrs A' B' csr_scan [OF cols length_concat_rows [of snd w i]
        length_concat_rows [of "of_nat \<circ> fst" w i], where A' = A' and B' = B']
    by (simp add: scanned_def Let_def nth_append del: upt_Suc)
qed

lemma fast_row_entry_sum:
  assumes "fast_row12 (from_view w)" "i < nrows w" "length x = ncols w" "nrows w * ncols w < 2 ^ 32"
    "\<forall>e\<in>set (entries w i (ncols w)). operand x e"
  shows "\<exists>v. fast_row (from_view w) x i = Ok v \<and>
             entry_sum x (entries w i (ncols w)) pos_zero = f64_add pos_zero v"
proof -
  let ?es = "entries w i (ncols w)"
  have col: "unat (of_nat j :: u32) = j" if "j < ncols w" for j
    using column_small [OF assms(2) that assms(4)] by (simp add: unat_of_nat)
  have "length ?es \<le> 2"
    using assms(1,2) by (auto simp: from_view_closed scanned_def Let_def)
  then consider "?es = []" | a where "?es = [a]" | a b where "?es = [a, b]"
    by (cases ?es rule: remdups_adj.cases) (auto simp: le_Suc_eq)
  then show ?thesis
  proof cases
    case 1
    then show ?thesis
      using assms(2) add_zero_exact [of pos_zero pos_zero]
      by (simp add: fast_row_def from_view_closed scanned_def Let_def)
  next
    case (2 a)
    then show ?thesis
      using assms(2,3) col [of "fst a"] entries_bound [of "fst a" "snd a" w i "ncols w"]
      by (cases a) (simp add: fast_row_def mul_at_def from_view_closed scanned_def Let_def nth_or_def)
  next
    case (3 a b)
    then show ?thesis
      using assms(2,3,5) col [of "fst a"] entries_bound [of "fst a" "snd a" w i "ncols w"]
        col [of "fst b"] entries_bound [of "fst b" "snd b" w i "ncols w"]
      by (cases a; cases b)
        (simp add: fast_row_def mul_at_def from_view_closed scanned_def Let_def nth_or_def
          operand_def add_pos_zero_pair)
  qed
qed

section \<open>Whole products\<close>

text \<open>A loop that writes every cell of a vector of the right length.\<close>

lemma fill_vector:
  assumes "\<And>i. i < n \<Longrightarrow> g i = Ok (h i)" "length y = n"
  shows "for_each [0..<n] (\<lambda>i y. and_then (g i) (\<lambda>s. set_at y i s)) y = Ok (map h [0..<n])"
proof -
  let ?P = "\<lambda>k y'. length y' = n \<and> take k y' = map h [0..<k]"
  have "\<exists>t. for_each [0..<n] (\<lambda>i y. and_then (g i) (\<lambda>s. set_at y i s)) y = Ok t \<and> ?P n t"
    by (rule for_each_upt) (use assms in \<open>auto simp: take_Suc_conv_app_nth\<close>)
  then show ?thesis by auto
qed

lemma all_operands:
  assumes "matrix_ok w" "vec_ok x" "list_all is_finite x" "length x = ncols w" "i < nrows w"
  shows "\<forall>e\<in>set (all_entries w i). operand x e"
  using assms cell_bound [of i "nrows w"]
  by (auto simp: all_entries_def operand_def matrix_ok_def vec_ok_def mget_def list_all_length)

lemma entries_filter:
  "entries w i (ncols w) = filter (\<lambda>(j, v). \<not> f64_eq v pos_zero) (all_entries w i)"
  by (simp add: entries_def all_entries_def)

lemma sparse_row_entry_sum:
  assumes "matrix_ok w" "vec_ok x" "list_all is_finite x" "length x = ncols w" "i < nrows w"
  shows "entry_sum x (entries w i (ncols w)) pos_zero = entry_sum x (all_entries w i) pos_zero"
  unfolding entries_filter by (rule entry_sum_skips_zeros) (use all_operands [OF assms] in simp_all)

end
