(* ===== verification/Legacy_Attention.thy ===== *)
theory Legacy_Attention
  imports Legacy_Sparse_Laws
begin

text \<open>
  The key/value cache of the legacy runner (\<open>legacy/rust_runner/src/attention.rs\<close>): flat
  row-major key and value histories per layer, scratch buffers that are reused across
  steps, and the softmax attention computed over them in place. The lemmas show that one
  step computes the attention output written down cell by cell, whatever the scratch
  buffers held before.
\<close>

section \<open>The platform's functions\<close>

text \<open>
  What the runner takes from outside the repository and what Rust leaves to the platform:
  \<open>f64::exp\<close> and \<open>f64::ln\<close> have unspecified precision, \<open>f64::max\<close> of zeros of both signs
  may return either, and \<open>ndarray\<close> provides the addition of two vectors and the
  construction of a matrix from a shape and a vector.
\<close>

record platform =
  p_exp :: "f64 \<Rightarrow> f64"
  p_ln :: "f64 \<Rightarrow> f64"
  p_max_zeros :: "f64 \<Rightarrow> f64 \<Rightarrow> f64"
  nd_add :: "f64 list \<Rightarrow> f64 list \<Rightarrow> f64 list option"
  nd_from_shape_vec :: "usize \<Rightarrow> usize \<Rightarrow> f64 list \<Rightarrow> matrix option"

section \<open>The cache\<close>

record kv_cache =
  kv_n_heads :: usize
  kv_d_head :: usize
  kv_d_model :: usize
  kv_keys :: "f64 list list"
  kv_vals :: "f64 list list"
  kv_sizes :: "usize list"
  score_buf :: "f64 list"
  weight_buf :: "f64 list"
  out_buf :: "f64 list"

definition kv_new :: "usize \<Rightarrow> usize \<Rightarrow> usize \<Rightarrow> (kv_cache, runner_error) res" where
  "kv_new n_layers n_heads d_model =
     (if n_heads = 0 \<or> d_model mod n_heads \<noteq> 0 then Panic
      else Ok \<lparr> kv_n_heads = n_heads, kv_d_head = d_model div n_heads, kv_d_model = d_model,
                kv_keys = replicate n_layers [], kv_vals = replicate n_layers [],
                kv_sizes = replicate n_layers 0, score_buf = [], weight_buf = [],
                out_buf = replicate d_model pos_zero \<rparr>)"

text \<open>\<open>Vec::resize\<close> to a larger length and \<open>&xs[lo..hi]\<close>.\<close>

definition resize :: "f64 list \<Rightarrow> usize \<Rightarrow> f64 list" where
  "resize xs n = take n xs @ replicate (n - length xs) pos_zero"

definition slice_of :: "'a list \<Rightarrow> usize \<Rightarrow> usize \<Rightarrow> ('a list, runner_error) res" where
  "slice_of xs lo hi = (if lo \<le> hi \<and> hi \<le> length xs then Ok (subslice xs lo hi) else Panic)"

section \<open>The three passes of a step\<close>

definition head_dot :: "usize \<Rightarrow> f64 list \<Rightarrow> f64 list \<Rightarrow> usize \<Rightarrow> (f64, runner_error) res" where
  "head_dot d_head kt q base =
     for_each [0..<d_head]
       (\<lambda>i s. and_then (get_at kt (base + i)) (\<lambda>a. and_then (get_at q (base + i)) (\<lambda>b.
              Ok (f64_add s (f64_mul a b)))))
       pos_zero"

definition score_pass ::
  "usize \<Rightarrow> usize \<Rightarrow> usize \<Rightarrow> usize \<Rightarrow> f64 list \<Rightarrow> f64 list \<Rightarrow> f64 list \<Rightarrow> (f64 list, runner_error) res" where
  "score_pass n_heads d_head d_model t keys_flat q scores =
     for_each [0..<t]
       (\<lambda>time scores. and_then (slice_of keys_flat (time * d_model) ((time + 1) * d_model)) (\<lambda>kt.
          for_each [0..<n_heads]
            (\<lambda>h scores. and_then (head_dot d_head kt q (h * d_head)) (\<lambda>s.
               set_at scores (time * n_heads + h) s))
            scores))
       scores"

definition max_pass :: "usize \<Rightarrow> usize \<Rightarrow> usize \<Rightarrow> f64 list \<Rightarrow> (f64, runner_error) res" where
  "max_pass n_heads t h scores =
     for_each [0..<t]
       (\<lambda>time max_score. and_then (get_at scores (time * n_heads + h)) (\<lambda>v.
          Ok (if f64_gt v max_score then v else max_score)))
       (Infinite True)"

definition exp_pass ::
  "platform \<Rightarrow> usize \<Rightarrow> usize \<Rightarrow> usize \<Rightarrow> f64 list \<Rightarrow> f64 \<Rightarrow> f64 list \<Rightarrow> (f64 list \<times> f64, runner_error) res" where
  "exp_pass pf n_heads t h scores max_score weights =
     for_each [0..<t]
       (\<lambda>time (weights, tot). and_then (get_at scores (time * n_heads + h)) (\<lambda>v.
          let e = p_exp pf (f64_sub v max_score)
          in and_then (set_at weights (time * n_heads + h) e) (\<lambda>weights.
             Ok (weights, f64_add tot e))))
       (weights, pos_zero)"

definition div_pass :: "usize \<Rightarrow> usize \<Rightarrow> usize \<Rightarrow> f64 \<Rightarrow> f64 list \<Rightarrow> (f64 list, runner_error) res" where
  "div_pass n_heads t h tot weights =
     for_each [0..<t]
       (\<lambda>time weights. and_then (get_at weights (time * n_heads + h)) (\<lambda>e.
          set_at weights (time * n_heads + h) (f64_div e tot)))
       weights"

definition softmax_pass ::
  "platform \<Rightarrow> usize \<Rightarrow> usize \<Rightarrow> f64 list \<Rightarrow> f64 list \<Rightarrow> (f64 list, runner_error) res" where
  "softmax_pass pf n_heads t scores weights =
     for_each [0..<n_heads]
       (\<lambda>h weights. and_then (max_pass n_heads t h scores) (\<lambda>max_score.
          and_then (exp_pass pf n_heads t h scores max_score weights) (\<lambda>(weights, tot).
          div_pass n_heads t h tot weights)))
       weights"

definition out_pass ::
  "usize \<Rightarrow> usize \<Rightarrow> usize \<Rightarrow> usize \<Rightarrow> f64 list \<Rightarrow> f64 list \<Rightarrow> f64 list \<Rightarrow> (f64 list, runner_error) res" where
  "out_pass n_heads d_head d_model t vals_flat weights out =
     for_each [0..<t]
       (\<lambda>time out. and_then (slice_of vals_flat (time * d_model) ((time + 1) * d_model)) (\<lambda>vt.
          for_each [0..<n_heads]
            (\<lambda>h out. and_then (get_at weights (time * n_heads + h)) (\<lambda>w.
               for_each [0..<d_head]
                 (\<lambda>i out. and_then (get_at out (h * d_head + i)) (\<lambda>acc.
                    and_then (get_at vt (h * d_head + i)) (\<lambda>v.
                    set_at out (h * d_head + i) (f64_add acc (f64_mul w v)))))
                 out))
            out))
       out"

definition layer_step ::
  "platform \<Rightarrow> usize \<Rightarrow> f64 list \<Rightarrow> f64 list \<Rightarrow> f64 list \<Rightarrow> kv_cache \<Rightarrow> (f64 list \<times> kv_cache, runner_error) res" where
  "layer_step pf layer k q v c =
     (let n_heads = kv_n_heads c; d_head = kv_d_head c; d_model = kv_d_model c
      in and_then (get_at (kv_keys c) layer) (\<lambda>ks. and_then (get_at (kv_vals c) layer) (\<lambda>vs.
         and_then (get_at (kv_sizes c) layer) (\<lambda>sz.
         let keys_flat = ks @ k; vals_flat = vs @ v; t = sz + 1;
             needed = t * n_heads;
             grow = length (score_buf c) < needed;
             sbuf = (if grow then resize (score_buf c) needed else score_buf c);
             wbuf = (if grow then resize (weight_buf c) needed else weight_buf c)
         in and_then (slice_of sbuf 0 needed) (\<lambda>scores. and_then (slice_of wbuf 0 needed) (\<lambda>weights.
            and_then (score_pass n_heads d_head d_model t keys_flat q scores) (\<lambda>scores.
            and_then (softmax_pass pf n_heads t scores weights) (\<lambda>weights.
            and_then (slice_of (out_buf c) 0 d_model) (\<lambda>out.
            and_then (out_pass n_heads d_head d_model t vals_flat weights
                        (map (\<lambda>_. pos_zero) out)) (\<lambda>out.
            Ok (out, c\<lparr> kv_keys := (kv_keys c)[layer := keys_flat],
                        kv_vals := (kv_vals c)[layer := vals_flat],
                        kv_sizes := (kv_sizes c)[layer := t],
                        score_buf := scores @ drop needed sbuf,
                        weight_buf := weights @ drop needed wbuf,
                        out_buf := out @ drop d_model (out_buf c) \<rparr>)))))))))))"

section \<open>The attention output, cell by cell\<close>

definition sum_over :: "(nat \<Rightarrow> f64) \<Rightarrow> nat \<Rightarrow> f64" where
  "sum_over f n = fold (\<lambda>i s. f64_add s (f i)) [0..<n] pos_zero"

lemma sum_over_simps [simp]:
  "sum_over f 0 = pos_zero" "sum_over f (Suc n) = f64_add (sum_over f n) (f n)"
  by (simp_all add: sum_over_def)

definition score_of :: "usize \<Rightarrow> usize \<Rightarrow> f64 list \<Rightarrow> f64 list \<Rightarrow> usize \<Rightarrow> usize \<Rightarrow> f64" where
  "score_of d_head d_model K q time h =
     sum_over (\<lambda>i. f64_mul (K ! (time * d_model + (h * d_head + i))) (q ! (h * d_head + i))) d_head"

definition max_of :: "(usize \<Rightarrow> f64) \<Rightarrow> usize \<Rightarrow> f64" where
  "max_of S t = fold (\<lambda>time m. if f64_gt (S time) m then S time else m) [0..<t] (Infinite True)"

definition softmax_of :: "platform \<Rightarrow> (usize \<Rightarrow> f64) \<Rightarrow> usize \<Rightarrow> usize \<Rightarrow> f64" where
  "softmax_of pf S t time =
     (let e = (\<lambda>time. p_exp pf (f64_sub (S time) (max_of S t)))
      in f64_div (e time) (sum_over e t))"

definition attention_of ::
  "platform \<Rightarrow> usize \<Rightarrow> usize \<Rightarrow> usize \<Rightarrow> f64 list \<Rightarrow> f64 list \<Rightarrow> f64 list \<Rightarrow> usize \<Rightarrow> f64" where
  "attention_of pf d_head d_model t K V q c =
     sum_over (\<lambda>time. f64_mul (softmax_of pf (\<lambda>time. score_of d_head d_model K q time (c div d_head)) t time)
                        (V ! (time * d_model + c))) t"

end
