(* ===== verification/Legacy_Runner.thy ===== *)
theory Legacy_Runner
  imports Weights Legacy_Attention
begin

text \<open>
  The legacy autoregressive runner (\<open>legacy/rust_runner/src\<close>): the weight-file loader of
  \<open>weights.rs\<close> with the widths of its integers, the forward step and the greedy decoding
  loop of \<open>transformer.rs\<close>, and the token-level entry point of \<open>generate.rs\<close>.
\<close>

section \<open>Loading a weight file\<close>

record runner_header =
  rh_vocab :: usize
  rh_d_model :: usize
  rh_n_layers :: usize
  rh_n_heads :: usize
  rh_d_ffn_per_layer :: "usize list"
  rh_stop_token_id :: int

record layer_weights =
  lw_in_proj :: linear
  lw_out_proj :: linear
  lw_ff_in :: linear
  lw_ff_out :: linear

record runner_weights =
  rw_header :: runner_header
  rw_tokens :: "rstring list"
  rw_tok_to_idx :: "rstring \<rightharpoonup> usize"
  rw_tok_embed :: matrix
  rw_layers :: "layer_weights list"
  rw_head :: linear

text \<open>
  The \<open>byteorder\<close> readers are parameters: each takes the unread bytes and returns the
  integer and the bytes left, or nothing at the end of the file.
\<close>

record byteorder =
  bo_i32 :: "bytes \<Rightarrow> (int \<times> bytes) option"
  bo_u32 :: "bytes \<Rightarrow> (u32 \<times> bytes) option"

type_synonym 'a file_reader = "bytes \<Rightarrow> ('a \<times> bytes, runner_error) res"

definition read_i32_le :: "byteorder \<Rightarrow> int file_reader" where
  "read_i32_le bo r = ok_or UnexpectedEof (bo_i32 bo r)"

definition read_u32_le :: "byteorder \<Rightarrow> u32 file_reader" where
  "read_u32_le bo r = ok_or UnexpectedEof (bo_u32 bo r)"

definition read_exact :: "runner_error \<Rightarrow> usize \<Rightarrow> bytes file_reader" where
  "read_exact e n r = (if length r < n then Err e else Ok (take n r, drop n r))"

text \<open>
  \<open>i32 as usize\<close> sign-extends to sixty-four bits; a product of \<open>usize\<close> wraps in a release
  build; an allocation of more than \<open>isize::MAX\<close> bytes panics.
\<close>

definition usize_of_i32 :: "int \<Rightarrow> usize" where
  "usize_of_i32 v = nat (v mod 2 ^ 64)"

definition usize_mul :: "usize \<Rightarrow> usize \<Rightarrow> usize" where
  "usize_mul a b = a * b mod 2 ^ 64"

definition usize_add :: "usize \<Rightarrow> usize \<Rightarrow> usize" where
  "usize_add a b = (a + b) mod 2 ^ 64"

definition alloc :: "usize \<Rightarrow> usize \<Rightarrow> (unit, runner_error) res" where
  "alloc sz n = (if sz * n > 2 ^ 63 - 1 then Panic else Ok ())"

fun chunks8 :: "bytes \<Rightarrow> bytes list" where
  "chunks8 (a # b # c # d # e # f # g # h # bs) = [a, b, c, d, e, f, g, h] # chunks8 bs"
| "chunks8 _ = []"

definition read_f64_array :: "platform \<Rightarrow> usize \<Rightarrow> usize \<Rightarrow> matrix file_reader" where
  "read_f64_array pf rows cols r =
     (let n = usize_mul rows cols; len = usize_mul n 8
      in and_then (alloc 1 len) (\<lambda>_.
         and_then (read_exact ReadingTensor len r) (\<lambda>(buf, r).
         and_then (alloc 8 n) (\<lambda>_.
         let data = map f64_from_le_bytes (chunks8 buf)
         in and_then (ok_or NdarrayShape (nd_from_shape_vec pf rows cols data)) (\<lambda>m. Ok (m, r))))))"

text \<open>\<open>for _ in 0..n { xs.push(read(r)?) }\<close>\<close>

fun read_times :: "'a file_reader \<Rightarrow> nat \<Rightarrow> 'a list file_reader" where
  "read_times rd 0 r = Ok ([], r)"
| "read_times rd (Suc n) r =
     and_then (rd r) (\<lambda>(x, r). and_then (read_times rd n r) (\<lambda>(xs, r). Ok (x # xs, r)))"

definition read_token :: "byteorder \<Rightarrow> rstring file_reader" where
  "read_token bo r =
     and_then (read_u32_le bo r) (\<lambda>(len, r).
     and_then (read_exact ReadingTokenBytes (unat len) r) (\<lambda>(b, r).
     if valid_utf8 b then Ok (b, r) else Err NonUtf8Token))"

definition read_usize :: "byteorder \<Rightarrow> usize file_reader" where
  "read_usize bo r = and_then (read_i32_le bo r) (\<lambda>(v, r). Ok (usize_of_i32 v, r))"

definition read_layer :: "platform \<Rightarrow> usize \<Rightarrow> usize \<Rightarrow> layer_weights file_reader" where
  "read_layer pf d_model width r =
     and_then (read_f64_array pf (usize_mul 3 d_model) d_model r) (\<lambda>(in_proj, r).
     and_then (read_f64_array pf d_model d_model r) (\<lambda>(out_proj, r).
     and_then (read_f64_array pf (usize_mul 2 width) d_model r) (\<lambda>(ff_in, r).
     and_then (read_f64_array pf d_model width r) (\<lambda>(ff_out, r).
     Ok (\<lparr> lw_in_proj = from_dense in_proj, lw_out_proj = from_dense out_proj,
          lw_ff_in = from_dense ff_in, lw_ff_out = from_dense ff_out \<rparr>, r)))))"

fun read_layers :: "platform \<Rightarrow> usize \<Rightarrow> usize list \<Rightarrow> layer_weights list file_reader" where
  "read_layers pf d_model [] r = Ok ([], r)"
| "read_layers pf d_model (width # widths) r =
     and_then (read_layer pf d_model width r) (\<lambda>(l, r).
     and_then (read_layers pf d_model widths r) (\<lambda>(ls, r). Ok (l # ls, r)))"

text \<open>The erase lists: two counted lists of integers for each layer, read and dropped.\<close>

definition skip_list :: "byteorder \<Rightarrow> unit file_reader" where
  "skip_list bo r =
     and_then (read_usize bo r) (\<lambda>(n, r). and_then (read_times (read_i32_le bo) n r) (\<lambda>(_, r). Ok ((), r)))"

definition skip_erase :: "byteorder \<Rightarrow> usize \<Rightarrow> unit file_reader" where
  "skip_erase bo n_layers r =
     (let (has_erase, r) = (case bo_i32 bo r of Some x \<Rightarrow> x | None \<Rightarrow> (0, []))
      in if has_erase \<noteq> 0 then
           and_then (read_times (\<lambda>r. and_then (skip_list bo r) (\<lambda>(_, r). skip_list bo r)) n_layers r)
             (\<lambda>(_, r). Ok ((), r))
         else Ok ((), r))"

definition index_tokens :: "rstring list \<Rightarrow> rstring \<rightharpoonup> usize" where
  "index_tokens tokens = map_of (rev (zip tokens [0..<length tokens]))"

text \<open>\<open>file\<close> is the content of the file, or nothing when it does not open.\<close>

definition load_weights :: "platform \<Rightarrow> byteorder \<Rightarrow> bytes option \<Rightarrow> (runner_weights, runner_error) res" where
  "load_weights pf bo file =
     and_then (ok_or OpenFailed file) (\<lambda>r.
     and_then (read_usize bo r) (\<lambda>(vocab, r).
     and_then (read_usize bo r) (\<lambda>(d_model, r).
     and_then (read_usize bo r) (\<lambda>(n_layers, r).
     and_then (read_usize bo r) (\<lambda>(n_heads, r).
     and_then (read_i32_le bo r) (\<lambda>(header_d_ffn, r).
     and_then (read_i32_le bo r) (\<lambda>(stop_token_id, r).
     and_then (alloc 24 vocab) (\<lambda>_.
     and_then (read_times (read_token bo) vocab r) (\<lambda>(tokens, r).
     and_then (alloc 8 n_layers) (\<lambda>_.
     and_then (if header_d_ffn < 0 then read_times (read_usize bo) n_layers r
               else Ok (replicate n_layers (usize_of_i32 header_d_ffn), r)) (\<lambda>(widths, r).
     and_then (read_f64_array pf vocab d_model r) (\<lambda>(tok_embed, r).
     and_then (read_layers pf d_model widths r) (\<lambda>(ls, r).
     and_then (read_f64_array pf vocab d_model r) (\<lambda>(head_w, r).
     and_then (skip_erase bo n_layers r) (\<lambda>_.
     Ok \<lparr> rw_header = \<lparr> rh_vocab = vocab, rh_d_model = d_model, rh_n_layers = n_layers,
                          rh_n_heads = n_heads, rh_d_ffn_per_layer = widths,
                          rh_stop_token_id = stop_token_id \<rparr>,
          rw_tokens = tokens, rw_tok_to_idx = index_tokens tokens, rw_tok_embed = tok_embed,
          rw_layers = ls, rw_head = from_dense head_w \<rparr>)))))))))))))))"

section \<open>The forward step\<close>

definition update_at :: "f64 list \<Rightarrow> usize \<Rightarrow> f64 \<Rightarrow> (f64 list, runner_error) res" where
  "update_at x i v = and_then (get_at x i) (\<lambda>a. set_at x i (f64_add a v))"

definition add_position_encoding :: "platform \<Rightarrow> f64 list \<Rightarrow> usize \<Rightarrow> (f64 list, runner_error) res" where
  "add_position_encoding pf x pos =
     (let p = f64_of_nat pos; one = f64_of_nat 1; two = f64_of_nat 2
      in and_then (update_at x 0 p) (\<lambda>x.
         and_then (update_at x 1 (f64_sub (f64_div one (p_ln pf two))
                                          (f64_div one (p_ln pf (f64_add p two))))) (\<lambda>x.
         update_at x 2 (f64_mul p p))))"

definition f64_max :: "platform \<Rightarrow> f64 \<Rightarrow> f64 \<Rightarrow> f64" where
  "f64_max pf a b =
     (if is_nan a then b else if is_nan b then a
      else if f64_gt a b then a else if f64_gt b a then b
      else if a = b then a else p_max_zeros pf a b)"

definition reglu :: "platform \<Rightarrow> usize \<Rightarrow> f64 list \<Rightarrow> f64 list \<Rightarrow> (f64 list, runner_error) res" where
  "reglu pf width gate val =
     for_each [0..<width]
       (\<lambda>i act. and_then (get_at gate i) (\<lambda>g. and_then (get_at val i) (\<lambda>v.
          set_at act i (f64_mul (f64_max pf g pos_zero) v))))
       (replicate width pos_zero)"

definition vector_add :: "platform \<Rightarrow> f64 list \<Rightarrow> f64 list \<Rightarrow> (f64 list, runner_error) res" where
  "vector_add pf a b = expect (nd_add pf a b)"

definition block_forward ::
  "platform \<Rightarrow> runner_weights \<Rightarrow> usize \<Rightarrow> layer_weights \<Rightarrow> f64 list \<times> kv_cache \<Rightarrow>
   (f64 list \<times> kv_cache, runner_error) res" where
  "block_forward pf w li layer = (\<lambda>(x, cache).
     let d_model = rh_d_model (rw_header w)
     in and_then (matvec (lw_in_proj layer) x) (\<lambda>proj.
        and_then (slice_of proj 0 d_model) (\<lambda>q.
        and_then (slice_of proj d_model (2 * d_model)) (\<lambda>k.
        and_then (slice_of proj (2 * d_model) (3 * d_model)) (\<lambda>v.
        and_then (layer_step pf li k q v cache) (\<lambda>(attn_out, cache).
        and_then (matvec (lw_out_proj layer) attn_out) (\<lambda>out_proj.
        and_then (vector_add pf x out_proj) (\<lambda>x.
        and_then (matvec (lw_ff_in layer) x) (\<lambda>ffn_proj.
        and_then (get_at (rh_d_ffn_per_layer (rw_header w)) li) (\<lambda>width.
        and_then (slice_of ffn_proj 0 width) (\<lambda>gate.
        and_then (slice_of ffn_proj width (2 * width)) (\<lambda>val.
        and_then (reglu pf width gate val) (\<lambda>act.
        and_then (matvec (lw_ff_out layer) act) (\<lambda>ff_out_vec.
        and_then (vector_add pf x ff_out_vec) (\<lambda>x.
        Ok (x, cache))))))))))))))))"

definition step :: "platform \<Rightarrow> runner_weights \<Rightarrow> kv_cache \<Rightarrow> usize \<Rightarrow> usize \<Rightarrow> (f64 list \<times> kv_cache, runner_error) res" where
  "step pf w cache token_id pos =
     and_then (if token_id < nrows (rw_tok_embed w)
               then slice_of (mdata (rw_tok_embed w)) (token_id * ncols (rw_tok_embed w))
                      ((token_id + 1) * ncols (rw_tok_embed w))
               else Panic) (\<lambda>x.
     and_then (add_position_encoding pf x pos) (\<lambda>x.
     for_each (enumerate 0 (rw_layers w)) (\<lambda>(li, layer). block_forward pf w li layer) (x, cache)))"

section \<open>Greedy decoding\<close>

definition argmax_f64 :: "f64 list \<Rightarrow> usize" where
  "argmax_f64 logits =
     fst (fold (\<lambda>(i, v) (best_idx, best). if f64_gt v best then (i, v) else (best_idx, best))
            (enumerate 0 logits) (0, Infinite True))"

definition as_i32 :: "usize \<Rightarrow> int" where
  "as_i32 n = sint (of_nat n :: 32 word)"

text \<open>One iteration: the step, and a new token once the prompt is consumed.\<close>

definition decode_at ::
  "platform \<Rightarrow> runner_weights \<Rightarrow> usize list \<Rightarrow> usize \<Rightarrow> kv_cache \<Rightarrow>
   (usize list \<times> bool \<times> kv_cache, runner_error) res" where
  "decode_at pf w idx_list pos cache =
     and_then (step pf w cache (idx_list ! pos) pos) (\<lambda>(x, cache).
     if pos + 1 = length idx_list then
       and_then (matvec (rw_head w) x) (\<lambda>logits.
       let best_idx = argmax_f64 logits
       in Ok (idx_list @ [best_idx], as_i32 best_idx = rh_stop_token_id (rw_header w), cache))
     else Ok (idx_list, False, cache))"

function greedy_loop ::
  "platform \<Rightarrow> runner_weights \<Rightarrow> usize \<Rightarrow> usize list \<Rightarrow> usize \<Rightarrow> kv_cache \<Rightarrow> (usize list, runner_error) res" where
  "greedy_loop pf w total_steps idx_list pos cache =
     (if pos < total_steps then
        if pos \<ge> length idx_list then Ok idx_list
        else and_then (decode_at pf w idx_list pos cache) (\<lambda>(idx_list, stop, cache).
             if stop then Ok idx_list
             else greedy_loop pf w total_steps idx_list (pos + 1) cache)
      else Ok idx_list)"
  by auto
termination
  by (relation "measure (\<lambda>(pf, w, total_steps, idx_list, pos, cache). total_steps - pos)") auto

declare greedy_loop.simps [simp del]

definition transformer_generate :: "platform \<Rightarrow> runner_weights \<Rightarrow> usize list \<Rightarrow> usize \<Rightarrow> (usize list, runner_error) res" where
  "transformer_generate pf w prompt max_new_tokens =
     and_then (kv_new (rh_n_layers (rw_header w)) (rh_n_heads (rw_header w)) (rh_d_model (rw_header w))) (\<lambda>cache.
     greedy_loop pf w (usize_add (length prompt) max_new_tokens) prompt 0 cache)"

text \<open>\<open>GenerateConfig\<close> and its default.\<close>

record generate_config =
  max_new_tokens :: usize

definition generate_config_default :: generate_config where
  "generate_config_default = \<lparr> max_new_tokens = 50000 \<rparr>"

fun lookup_tokens :: "runner_weights \<Rightarrow> rstring list \<Rightarrow> (usize list, runner_error) res" where
  "lookup_tokens w [] = Ok []"
| "lookup_tokens w (tok # toks) =
     and_then (ok_or (UnknownToken tok) (rw_tok_to_idx w tok)) (\<lambda>i.
     and_then (lookup_tokens w toks) (\<lambda>is. Ok (i # is)))"

fun token_strings :: "runner_weights \<Rightarrow> usize list \<Rightarrow> (rstring list, runner_error) res" where
  "token_strings w [] = Ok []"
| "token_strings w (i # is) =
     and_then (get_at (rw_tokens w) i) (\<lambda>s. and_then (token_strings w is) (\<lambda>ss. Ok (s # ss)))"

definition runner_generate ::
  "platform \<Rightarrow> runner_weights \<Rightarrow> rstring list \<Rightarrow> generate_config \<Rightarrow> (rstring list, runner_error) res" where
  "runner_generate pf w input_tokens cfg =
     and_then (lookup_tokens w input_tokens) (\<lambda>idx_seq.
     and_then (transformer_generate pf w idx_seq (max_new_tokens cfg)) (\<lambda>result_ids.
     token_strings w result_ids))"

end
