(* ===== verification/Gate_One.thy ===== *)
theory Gate_One
  imports Legacy_Runner Rust_Text Byte_Chains Record_Primitives
begin

text \<open>
  The gate-1 sweep of the legacy runner (\<open>legacy/rust_runner/src/bin/run_gate1.rs\<close>): the random
  generator, the test vectors with their expected outputs, the token encoding of a witness
  and the decoding of the model's output, and one pass through the runner (the program itself is in
  \<open>Legacy_Binaries\<close>). The lemmas relate the expected outputs to what the ternary networks
  compute.
\<close>

section \<open>The generator\<close>

record splitmix64 =
  sm_state :: u64

definition splitmix_new :: "u64 \<Rightarrow> splitmix64" where
  "splitmix_new seed = \<lparr> sm_state = seed + 0x9E3779B97F4A7C15 \<rparr>"

definition next_u64 :: "splitmix64 \<Rightarrow> u64 \<times> splitmix64" where
  "next_u64 rng =
     (let st = sm_state rng + 0x9E3779B97F4A7C15;
          z = st;
          z = (z XOR drop_bit 30 z) * 0xBF58476D1CE4E5B9;
          z = (z XOR drop_bit 27 z) * 0x94D049BB133111EB
      in (z XOR drop_bit 31 z, \<lparr> sm_state = st \<rparr>))"

definition rng_byte :: "splitmix64 \<Rightarrow> u8 \<times> splitmix64" where
  "rng_byte rng = (let (z, rng) = next_u64 rng in (ucast (z AND 0xFF), rng))"

definition rng_bit :: "splitmix64 \<Rightarrow> u8 \<times> splitmix64" where
  "rng_bit rng = (let (z, rng) = next_u64 rng in (ucast (z AND 1), rng))"

text \<open>\<open>(0..n).map(|_| rng.byte()).collect()\<close>\<close>

fun rng_bytes :: "nat \<Rightarrow> splitmix64 \<Rightarrow> bytes \<times> splitmix64" where
  "rng_bytes 0 rng = ([], rng)"
| "rng_bytes (Suc n) rng =
     (let (b, rng) = rng_byte rng; (bs, rng) = rng_bytes n rng in (b # bs, rng))"

definition seed_for :: "rstring \<Rightarrow> u64" where
  "seed_for p = fold (\<lambda>b h. (h XOR ucast b) * 1099511628211) p 1469598103934665603"

section \<open>Test vectors\<close>

definition gen_vector :: "rstring \<Rightarrow> splitmix64 \<Rightarrow> ((bytes \<times> bytes) \<times> splitmix64, runner_error) res" where
  "gen_vector prim rng =
     (if prim = ascii ''byte_add'' then
        let (a, rng) = rng_byte rng; (b, rng) = rng_byte rng; (c, rng) = rng_bit rng;
            s = unat a + unat b + unat c;
            (r, co) = (if s \<ge> 256 then (of_nat (s - 256), 1) else (of_nat s, 0))
        in Ok (([a, b, c], [r, co]), rng)
      else if prim = ascii ''byte_sub'' then
        let (m, rng) = rng_byte rng; (s, rng) = rng_byte rng; (b, rng) = rng_bit rng;
            d = int (unat m) - int (unat s) - int (unat b);
            (r, bo) = (if d < 0 then (of_int (d + 256), 1) else (of_int d, 0))
        in Ok (([m, s, b], [r, bo]), rng)
      else if prim = ascii ''transfer_check'' then
        let (from, rng) = rng_bytes 16 rng; (amt, rng) = rng_bytes 16 rng;
            f = u128_from_le from; a = u128_from_le amt
        in Ok ((from @ amt, [if f \<ge> a then 1 else 0]), rng)
      else if prim = ascii ''transfer_finalize'' then
        let (non, rng) = rng_bytes 8 rng; n = u64_from_le non
        in Ok ((non, u64_le (n + 1)), rng)
      else if prim = ascii ''mpt_emit'' \<or> prim = ascii ''mpt_emit_record'' then
        let (rec, rng) = rng_bytes 64 rng
        in Ok ((rec, rec), rng)
      else if prim = ascii ''freeze_chain'' then
        let (flg, rng) = rng_bit rng; (acc, rng) = rng_bytes 64 rng; b47 = acc ! 47
        in Ok ((flg # acc, [if flg = 1 then (b47 AND 0x7F) OR 0x80 else b47 AND 0x7F]), rng)
      else Panic)"

section \<open>Tokens\<close>

text \<open>A byte as the tokenizer spells it: printable characters themselves, else two hex digits.\<close>

definition byte_token :: "u8 \<Rightarrow> rstring" where
  "byte_token b =
     (if 0x20 < b \<and> b < 0x7F \<and> b \<noteq> 0x7B \<and> b \<noteq> 0x7D then [b] else hex_str [b])"

definition commit_token :: rstring where
  "commit_token = ascii ''commit(+0,sts=0,bt=0)''"

definition render_spec :: "bytes \<Rightarrow> rstring list" where
  "render_spec witness = [ascii ''start''] @ map byte_token witness @ [ascii ''00'', commit_token]"

text \<open>\<open>b.to_string()\<close>\<close>

definition decimal :: "u8 \<Rightarrow> rstring" where
  "decimal b =
     (let n = unat b
      in (if n \<ge> 100 then [of_nat (48 + n div 100)] else []) @
         (if n \<ge> 10 then [of_nat (48 + n div 10 mod 10)] else []) @ [of_nat (48 + n mod 10)])"

definition render_decimal_spec :: "bytes \<Rightarrow> rstring list" where
  "render_decimal_spec witness =
     [ascii ''start''] @ map byte_token (join_spaces (map decimal witness) @ [0]) @ [commit_token]"

text \<open>\<open>u8::from_str_radix(s, 16)\<close> on two bytes: two digits, or a plus sign and a digit.\<close>

definition radix16 :: "u8 \<Rightarrow> u8 \<Rightarrow> u8 option" where
  "radix16 a b =
     (if a = 43 then map_option of_nat (hex_value b)
      else case (hex_value a, hex_value b) of
             (Some x, Some y) \<Rightarrow> Some (of_nat (16 * x + y)) | _ \<Rightarrow> None)"

definition out_byte :: "rstring \<Rightarrow> bytes" where
  "out_byte t =
     (case Option.bind (strip_prefix (ascii ''out('') t) (strip_suffix 41) of
        Some [c] \<Rightarrow> [c]
      | Some [a, b] \<Rightarrow> (case radix16 a b of Some v \<Rightarrow> [v] | None \<Rightarrow> [])
      | _ \<Rightarrow> [])"

definition parse_out_bytes :: "rstring list \<Rightarrow> bytes" where
  "parse_out_bytes tokens = concat (map out_byte tokens)"

definition run_one_pass :: "platform \<Rightarrow> runner_weights \<Rightarrow> bytes \<Rightarrow> usize \<Rightarrow> (bytes, runner_error) res" where
  "run_one_pass pf w witness max_new =
     and_then (runner_generate pf w (render_spec witness) \<lparr> max_new_tokens = max_new \<rparr>) (\<lambda>predicted.
     Ok (parse_out_bytes predicted))"

definition gate_max_new :: "rstring \<Rightarrow> usize" where
  "gate_max_new prim =
     (if prim \<in> {ascii ''mpt_emit'', ascii ''mpt_emit_record''} then 10000
      else if prim \<in> {ascii ''freeze_chain'', ascii ''freeze_setup'', ascii ''freeze_apply''} then 50000
      else 5000)"

section \<open>What the ternary networks answer\<close>

text \<open>The replacement of each primitive, run on the bytes of a gate-1 witness.\<close>

definition ternary_answer :: "xof \<Rightarrow> rstring \<Rightarrow> bytes \<Rightarrow> (bytes, ternary_error) res" where
  "ternary_answer xof prim w =
     (if prim = ascii ''byte_add'' then
        and_then (byte_add_build xof) (\<lambda>net.
        and_then (byte_add_run net (w ! 0) (w ! 1) (w ! 2)) (\<lambda>(r, c). Ok [r, c]))
      else if prim = ascii ''byte_sub'' then
        and_then (byte_sub_build xof) (\<lambda>net.
        and_then (byte_sub_run net (w ! 0) (w ! 1) (w ! 2)) (\<lambda>(r, b). Ok [r, b]))
      else if prim = ascii ''transfer_check'' then
        and_then (byte_sub_build xof) (\<lambda>net.
        and_then (transfer_check_run net (take 16 w) (drop 16 w)) (\<lambda>k. Ok [k]))
      else if prim = ascii ''transfer_finalize'' then
        and_then (byte_add_build xof) (\<lambda>net. transfer_finalize_run net w)
      else if prim = ascii ''mpt_emit'' then
        and_then (mpt_emit_build xof) (\<lambda>net. mpt_emit_run net w)
      else
        and_then (freeze_setup_build xof) (\<lambda>setup. and_then (freeze_apply_build xof) (\<lambda>app.
        and_then (freeze_setup_run setup w) (\<lambda>(flag, b47).
        and_then (freeze_apply_run app flag b47) (\<lambda>b. Ok [b])))))"

lemma rng_bit_bound: "fst (rng_bit rng) \<le> 1"
proof -
  obtain z rng' where z: "next_u64 rng = (z, rng')" by (cases "next_u64 rng")
  have "z AND 1 = of_bool (odd z)" by (simp add: and_one_eq mod_2_eq_odd)
  then show ?thesis by (cases "odd z") (simp_all add: rng_bit_def z)
qed

lemma length_rng_bytes [simp]: "length (fst (rng_bytes n rng)) = n"
  by (induction n arbitrary: rng) (simp_all add: Let_def split_def)

section \<open>Agreement, primitive by primitive\<close>

lemma add_vector:
  fixes a b c :: u8
  assumes "c \<le> 1"
  shows "(if 256 \<le> unat a + unat b + unat c then (of_nat (unat a + unat b + unat c - 256), 1)
          else (of_nat (unat a + unat b + unat c), 0)) =
    (of_nat ((unat a + unat b + unat c) mod 256) :: u8, of_nat ((unat a + unat b + unat c) div 256) :: u8)"
proof -
  let ?s = "unat a + unat b + unat c"
  have "?s < 512" using assms unat_u8_le [of a] unat_u8_le [of b] by (simp add: word_le_nat_alt)
  then have "?s mod 256 = (if 256 \<le> ?s then ?s - 256 else ?s)" "?s div 256 = (if 256 \<le> ?s then 1 else 0)"
    by (simp_all add: mod_if div_nat_eqI)
  then show ?thesis by simp
qed

lemma sub_vector:
  fixes m s b :: u8
  assumes "b \<le> 1"
  defines "d \<equiv> int (unat m) - int (unat s) - int (unat b)"
  shows "(if d < 0 then (of_int (d + 256) :: u8, 1 :: u8) else (of_int d, 0)) =
    (of_nat ((256 + unat m - unat s - unat b) mod 256), if unat m < unat s + unat b then 1 else 0)"
proof -
  let ?n = "256 + unat m - unat s - unat b"
  have b: "unat b \<le> 1" using assms(1) by (simp add: word_le_nat_alt)
  have n: "int ?n = d + 256" using b unat_u8_le [of s] by (simp add: d_def)
  have lt: "d < 0 \<longleftrightarrow> unat m < unat s + unat b" unfolding d_def by linarith
  have "of_nat (?n mod 256) = (of_nat ?n :: u8)"
    by (rule word_unat_eq_iff [THEN iffD2]) (simp only: unat_of_nat_8 mod_mod_trivial)
  also have "\<dots> = of_int (d + 256)" by (simp only: n [symmetric] of_int_of_nat_eq)
  finally have "of_nat (?n mod 256) = (of_int (d + 256) :: u8)" .
  moreover have "(of_int (d + 256) :: u8) = of_int d" by simp
  ultimately show ?thesis using lt by simp
qed

lemma finalize_vector:
  assumes "length b = 8"
  shows "u64_le (u64_from_le b + 1) = le_bytes 8 (Suc (le_nat b))"
proof (rule le_nat_inject [THEN iffD1])
  have "unat (u64_from_le b + 1) = Suc (le_nat b) mod 2 ^ 64"
    using unat_from_le(2) [OF assms] by (simp add: unat_word_ariths)
  then show "le_nat (u64_le (u64_from_le b + 1)) = le_nat (le_bytes 8 (Suc (le_nat b)))"
    by (simp add: u64_le_def le_nat_le_bytes)
qed simp

lemma freeze_vector:
  fixes f b :: u8
  assumes "f \<le> 1"
  shows "(if f = 1 then (b AND 0x7F) OR 0x80 else b AND 0x7F) = of_nat (unat b mod 128 + 128 * unat f)"
proof (cases "f = 1")
  case True
  have "unat ((b AND 127) OR 128) = unat b mod 128 + 128" by (simp only: set_top low7 mod_mod_trivial)
  moreover have "unat (of_nat (unat b mod 128 + 128) :: u8) = unat b mod 128 + 128"
    using mod_less_divisor [of 128 "unat b"] by (intro unat_of_nat_less) simp
  ultimately show ?thesis using True by (simp add: word_unat_eq_iff del: of_nat_add)
next
  case False
  then have "f = 0" using assms by (auto simp: word_le_nat_alt word_unat_eq_iff le_Suc_eq)
  moreover have "unat b mod 128 < 256" by (rule less_trans [of _ 128]) simp_all
  ultimately show ?thesis using low7 [of b] by (simp add: word_unat_eq_iff unat_of_nat)
qed

definition gate_primitives :: "rstring set" where
  "gate_primitives = {ascii ''byte_add'', ascii ''byte_sub'', ascii ''transfer_check'',
     ascii ''transfer_finalize'', ascii ''mpt_emit'', ascii ''freeze_chain''}"

lemma gate_names [simp]:
  "ascii ''byte_sub'' \<noteq> ascii ''byte_add''"
  "ascii ''transfer_check'' \<noteq> ascii ''byte_add''" "ascii ''transfer_check'' \<noteq> ascii ''byte_sub''"
  "ascii ''transfer_finalize'' \<noteq> ascii ''byte_add''" "ascii ''transfer_finalize'' \<noteq> ascii ''byte_sub''"
  "ascii ''transfer_finalize'' \<noteq> ascii ''transfer_check''"
  "ascii ''mpt_emit'' \<noteq> ascii ''byte_add''" "ascii ''mpt_emit'' \<noteq> ascii ''byte_sub''"
  "ascii ''mpt_emit'' \<noteq> ascii ''transfer_check''" "ascii ''mpt_emit'' \<noteq> ascii ''transfer_finalize''"
  "ascii ''freeze_chain'' \<noteq> ascii ''byte_add''" "ascii ''freeze_chain'' \<noteq> ascii ''byte_sub''"
  "ascii ''freeze_chain'' \<noteq> ascii ''transfer_check''" "ascii ''freeze_chain'' \<noteq> ascii ''transfer_finalize''"
  "ascii ''freeze_chain'' \<noteq> ascii ''mpt_emit''" "ascii ''freeze_chain'' \<noteq> ascii ''mpt_emit_record''"
  by (simp_all add: ascii_def)

text \<open>For every primitive of the sweep and every state of the generator, the expected output
  of the generated test vector is what the ternary network that replaces the primitive
  computes on the vector's witness.\<close>

lemma vector_agrees:
  assumes "prim \<in> gate_primitives"
  shows "\<exists>w out rng'. gen_vector prim rng = Ok ((w, out), rng') \<and> ternary_answer xof prim w = Ok out"
proof -
  let ?goal = "\<lambda>p. \<exists>w out rng'. gen_vector p rng = Ok ((w, out), rng') \<and> ternary_answer xof p w = Ok out"
  have "?goal (ascii ''byte_add'')"
    using add_vector [OF rng_bit_bound]
    by (auto simp: gen_vector_def ternary_answer_def Let_def split_def byte_add_run_value rng_bit_bound)
  moreover have "?goal (ascii ''byte_sub'')"
  proof -
    obtain m r1 where m: "rng_byte rng = (m, r1)" by (cases "rng_byte rng")
    obtain s r2 where s: "rng_byte r1 = (s, r2)" by (cases "rng_byte r1")
    obtain b r3 where b: "rng_bit r2 = (b, r3)" by (cases "rng_bit r2")
    have le: "b \<le> 1" using rng_bit_bound [of r2] b by simp
    have "gen_vector (ascii ''byte_sub'') rng = Ok (([m, s, b], [of_nat ((256 + unat m - unat s - unat b) mod 256),
        if unat m < unat s + unat b then 1 else 0]), r3)"
      unfolding gen_vector_def Let_def m s b case_prod_conv sub_vector [OF le] by simp
    then show ?thesis by (simp add: ternary_answer_def byte_sub_run_value le)
  qed
  moreover have "?goal (ascii ''transfer_check'')"
    by (auto simp: gen_vector_def ternary_answer_def Let_def split_def transfer_check_value
        word_le_nat_alt unat_from_le)
  moreover have "?goal (ascii ''transfer_finalize'')"
    by (auto simp: gen_vector_def ternary_answer_def Let_def split_def transfer_finalize_value finalize_vector)
  moreover have "?goal (ascii ''mpt_emit'')"
    by (auto simp: gen_vector_def ternary_answer_def Let_def split_def mpt_emit_run_value)
  moreover have "?goal (ascii ''freeze_chain'')"
    by (auto simp: gen_vector_def ternary_answer_def Let_def split_def freeze_setup_run_value
        freeze_apply_run_value rng_bit_bound freeze_vector)
  ultimately show ?thesis using assms by (auto simp: gate_primitives_def)
qed

section \<open>The output tokens\<close>

text \<open>The decoder reads back the spelling the tokenizer uses for a byte.\<close>

lemma hex_digit_not_plus: "n < 16 \<Longrightarrow> hex_digit n \<noteq> 43"
  by (auto simp: word_unat_eq_iff unat_hex_digit)

lemma radix16_hex:
  "radix16 (hex_digit (unat b div 16)) (hex_digit (unat b mod 16)) = Some b" for b :: u8
proof -
  have "unat b div 16 < 16" using unat_u8_less [of b] by (simp add: div_less_iff_less_mult)
  then have "radix16 (hex_digit (unat b div 16)) (hex_digit (unat b mod 16)) = Some (of_nat (16 * (unat b div 16) + unat b mod 16))"
    by (simp add: radix16_def hex_digit_not_plus hex_value_digit del: mult_div_mod_eq)
  then show ?thesis by (simp only: mult_div_mod_eq word_unat_eq_iff option.inject) (simp add: word_unat_eq_iff)
qed

lemma out_byte_token: "out_byte (ascii ''out('' @ byte_token b @ [41]) = [b]"
proof -
  have "length (ascii ''out('') = 4" by simp
  then have strip: "strip_prefix (ascii ''out('') (ascii ''out('' @ t) = Some t" for t
    by (simp add: strip_prefix_def)
  have "strip_suffix 41 (t @ [41]) = Some t" for t by (simp add: strip_suffix_def)
  then show ?thesis
    by (simp add: out_byte_def strip byte_token_def hex_str_def radix16_hex)
qed

lemma parse_rendered: "parse_out_bytes (map (\<lambda>b. ascii ''out('' @ byte_token b @ [41]) bs) = bs"
  by (induction bs) (simp_all add: parse_out_bytes_def out_byte_token)

end
