(* ===== verification/Legacy_Attention_Laws.thy ===== *)
theory Legacy_Attention_Laws
  imports Legacy_Attention
begin

text \<open>
  The in-place loops of the attention step. \<open>updates A g s t\<close> says that \<open>t\<close> is \<open>s\<close> with
  every cell \<open>c\<close> of \<open>A\<close> replaced by \<open>g c (s ! c)\<close>; loops over disjoint sets of cells
  compose, so each pass is described by the function it applies to each cell.
\<close>

section \<open>Pointwise updates\<close>

definition updates :: "nat set \<Rightarrow> (nat \<Rightarrow> 'a \<Rightarrow> 'a) \<Rightarrow> 'a list \<Rightarrow> 'a list \<Rightarrow> bool" where
  "updates A g s t \<longleftrightarrow>
     length t = length s \<and> (\<forall>c < length s. t ! c = (if c \<in> A then g c (s ! c) else s ! c))"

lemma updates_length: "updates A g s t \<Longrightarrow> length t = length s"
  by (simp add: updates_def)

lemma updates_empty [simp]: "updates {} g s s"
  by (simp add: updates_def)

lemma updates_cell: "v = g c (s ! c) \<Longrightarrow> updates {c} g s (s[c := v])"
  by (auto simp: updates_def nth_list_update)

lemma updates_trans:
  "updates A g s t \<Longrightarrow> updates B g t u \<Longrightarrow> A \<inter> B = {} \<Longrightarrow> updates (A \<union> B) g s u"
  by (auto simp: updates_def)

lemma updates_all: "updates {0..<length s} g s t \<Longrightarrow> t = map (\<lambda>c. g c (s ! c)) [0..<length s]"
  by (auto simp: updates_def intro: nth_equalityI)

lemma updates_whole:
  assumes "\<exists>t. X = Ok t \<and> updates {0..<n} g s t" "length s = n"
  shows "X = Ok (map (\<lambda>c. g c (s ! c)) [0..<n])"
proof -
  obtain t where "X = Ok t" "updates {0..<length s} g s t" using assms by auto
  then show ?thesis using updates_all assms(2) by blast
qed

text \<open>A second pass over the same cells.\<close>

lemma updates_comp:
  "updates A g s t \<Longrightarrow> updates A h t u \<Longrightarrow> updates A (\<lambda>c v. h c (g c v)) s u"
  by (auto simp: updates_def)

lemma for_each_updates:
  assumes "\<And>i s. i < n \<Longrightarrow> length s = L \<Longrightarrow> \<exists>t. f i s = Ok t \<and> updates (A i) g s t"
    and "\<And>i j. i < j \<Longrightarrow> j < n \<Longrightarrow> A i \<inter> A j = {}"
    and "length s = L"
  shows "\<exists>t. for_each [0..<n] f s = Ok t \<and> updates (\<Union>i<n. A i) g s t"
proof -
  let ?P = "\<lambda>k t. updates (\<Union>i<k. A i) g s t"
  have step: "\<exists>u. f k t = Ok u \<and> ?P (Suc k) u" if k: "k < n" "?P k t" for k t
  proof -
    obtain u where u: "f k t = Ok u" "updates (A k) g t u"
      using assms(1) [of k t] k assms(3) updates_length by metis
    have "A i \<inter> A k = {}" if "i < k" for i using assms(2) [OF that k(1)] .
    then have "(\<Union>i<k. A i) \<inter> A k = {}" by (auto simp: disjoint_iff)
    then have "updates ((\<Union>i<k. A i) \<union> A k) g s u" by (rule updates_trans [OF k(2) u(2)])
    moreover have "(\<Union>i<k. A i) \<union> A k = (\<Union>i<Suc k. A i)" by (auto simp: less_Suc_eq)
    ultimately show ?thesis using u(1) by auto
  qed
  show ?thesis by (rule for_each_upt [where P = ?P]) (use step in auto)
qed

section \<open>Cells of a grid\<close>

lemma grid_inject:
  fixes t t' h h' n :: nat
  assumes "h < n" "h' < n"
  shows "t * n + h = t' * n + h' \<longleftrightarrow> t = t' \<and> h = h'"
proof
  assume eq: "t * n + h = t' * n + h'"
  have "(t * n + h) div n = t" "(t' * n + h') div n = t'"
    using assms by simp_all
  with eq show "t = t' \<and> h = h'" by simp
qed simp

lemma grid_row: "(\<Union>h<n. {t * n + h}) = {t * n..<(t + 1) * n}" for t n :: nat
proof -
  have "(+) (t * n) ` {..<n} = {t * n..<(t + 1) * n}"
    by (simp add: lessThan_atLeast0 algebra_simps)
  then show ?thesis by (simp add: UNION_singleton_eq_range)
qed

lemma grid_rows: "(\<Union>t<m. {t * n..<(t + 1) * n}) = {0..<m * n}" for m n :: nat
proof (induction m)
  case (Suc m)
  have "(\<Union>t<Suc m. {t * n..<(t + 1) * n}) = (\<Union>t<m. {t * n..<(t + 1) * n}) \<union> {m * n..<(m + 1) * n}"
    by (auto simp: less_Suc_eq)
  then show ?case using Suc by (auto simp: ivl_disj_un)
qed simp

lemma grid_rows_disjoint: "i < j \<Longrightarrow> {i * n..<(i + 1) * n} \<inter> {j * n..<(j + 1) * n} = {}" for i j n :: nat
proof -
  assume "i < j"
  then have "(i + 1) * n \<le> j * n" by (intro mult_le_mono1) simp
  then show ?thesis by auto
qed

lemma fill_grid:
  assumes "\<And>time h s. time < t \<Longrightarrow> h < n \<Longrightarrow> length s = t * n \<Longrightarrow>
             \<exists>u. f time h s = Ok u \<and> updates {time * n + h} g s u"
    and "length s = t * n"
  shows "\<exists>u. for_each [0..<t] (\<lambda>time. for_each [0..<n] (f time)) s = Ok u \<and> updates {0..<t * n} g s u"
proof -
  have "\<exists>u. for_each [0..<n] (f time) s' = Ok u \<and> updates {time * n..<(time + 1) * n} g s' u"
    if "time < t" "length s' = t * n" for time s'
    unfolding grid_row [symmetric]
    by (rule for_each_updates) (use assms(1) that in auto)
  then have "\<exists>u. for_each [0..<t] (\<lambda>time. for_each [0..<n] (f time)) s = Ok u \<and>
      updates (\<Union>time<t. {time * n..<(time + 1) * n}) g s u"
    by (rule for_each_updates) (use assms(2) grid_rows_disjoint in blast)+
  then show ?thesis by (simp only: grid_rows)
qed

section \<open>The passes\<close>

lemma nth_subslice: "lo + i < hi \<Longrightarrow> hi \<le> length xs \<Longrightarrow> subslice xs lo hi ! i = xs ! (lo + i)"
  by (simp add: subslice_def)

lemma row_slice:
  assumes "length K = t * m" "time < t"
  shows "slice_of K (time * m) ((time + 1) * m) = Ok (subslice K (time * m) ((time + 1) * m))"
    and "length (subslice K (time * m) ((time + 1) * m)) = m"
    and "c < m \<Longrightarrow> subslice K (time * m) ((time + 1) * m) ! c = K ! (time * m + c)"
proof -
  have "(time + 1) * m \<le> t * m" using assms(2) by (intro mult_le_mono1) simp
  then show "slice_of K (time * m) ((time + 1) * m) = Ok (subslice K (time * m) ((time + 1) * m))"
    "length (subslice K (time * m) ((time + 1) * m)) = m"
    "c < m \<Longrightarrow> subslice K (time * m) ((time + 1) * m) ! c = K ! (time * m + c)"
    using assms(1) by (simp_all add: slice_of_def nth_subslice)
qed

lemma head_dot_sum:
  assumes "h < n" "length kt = n * d" "length q = n * d"
  shows "head_dot d kt q (h * d) = Ok (sum_over (\<lambda>i. f64_mul (kt ! (h * d + i)) (q ! (h * d + i))) d)"
proof -
  have "\<exists>s. head_dot d kt q (h * d) = Ok s \<and>
      s = sum_over (\<lambda>i. f64_mul (kt ! (h * d + i)) (q ! (h * d + i))) d"
    unfolding head_dot_def
    by (rule for_each_upt [where P = "\<lambda>k s. s = sum_over (\<lambda>i. f64_mul (kt ! (h * d + i)) (q ! (h * d + i))) k"])
      (use assms cell_bound [of h n _ d] in auto)
  then show ?thesis by simp
qed

lemma score_pass_spec:
  assumes "m = n * d" "length K = t * m" "length q = m" "length buf = t * n"
  shows "\<exists>u. score_pass n d m t K q buf = Ok u \<and>
             updates {0..<t * n} (\<lambda>c _. score_of d m K q (c div n) (c mod n)) buf u"
proof -
  let ?g = "\<lambda>c _. score_of d m K q (c div n) (c mod n)"
  let ?f = "\<lambda>time h scores. and_then (head_dot d (subslice K (time * m) ((time + 1) * m)) q (h * d))
               (\<lambda>s. set_at scores (time * n + h) s)"
  have cell: "\<exists>u. ?f time h s = Ok u \<and> updates {time * n + h} ?g s u"
    if "time < t" "h < n" "length s = t * n" for time h and s :: "f64 list"
  proof -
    note kt = row_slice [OF assms(2) that(1)]
    have "f64_mul (subslice K (time * m) ((time + 1) * m) ! (h * d + i)) (q ! (h * d + i))
        = f64_mul (K ! (time * m + (h * d + i))) (q ! (h * d + i))" if "i < d" for i
      using kt(3) [of "h * d + i"] cell_bound [OF \<open>h < n\<close> that] assms(1) by simp
    then have "sum_over (\<lambda>i. f64_mul (subslice K (time * m) ((time + 1) * m) ! (h * d + i)) (q ! (h * d + i))) d
        = score_of d m K q time h"
      unfolding score_of_def sum_over_def by (intro fold_cong) auto
    then have dot: "head_dot d (subslice K (time * m) ((time + 1) * m)) q (h * d) = Ok (score_of d m K q time h)"
      using head_dot_sum [OF that(2), of "subslice K (time * m) ((time + 1) * m)" d q] kt(2) assms(1,3)
      by simp
    have "updates {time * n + h} ?g s (s[time * n + h := score_of d m K q time h])"
      by (rule updates_cell) (use that in simp)
    then show ?thesis
      using dot that(3) cell_bound [OF that(1,2)] by auto
  qed
  have "score_pass n d m t K q buf = for_each [0..<t] (\<lambda>time. for_each [0..<n] (?f time)) buf"
    unfolding score_pass_def by (rule for_each_cong) (simp_all add: row_slice(1) [OF assms(2), simplified])
  then show ?thesis using fill_grid [OF cell assms(4)] by simp
qed

text \<open>The passes of the softmax touch the column of one head.\<close>

definition column :: "usize \<Rightarrow> usize \<Rightarrow> usize \<Rightarrow> nat set" where
  "column n t h = (\<Union>time<t. {time * n + h})"

lemma max_pass_spec:
  assumes "h < n" "length sc = t * n" "\<And>time. time < t \<Longrightarrow> sc ! (time * n + h) = S time"
  shows "max_pass n t h sc = Ok (max_of S t)"
proof -
  have "\<exists>m. max_pass n t h sc = Ok m \<and> m = max_of S t"
    unfolding max_pass_def
    by (rule for_each_upt [where P = "\<lambda>k m. m = max_of S k"])
      (use assms cell_bound [of _ t h n] in \<open>auto simp: max_of_def\<close>)
  then show ?thesis by simp
qed

lemma exp_pass_spec:
  fixes pf :: platform and mx :: f64 and S :: "usize \<Rightarrow> f64" and n t h :: usize
  assumes "h < n" "length sc = t * n" "length w = t * n" "\<And>time. time < t \<Longrightarrow> sc ! (time * n + h) = S time"
  defines "e \<equiv> \<lambda>time. p_exp pf (f64_sub (S time) mx)"
  shows "\<exists>u. exp_pass pf n t h sc mx w = Ok (u, sum_over e t) \<and>
             updates (column n t h) (\<lambda>c _. e (c div n)) w u"
proof -
  let ?P = "\<lambda>k (u, s). s = sum_over e k \<and> updates (column n k h) (\<lambda>c _. e (c div n)) w u"
  have step: "\<exists>r. (\<lambda>(weights, tot). and_then (get_at sc (k * n + h)) (\<lambda>v.
          let e = p_exp pf (f64_sub v mx)
          in and_then (set_at weights (k * n + h) e) (\<lambda>weights. Ok (weights, f64_add tot e)))) p = Ok r
        \<and> ?P (Suc k) r" if k: "k < t" "?P k p" for k p
  proof -
    obtain u where p: "p = (u, sum_over e k)" and u: "updates (column n k h) (\<lambda>c _. e (c div n)) w u"
      using k(2) by (cases p) auto
    have lt: "k * n + h < t * n" using cell_bound [OF k(1) assms(1)] .
    have len: "length u = t * n" using u assms(3) updates_length by metis
    have "updates {k * n + h} (\<lambda>c _. e (c div n)) u (u[k * n + h := e k])"
      by (rule updates_cell) (use assms(1) in simp)
    moreover have "column n k h \<inter> {k * n + h} = {}"
      using assms(1) by (auto simp: column_def)
    ultimately have "updates (column n k h \<union> {k * n + h}) (\<lambda>c _. e (c div n)) w (u[k * n + h := e k])"
      using updates_trans [OF u] by blast
    moreover have "column n k h \<union> {k * n + h} = column n (Suc k) h"
      by (auto simp: column_def less_Suc_eq)
    ultimately show ?thesis
      using p lt len assms(2,4) k(1) by (simp add: Let_def e_def)
  qed
  have "\<exists>r. exp_pass pf n t h sc mx w = Ok r \<and> ?P t r"
    unfolding exp_pass_def by (rule for_each_upt [where P = ?P]) (use step in \<open>auto simp: column_def\<close>)
  then show ?thesis by auto
qed

lemma div_pass_spec:
  assumes "h < n" "length w = t * n"
  shows "\<exists>u. div_pass n t h tot w = Ok u \<and> updates (column n t h) (\<lambda>_ v. f64_div v tot) w u"
  unfolding div_pass_def column_def
proof (rule for_each_updates)
  fix time and s :: "f64 list"
  assume "time < t" "length s = t * n"
  then show "\<exists>u. and_then (get_at s (time * n + h)) (\<lambda>e. set_at s (time * n + h) (f64_div e tot)) = Ok u \<and>
      updates {time * n + h} (\<lambda>_ v. f64_div v tot) s u"
    using cell_bound [of time t h n] assms(1) by (auto intro!: updates_cell)
qed (use assms in auto)

lemma columns_disjoint: "h < n \<Longrightarrow> h' < n \<Longrightarrow> h \<noteq> h' \<Longrightarrow> column n t h \<inter> column n t h' = {}"
  by (auto simp: column_def grid_inject)

lemma columns_cover: "(\<Union>h<n. column n t h) = {0..<t * n}"
proof -
  have "(\<Union>h<n. column n t h) = (\<Union>time<t. \<Union>h<n. {time * n + h})"
    unfolding column_def by blast
  then show ?thesis by (simp only: grid_row grid_rows)
qed

lemma softmax_pass_spec:
  assumes "length sc = t * n" "length w = t * n" "sc = map (\<lambda>c. S (c div n) (c mod n)) [0..<t * n]"
  shows "\<exists>u. softmax_pass pf n t sc w = Ok u \<and>
             updates {0..<t * n} (\<lambda>c _. softmax_of pf (\<lambda>time. S time (c mod n)) t (c div n)) w u"
  unfolding softmax_pass_def columns_cover [symmetric]
proof (rule for_each_updates)
  let ?g = "\<lambda>c _. softmax_of pf (\<lambda>time. S time (c mod n)) t (c div n)"
  fix h and s :: "f64 list"
  assume h: "h < n" and len: "length s = t * n"
  have sc: "sc ! (time * n + h) = S time h" if "time < t" for time
    using cell_bound [OF that h] assms(3) h by simp
  let ?mx = "max_of (\<lambda>time. S time h) t"
  let ?e = "\<lambda>time. p_exp pf (f64_sub (S time h) ?mx)"
  obtain u where u: "exp_pass pf n t h sc ?mx s = Ok (u, sum_over ?e t)"
    "updates (column n t h) (\<lambda>c _. ?e (c div n)) s u"
    using exp_pass_spec [where mx = ?mx, OF h assms(1) len sc] by blast
  obtain v where v: "div_pass n t h (sum_over ?e t) u = Ok v"
    "updates (column n t h) (\<lambda>_ x. f64_div x (sum_over ?e t)) u v"
    using div_pass_spec [OF h] updates_length [OF u(2)] len by metis
  have "updates (column n t h) (\<lambda>c _. f64_div (?e (c div n)) (sum_over ?e t)) s v"
    using updates_comp [OF u(2) v(2)] .
  moreover have "c \<in> column n t h \<Longrightarrow> f64_div (?e (c div n)) (sum_over ?e t) = ?g c x" for c x
    using h by (auto simp: column_def softmax_of_def Let_def)
  ultimately have "updates (column n t h) ?g s v"
    by (simp add: updates_def)
  then show "\<exists>v. and_then (max_pass n t h sc) (\<lambda>max_score.
          and_then (exp_pass pf n t h sc max_score s) (\<lambda>(weights, tot). div_pass n t h tot weights)) = Ok v
        \<and> updates (column n t h) ?g s v"
    using max_pass_spec [OF h assms(1) sc] u(1) v(1) by auto
qed (use assms columns_disjoint in auto)

lemma out_row_spec:
  assumes "m = n * d" "length out = m" "length vt = m" "length w = t * n" "time < t"
  shows "for_each [0..<n]
            (\<lambda>h out. and_then (get_at w (time * n + h)) (\<lambda>x.
               for_each [0..<d]
                 (\<lambda>i out. and_then (get_at out (h * d + i)) (\<lambda>acc.
                    and_then (get_at vt (h * d + i)) (\<lambda>v.
                    set_at out (h * d + i) (f64_add acc (f64_mul x v)))))
                 out)) out
       = (Ok (map (\<lambda>c. f64_add (out ! c) (f64_mul (w ! (time * n + c div d)) (vt ! c))) [0..<m])
          :: (f64 list, runner_error) res)"
    (is "for_each _ ?row _ = _")
proof -
  let ?g = "\<lambda>c v. f64_add v (f64_mul (w ! (time * n + c div d)) (vt ! c))"
  let ?f = "\<lambda>h i out. and_then (get_at out (h * d + i)) (\<lambda>acc. and_then (get_at vt (h * d + i)) (\<lambda>v.
              set_at out (h * d + i) (f64_add acc (f64_mul (w ! (time * n + h)) v))))
              :: (f64 list, runner_error) res"
  have cell: "\<exists>u. ?f h i s = Ok u \<and> updates {h * d + i} ?g s u"
    if "h < n" "i < d" "length s = n * d" for h i and s :: "f64 list"
    using that assms(1,3) cell_bound [OF that(1,2)] by (auto intro!: updates_cell)
  have "for_each [0..<n] ?row out = for_each [0..<n] (\<lambda>h. for_each [0..<d] (?f h)) out"
    by (rule for_each_cong) (use assms(4,5) cell_bound [of time t _ n] in auto)
  moreover obtain u where u: "for_each [0..<n] (\<lambda>h. for_each [0..<d] (?f h)) out = Ok u"
    "updates {0..<n * d} ?g out u"
    using fill_grid [OF cell, where s = out] assms(1,2) by auto
  moreover have "u = map (\<lambda>c. ?g c (out ! c)) [0..<m]"
    using updates_all [of out ?g u] u(2) assms(1,2) by simp
  ultimately show ?thesis by simp
qed

lemma out_pass_spec:
  assumes "m = n * d" "length V = t * m" "length w = t * n" "out = map (\<lambda>_. pos_zero) [0..<m]"
  shows "out_pass n d m t V w out =
           Ok (map (\<lambda>c. sum_over (\<lambda>time. f64_mul (w ! (time * n + c div d)) (V ! (time * m + c))) t) [0..<m])"
proof -
  let ?P = "\<lambda>k u. u = map (\<lambda>c. sum_over (\<lambda>time. f64_mul (w ! (time * n + c div d)) (V ! (time * m + c))) k) [0..<m]"
  have "\<exists>u. out_pass n d m t V w out = Ok u \<and> ?P t u"
    unfolding out_pass_def
  proof (rule for_each_upt [where P = ?P], goal_cases)
    case (1 time u)
    note vt = row_slice [OF assms(2) 1(1)]
    have "length u = m" using 1(2) by simp
    note row = out_row_spec [OF assms(1) this vt(2) assms(3) 1(1)]
    show ?case
      unfolding vt(1) and_then.simps row using 1(2) vt(3) by auto
  qed (use assms(4) in simp)
  then show ?thesis by simp
qed

section \<open>One attention step\<close>

text \<open>
  The shape of a cache: heads divide the model width, every layer's history is as long as
  its size says, and the scratch buffers have equal lengths.
\<close>

definition kv_ok :: "usize \<Rightarrow> kv_cache \<Rightarrow> bool" where
  "kv_ok n_layers c \<longleftrightarrow>
     0 < kv_n_heads c \<and> kv_d_model c = kv_n_heads c * kv_d_head c \<and>
     length (kv_keys c) = n_layers \<and> length (kv_vals c) = n_layers \<and> length (kv_sizes c) = n_layers \<and>
     (\<forall>l < n_layers. length (kv_keys c ! l) = kv_sizes c ! l * kv_d_model c \<and>
                     length (kv_vals c ! l) = kv_sizes c ! l * kv_d_model c) \<and>
     length (score_buf c) = length (weight_buf c) \<and> length (out_buf c) = kv_d_model c"

lemma kv_new_ok:
  "0 < h \<Longrightarrow> d mod h = 0 \<Longrightarrow>
   \<exists>c. kv_new n h d = Ok c \<and> kv_ok n c \<and> kv_d_model c = d"
  by (auto simp: kv_new_def kv_ok_def)

lemma slice_from_start: "n \<le> length xs \<Longrightarrow> slice_of xs 0 n = Ok (take n xs)"
  by (simp add: slice_of_def subslice_def)

lemma grown_length: "length (if length a < n then resize b n else b) = (if length a < n then n else length b)"
  by (auto simp: resize_def)

lemma attention_cells:
  assumes "m = n * d" "length V = t * m" "length zs = m"
  shows "out_pass n d m t V
      (map (\<lambda>c. softmax_of pf (\<lambda>time. score_of d m K q time (c mod n)) t (c div n)) [0..<t * n])
      (map (\<lambda>_. pos_zero) zs) = Ok (map (attention_of pf d m t K V q) [0..<m])"
proof -
  let ?w = "map (\<lambda>c. softmax_of pf (\<lambda>time. score_of d m K q time (c mod n)) t (c div n)) [0..<t * n]"
  have "?w ! (time * n + i div d) = softmax_of pf (\<lambda>time. score_of d m K q time (i div d)) t time"
    if "i < m" "time < t" for i time
  proof -
    have "i div d < n" using that(1) assms(1) by (simp add: less_mult_imp_div_less)
    then show ?thesis using cell_bound [OF that(2), of "i div d" n] by simp
  qed
  then have "sum_over (\<lambda>time. f64_mul (?w ! (time * n + i div d)) (V ! (time * m + i))) t
      = attention_of pf d m t K V q i" if "i < m" for i
    unfolding attention_of_def sum_over_def using that by (intro fold_cong) auto
  moreover have "map (\<lambda>_. pos_zero) zs = map (\<lambda>_. pos_zero) [0..<m]"
    using assms(3) by (intro nth_equalityI) auto
  ultimately show ?thesis
    using out_pass_spec [OF assms(1,2), of ?w] by simp
qed

lemma layer_step_spec:
  assumes "kv_ok n_layers c" "layer < n_layers"
    "length k = kv_d_model c" "length q = kv_d_model c" "length v = kv_d_model c"
  defines "t \<equiv> kv_sizes c ! layer + 1"
    and "K \<equiv> kv_keys c ! layer @ k" and "V \<equiv> kv_vals c ! layer @ v"
  shows "\<exists>c'. layer_step pf layer k q v c
            = Ok (map (attention_of pf (kv_d_head c) (kv_d_model c) t K V q) [0..<kv_d_model c], c') \<and>
          kv_ok n_layers c' \<and> kv_d_model c' = kv_d_model c \<and>
          kv_keys c' = (kv_keys c)[layer := K] \<and> kv_vals c' = (kv_vals c)[layer := V] \<and>
          kv_sizes c' = (kv_sizes c)[layer := t]"
proof -
  let ?n = "kv_n_heads c" and ?d = "kv_d_head c" and ?m = "kv_d_model c"
  let ?S = "\<lambda>time h. score_of ?d ?m K q time h"
  define sbuf where "sbuf = (if length (score_buf c) < t * ?n then resize (score_buf c) (t * ?n) else score_buf c)"
  define wbuf where "wbuf = (if length (score_buf c) < t * ?n then resize (weight_buf c) (t * ?n) else weight_buf c)"
  have m: "?m = ?n * ?d" and n: "0 < ?n" and lens: "length K = t * ?m" "length V = t * ?m"
    and out: "length (out_buf c) = ?m"
    using assms by (auto simp: kv_ok_def algebra_simps)
  have same: "length sbuf = length wbuf" "t * ?n \<le> length sbuf"
    using assms(1) unfolding sbuf_def wbuf_def grown_length by (auto simp: kv_ok_def)
  let ?sc = "map (\<lambda>c. ?S (c div ?n) (c mod ?n)) [0..<t * ?n]"
  let ?w = "map (\<lambda>c. softmax_of pf (\<lambda>time. ?S time (c mod ?n)) t (c div ?n)) [0..<t * ?n]"
  have len_s: "length (take (t * ?n) sbuf) = t * ?n" and len_w: "length (take (t * ?n) wbuf) = t * ?n"
    using same by simp_all
  have sc: "score_pass ?n ?d ?m t K q (take (t * ?n) sbuf) = Ok ?sc"
    by (rule updates_whole [OF score_pass_spec [OF m lens(1) assms(4) len_s] len_s])
  have w: "softmax_pass pf ?n t ?sc (take (t * ?n) wbuf) = Ok ?w"
    by (rule updates_whole [OF softmax_pass_spec len_w]) (use len_w in simp_all)
  have o: "out_pass ?n ?d ?m t V ?w (map (\<lambda>_. pos_zero) (take ?m (out_buf c)))
      = Ok (map (attention_of pf ?d ?m t K V q) [0..<?m])"
    by (rule attention_cells [OF m lens(2)]) (simp add: out)
  have lt: "layer < length (kv_keys c)" "layer < length (kv_vals c)" "layer < length (kv_sizes c)"
    using assms(1,2) by (simp_all add: kv_ok_def)
  have bufs: "t * ?n \<le> length sbuf" "t * ?n \<le> length wbuf" "?m \<le> length (out_buf c)"
    using same out by simp_all
  let ?c = "c\<lparr> kv_keys := (kv_keys c)[layer := K], kv_vals := (kv_vals c)[layer := V],
              kv_sizes := (kv_sizes c)[layer := t], score_buf := ?sc @ drop (t * ?n) sbuf,
              weight_buf := ?w @ drop (t * ?n) wbuf,
              out_buf := map (attention_of pf ?d ?m t K V q) [0..<?m] @ drop ?m (out_buf c) \<rparr>"
  have "layer_step pf layer k q v c = Ok (map (attention_of pf ?d ?m t K V q) [0..<?m], ?c)"
    unfolding layer_step_def Let_def
    by (simp only: get_at_ok [OF lt(1)] get_at_ok [OF lt(2)] get_at_ok [OF lt(3)] and_then.simps
        K_def [symmetric] V_def [symmetric] t_def [symmetric] sbuf_def [symmetric] wbuf_def [symmetric]
        slice_from_start [OF bufs(1)] slice_from_start [OF bufs(2)] slice_from_start [OF bufs(3)] sc w o)
  moreover have "kv_ok n_layers ?c"
    using assms(1) lt lens same(1) out by (auto simp: kv_ok_def nth_list_update)
  ultimately show ?thesis by auto
qed

section \<open>The cache as the forward pass sees it\<close>

text \<open>
  What the transformer relies on: a fresh cache fits its model, and a step on vectors of the
  model width returns one and leaves a cache that fits.
\<close>

locale attention_cache =
  fixes new :: "usize \<Rightarrow> usize \<Rightarrow> usize \<Rightarrow> ('c, 'e) res"
    and attend :: "usize \<Rightarrow> f64 list \<Rightarrow> f64 list \<Rightarrow> f64 list \<Rightarrow> 'c \<Rightarrow> (f64 list \<times> 'c, 'e) res"
    and fits :: "usize \<Rightarrow> usize \<Rightarrow> 'c \<Rightarrow> bool"
  assumes new_fits: "0 < h \<Longrightarrow> d mod h = 0 \<Longrightarrow> \<exists>c. new n h d = Ok c \<and> fits n d c"
    and attend_fits: "fits n d c \<Longrightarrow> l < n \<Longrightarrow> length k = d \<Longrightarrow> length q = d \<Longrightarrow> length v = d \<Longrightarrow>
      \<exists>a c'. attend l k q v c = Ok (a, c') \<and> length a = d \<and> fits n d c'"
begin

lemma attend_returns:
  assumes "fits n d c" "l < n" "length k = d" "length q = d" "length v = d"
  obtains a c' where "attend l k q v c = Ok (a, c')" "length a = d" "fits n d c'"
  using attend_fits [OF assms] by blast

text \<open>Any sequence of steps on a fresh cache returns.\<close>

lemma steps_return:
  assumes "0 < h" "d mod h = 0" "\<forall>(l, k, q, v)\<in>set xs. l < n \<and> length k = d \<and> length q = d \<and> length v = d"
  shows "\<exists>c. and_then (new n h d)
      (for_each xs (\<lambda>(l, k, q, v) c. and_then (attend l k q v c) (\<lambda>(_, c'). Ok c'))) = Ok c \<and> fits n d c"
proof -
  obtain c where c: "new n h d = Ok c" "fits n d c" using new_fits [OF assms(1,2)] by blast
  have "\<exists>c'. for_each xs (\<lambda>(l, k, q, v) c. and_then (attend l k q v c) (\<lambda>(_, c'). Ok c')) c = Ok c' \<and> fits n d c'"
    using c(2) assms(3)
  proof (induction xs arbitrary: c)
    case (Cons x xs)
    obtain l k q v where x: "x = (l, k, q, v)" by (cases x)
    have "l < n" "length k = d" "length q = d" "length v = d" using Cons.prems(2) x by auto
    then obtain a c' where "attend l k q v c = Ok (a, c')" "fits n d c'"
      using attend_returns [OF Cons.prems(1)] by metis
    then show ?case using Cons.IH Cons.prems(2) x by simp
  qed simp
  then show ?thesis using c(1) by simp
qed

end

interpretation kv: attention_cache kv_new "layer_step pf" "\<lambda>n d c. kv_ok n c \<and> kv_d_model c = d" for pf
proof unfold_locales
  show "\<exists>c. kv_new n h d = Ok c \<and> kv_ok n c \<and> kv_d_model c = d" if "0 < h" "d mod h = 0" for h d n
    using kv_new_ok that .
next
  fix n d l :: usize and c and k q v :: "f64 list"
  assume "kv_ok n c \<and> kv_d_model c = d" "l < n" "length k = d" "length q = d" "length v = d"
  then show "\<exists>a c'. layer_step pf l k q v c = Ok (a, c') \<and> length a = d \<and> kv_ok n c' \<and> kv_d_model c' = d"
    using layer_step_spec [of n c l k q v pf] by auto
qed

end
