(* ===== verification/Legacy_Runner_Laws.thy ===== *)
theory Legacy_Runner_Laws
  imports Legacy_Runner Legacy_Attention_Laws
begin

text \<open>
  What the runner relies on of \<open>ndarray\<close>, the shape of a loaded model, and the lemmas that a
  shaped model runs: every step of the forward pass returns vectors of the model width, and
  the decoding loop returns.
\<close>

section \<open>What is required of the array library\<close>

text \<open>
  The sum of two vectors of one length is elementwise; a matrix is made only from as many
  numbers as its shape holds, and no axis exceeds \<open>isize::MAX\<close>.
\<close>

definition ndarray_ok :: "platform \<Rightarrow> bool" where
  "ndarray_ok pf \<longleftrightarrow>
     (\<forall>a b. length a = length b \<longrightarrow> nd_add pf a b = Some (map2 f64_add a b)) \<and>
     (\<forall>r c d m. nd_from_shape_vec pf r c d = Some m \<longrightarrow>
        m = \<lparr> nrows = r, ncols = c, mdata = d \<rparr> \<and> length d = r * c \<and> r < 2 ^ 63 \<and> c < 2 ^ 63)"

text \<open>\<open>byteorder\<close> reads four bytes, least significant first, or fails with fewer left.\<close>

definition byteorder_ok :: "byteorder \<Rightarrow> bool" where
  "byteorder_ok bo \<longleftrightarrow>
     (\<forall>r. bo_i32 bo r = (if length r < 4 then None
                        else Some (sint (of_nat (le_nat (take 4 r)) :: u32), drop 4 r))) \<and>
     (\<forall>r. bo_u32 bo r = (if length r < 4 then None
                        else Some (of_nat (le_nat (take 4 r)), drop 4 r)))"

section \<open>Shapes\<close>

definition linear_ok :: "usize \<Rightarrow> usize \<Rightarrow> linear \<Rightarrow> bool" where
  "linear_ok r c l \<longleftrightarrow> (\<exists>m. l = Dense m \<and> matrix_ok m \<and> nrows m = r \<and> ncols m = c)"

definition layer_ok :: "usize \<Rightarrow> usize \<Rightarrow> layer_weights \<Rightarrow> bool" where
  "layer_ok d width l \<longleftrightarrow>
     linear_ok (3 * d) d (lw_in_proj l) \<and> linear_ok d d (lw_out_proj l) \<and>
     linear_ok (2 * width) d (lw_ff_in l) \<and> linear_ok d width (lw_ff_out l)"

definition weights_ok :: "runner_weights \<Rightarrow> bool" where
  "weights_ok w \<longleftrightarrow>
     (let h = rw_header w
      in length (rw_tokens w) = rh_vocab h \<and> rw_tok_to_idx w = index_tokens (rw_tokens w) \<and>
         linear_ok (rh_vocab h) (rh_d_model h) (Dense (rw_tok_embed w)) \<and>
         linear_ok (rh_vocab h) (rh_d_model h) (rw_head w) \<and>
         length (rh_d_ffn_per_layer h) = rh_n_layers h \<and> length (rw_layers w) = rh_n_layers h \<and>
         list_all2 (layer_ok (rh_d_model h)) (rh_d_ffn_per_layer h) (rw_layers w))"

lemma index_tokens_bound: "index_tokens toks s = Some i \<Longrightarrow> i < length toks \<and> toks ! i = s"
  unfolding index_tokens_def
  by (drule map_of_SomeD) (auto simp: set_zip)

section \<open>The loader builds shaped models\<close>

lemma usize_of_i32_low: "usize_of_i32 v < 2 ^ 64"
  by (simp add: usize_of_i32_def nat_less_iff)

lemma read_f64_array_shape:
  assumes "ndarray_ok pf" "read_f64_array pf r c b = Ok (m, b')"
  shows "matrix_ok m \<and> nrows m = r \<and> ncols m = c \<and> r < 2 ^ 63 \<and> c < 2 ^ 63"
proof -
  obtain buf where "nd_from_shape_vec pf r c (map f64_from_le_bytes (chunks8 buf)) = Some m"
    using assms(2) by (auto simp: read_f64_array_def Let_def and_then_Ok_iff split: prod.splits)
  then have "m = \<lparr> nrows = r, ncols = c, mdata = map f64_from_le_bytes (chunks8 buf) \<rparr> \<and>
      length (map f64_from_le_bytes (chunks8 buf)) = r * c \<and> r < 2 ^ 63 \<and> c < 2 ^ 63"
    using assms(1) unfolding ndarray_ok_def by blast
  then show ?thesis by (simp add: matrix_ok_def vec_ok_def list_all_iff)
qed

lemma usize_mul_exact: "a * b < 2 ^ 64 \<Longrightarrow> usize_mul a b = a * b"
  by (simp add: usize_mul_def)

lemma read_layer_shape:
  assumes "ndarray_ok pf" "read_layer pf d width b = Ok (l, b')" "d < 2 ^ 62" "width < 2 ^ 64"
  shows "layer_ok d width l"
proof -
  obtain i ou f g b1 b2 b3 where rd:
    "read_f64_array pf (usize_mul 3 d) d b = Ok (i, b1)" "read_f64_array pf d d b1 = Ok (ou, b2)"
    "read_f64_array pf (usize_mul 2 width) d b2 = Ok (f, b3)" "read_f64_array pf d width b3 = Ok (g, b')"
    and l: "l = \<lparr> lw_in_proj = from_dense i, lw_out_proj = from_dense ou,
                  lw_ff_in = from_dense f, lw_ff_out = from_dense g \<rparr>"
    using assms(2) by (auto simp: read_layer_def and_then_Ok_iff split: prod.splits)
  note shapes = rd [THEN read_f64_array_shape [OF assms(1)]]
  have "usize_mul 3 d = 3 * d" "usize_mul 2 width = 2 * width"
    using assms(3) shapes(4) by (auto intro!: usize_mul_exact)
  then show ?thesis
    using shapes l by (simp add: layer_ok_def linear_ok_def from_dense_def)
qed

lemma read_layers_shape:
  assumes "ndarray_ok pf" "d < 2 ^ 62"
  shows "read_layers pf d widths b = Ok (ls, b') \<Longrightarrow> \<forall>x\<in>set widths. x < 2 ^ 64 \<Longrightarrow>
         list_all2 (layer_ok d) widths ls"
proof (induction widths arbitrary: b ls)
  case (Cons x xs)
  then show ?case
    using read_layer_shape [OF assms(1) _ assms(2)]
    by (fastforce simp: and_then_Ok_iff split: prod.splits)
qed simp

lemma read_times_length: "read_times rd n b = Ok (xs, b') \<Longrightarrow> length xs = n"
  by (induction n arbitrary: b xs) (auto simp: and_then_Ok_iff split: prod.splits)

lemma read_times_all:
  "(\<And>b x b'. rd b = Ok (x, b') \<Longrightarrow> P x) \<Longrightarrow> read_times rd n b = Ok (xs, b') \<Longrightarrow> \<forall>x\<in>set xs. P x"
  by (induction n arbitrary: b xs) (fastforce simp: and_then_Ok_iff split: prod.splits)+

lemma read_usize_bound: "read_usize bo b = Ok (x, b') \<Longrightarrow> x < 2 ^ 64"
  using usize_of_i32_low by (auto simp: read_usize_def and_then_Ok_iff split: prod.splits)

text \<open>A count that fits \<open>isize\<close> was not negative in the file, so it is below \<open>2 ^ 31\<close>.\<close>

lemma read_usize_small:
  assumes "byteorder_ok bo" "read_usize bo b = Ok (x, b')" "x < 2 ^ 63"
  shows "x < 2 ^ 31"
proof -
  obtain v :: u32 where v: "x = usize_of_i32 (sint v)"
    using assms(1,2)
    by (auto simp: read_usize_def read_i32_le_def byteorder_ok_def and_then_Ok_iff split: prod.splits if_splits)
  have range: "- (2 ^ 31) \<le> sint v" "sint v < 2 ^ 31"
    using sint_range_size [of v] by (simp_all add: word_size)
  show ?thesis
  proof (cases "0 \<le> sint v")
    case True
    then show ?thesis using v range by (simp add: usize_of_i32_def nat_less_iff)
  next
    case False
    then have "(sint v + 2 ^ 64) mod 2 ^ 64 = sint v + 2 ^ 64"
      using range by (intro mod_pos_pos_trivial) auto
    then have "sint v mod 2 ^ 64 = sint v + 2 ^ 64" by simp
    then show ?thesis using assms(3) v range by (simp add: usize_of_i32_def nat_less_iff)
  qed
qed

section \<open>A shaped model runs\<close>

lemma matvec_shape:
  assumes "linear_ok r c l" "length x = c"
  shows "\<exists>y. matvec l x = Ok y \<and> length y = r"
proof -
  obtain m where m: "l = Dense m" "matrix_ok m" "nrows m = r" "ncols m = c"
    using assms(1) by (auto simp: linear_ok_def)
  have "matvec l x = Ok (map (\<lambda>i. entry_sum x (all_entries m i) pos_zero) [0..<r])"
    using m assms(2) by (auto intro!: fill_vector dense_row_entry_sum)
  then show ?thesis by simp
qed

lemma slice_shape: "lo \<le> hi \<Longrightarrow> hi \<le> length xs \<Longrightarrow> \<exists>y. slice_of xs lo hi = Ok y \<and> length y = hi - lo"
  by (simp add: slice_of_def)

lemma vector_add_shape:
  assumes "ndarray_ok pf" "length a = n" "length b = n"
  shows "\<exists>y. vector_add pf a b = Ok y \<and> length y = n"
  using assms by (simp add: vector_add_def ndarray_ok_def)

lemma reglu_shape:
  assumes "length gate = width" "length val = width"
  shows "\<exists>y. reglu pf width gate val = Ok y \<and> length y = width"
  unfolding reglu_def
  by (rule for_each_upt [where P = "\<lambda>_ a. length a = width"]) (use assms in auto)

lemma update_at_shape: "i < length x \<Longrightarrow> \<exists>y. update_at x i v = Ok y \<and> length y = length x"
  by (simp add: update_at_def)

lemma add_position_encoding_shape:
  assumes "3 \<le> length x"
  shows "\<exists>y. add_position_encoding pf x pos = Ok y \<and> length y = length x"
proof -
  let ?u = "f64_sub (f64_div (f64_of_nat 1) (p_ln pf (f64_of_nat 2)))
    (f64_div (f64_of_nat 1) (p_ln pf (f64_add (f64_of_nat pos) (f64_of_nat 2))))"
  obtain a where a: "update_at x 0 (f64_of_nat pos) = Ok a" "length a = length x"
    using update_at_shape [of 0 x "f64_of_nat pos"] assms by fastforce
  obtain b where b: "update_at a 1 ?u = Ok b" "length b = length x"
    using update_at_shape [of 1 a ?u] a assms by auto
  obtain c where "update_at b 2 (f64_mul (f64_of_nat pos) (f64_of_nat pos)) = Ok c" "length c = length x"
    using update_at_shape [of 2 b] b assms by auto
  then show ?thesis using a b by (simp add: add_position_encoding_def Let_def)
qed

definition cache_fits :: "runner_weights \<Rightarrow> kv_cache \<Rightarrow> bool" where
  "cache_fits w c \<longleftrightarrow> kv_ok (rh_n_layers (rw_header w)) c \<and> kv_d_model c = rh_d_model (rw_header w)"

lemma block_forward_shape:
  assumes "ndarray_ok pf" "weights_ok w" "li < rh_n_layers (rw_header w)"
    "length x = rh_d_model (rw_header w)" "cache_fits w c"
  shows "\<exists>x' c'. block_forward pf w li (rw_layers w ! li) (x, c) = Ok (x', c') \<and>
                 length x' = rh_d_model (rw_header w) \<and> cache_fits w c'"
proof -
  let ?d = "rh_d_model (rw_header w)" and ?l = "rw_layers w ! li"
  let ?width = "rh_d_ffn_per_layer (rw_header w) ! li"
  have lt: "li < length (rh_d_ffn_per_layer (rw_header w))" and ok: "layer_ok ?d ?width ?l"
    using assms(2,3) by (auto simp: weights_ok_def Let_def dest: list_all2_nthD)
  note shape = ok [unfolded layer_ok_def]
  obtain proj where proj: "matvec (lw_in_proj ?l) x = Ok proj" "length proj = 3 * ?d"
    using matvec_shape [of "3 * ?d" ?d] shape assms(4) by blast
  obtain q where q: "slice_of proj 0 ?d = Ok q" "length q = ?d"
    using slice_shape [of 0 ?d proj] proj by auto
  obtain k where k: "slice_of proj ?d (2 * ?d) = Ok k" "length k = ?d"
    using slice_shape [of ?d "2 * ?d" proj] proj by auto
  obtain v where v: "slice_of proj (2 * ?d) (3 * ?d) = Ok v" "length v = ?d"
    using slice_shape [of "2 * ?d" "3 * ?d" proj] proj by auto
  have fit: "kv_ok (rh_n_layers (rw_header w)) c" "kv_d_model c = ?d"
    using assms(5) by (simp_all add: cache_fits_def)
  obtain a c' where a: "layer_step pf li k q v c = Ok (a, c')" "length a = ?d" "cache_fits w c'"
    using kv.attend_returns [OF conjI [OF fit] assms(3) k(2) q(2) v(2), of pf] by (auto simp: cache_fits_def)
  obtain o1 where o1: "matvec (lw_out_proj ?l) a = Ok o1" "length o1 = ?d"
    using matvec_shape [of ?d ?d] shape a(2) by blast
  obtain x1 where x1: "vector_add pf x o1 = Ok x1" "length x1 = ?d"
    using vector_add_shape [OF assms(1,4) o1(2)] by blast
  obtain f where f: "matvec (lw_ff_in ?l) x1 = Ok f" "length f = 2 * ?width"
    using matvec_shape [of "2 * ?width" ?d] shape x1(2) by blast
  obtain g where g: "slice_of f 0 ?width = Ok g" "length g = ?width"
    using slice_shape [of 0 ?width f] f by auto
  obtain u where u: "slice_of f ?width (2 * ?width) = Ok u" "length u = ?width"
    using slice_shape [of ?width "2 * ?width" f] f by auto
  obtain act where act: "reglu pf ?width g u = Ok act" "length act = ?width"
    using reglu_shape [OF g(2) u(2)] by blast
  obtain o2 where o2: "matvec (lw_ff_out ?l) act = Ok o2" "length o2 = ?d"
    using matvec_shape [of ?d ?width] shape act(2) by blast
  obtain x2 where "vector_add pf x1 o2 = Ok x2" "length x2 = ?d"
    using vector_add_shape [OF assms(1) x1(2) o2(2)] by blast
  then have "block_forward pf w li ?l (x, c) = Ok (x2, c')" "length x2 = ?d"
    unfolding block_forward_def Let_def case_prod_conv
    by (simp_all only: proj(1) q(1) k(1) v(1) a(1) o1(1) x1(1) f(1) g(1) u(1) act(1) o2(1)
        get_at_ok [OF lt] and_then.simps case_prod_conv)
  then show ?thesis using a(3) by blast
qed

lemma step_shape:
  assumes "ndarray_ok pf" "weights_ok w" "3 \<le> rh_d_model (rw_header w)"
    "tok < rh_vocab (rw_header w)" "cache_fits w c"
  shows "\<exists>x c'. step pf w c tok pos = Ok (x, c') \<and> length x = rh_d_model (rw_header w) \<and> cache_fits w c'"
proof -
  let ?d = "rh_d_model (rw_header w)" and ?m = "rw_tok_embed w"
  have emb: "nrows ?m = rh_vocab (rw_header w)" "ncols ?m = ?d" "length (mdata ?m) = nrows ?m * ?d"
    using assms(2) by (auto simp: weights_ok_def linear_ok_def matrix_ok_def Let_def)
  have slice: "slice_of (mdata ?m) (tok * ncols ?m) ((tok + 1) * ncols ?m) =
      Ok (subslice (mdata ?m) (tok * ?d) ((tok + 1) * ?d))"
    "length (subslice (mdata ?m) (tok * ?d) ((tok + 1) * ?d)) = ?d"
    using row_slice(1,2) [OF emb(3), of tok] emb(1,2) assms(4) by simp_all
  obtain y where y: "add_position_encoding pf (subslice (mdata ?m) (tok * ?d) ((tok + 1) * ?d)) pos = Ok y"
    "length y = ?d"
    using add_position_encoding_shape [of "subslice (mdata ?m) (tok * ?d) ((tok + 1) * ?d)"] slice(2) assms(3)
    by auto
  have layers: "enumerate 0 (rw_layers w) = map (\<lambda>i. (i, rw_layers w ! i)) [0..<rh_n_layers (rw_header w)]"
    using assms(2) by (auto simp: weights_ok_def Let_def enumerate_eq_zip intro!: nth_equalityI)
  let ?P = "\<lambda>_ (x, c). length x = ?d \<and> cache_fits w c"
  have "\<exists>r. for_each [0..<rh_n_layers (rw_header w)] (\<lambda>i. block_forward pf w i (rw_layers w ! i)) (y, c) = Ok r
      \<and> ?P (rh_n_layers (rw_header w)) r"
    by (rule for_each_upt [where P = ?P])
      (use block_forward_shape [OF assms(1,2)] y(2) assms(5) in \<open>auto split: prod.splits\<close>)
  then show ?thesis
    using emb(1) assms(4) slice(1) y(1)
    by (auto simp: step_def layers for_each_map simp del: mult_Suc)
qed

section \<open>The decoding loop\<close>

lemma argmax_f64_bound: "logits \<noteq> [] \<Longrightarrow> argmax_f64 logits < length logits"
proof -
  assume ne: "logits \<noteq> []"
  have bound: "fst (fold (\<lambda>(i, v) (b, m). if f64_gt v m then (i, v) else (b, m)) xs (b, m)) < n"
    if "b < n" "\<forall>(i, v)\<in>set xs. i < n" for xs n b and m :: f64
    using that by (induction xs arbitrary: b m) auto
  show ?thesis
    unfolding argmax_f64_def by (rule bound) (use ne in \<open>auto simp: in_set_enumerate_eq\<close>)
qed

definition is_stop :: "runner_weights \<Rightarrow> usize \<Rightarrow> bool" where
  "is_stop w t \<longleftrightarrow> as_i32 t = rh_stop_token_id (rw_header w)"

definition runnable :: "platform \<Rightarrow> runner_weights \<Rightarrow> bool" where
  "runnable pf w \<longleftrightarrow>
     ndarray_ok pf \<and> weights_ok w \<and> 3 \<le> rh_d_model (rw_header w) \<and> 0 < rh_n_heads (rw_header w) \<and>
     rh_d_model (rw_header w) mod rh_n_heads (rw_header w) = 0 \<and> 0 < rh_vocab (rw_header w)"

lemma decode_at_shape:
  assumes "runnable pf w" "pos < length idx" "\<forall>t\<in>set idx. t < rh_vocab (rw_header w)" "cache_fits w c"
  shows "\<exists>c'. cache_fits w c' \<and>
     (if pos + 1 = length idx
      then \<exists>t < rh_vocab (rw_header w). decode_at pf w idx pos c = Ok (idx @ [t], is_stop w t, c')
      else decode_at pf w idx pos c = Ok (idx, False, c'))"
proof -
  obtain x c' where x: "step pf w c (idx ! pos) pos = Ok (x, c')" "length x = rh_d_model (rw_header w)"
    "cache_fits w c'"
    using step_shape [of pf w "idx ! pos" c pos] assms by (auto simp: runnable_def)
  obtain y where y: "matvec (rw_head w) x = Ok y" "length y = rh_vocab (rw_header w)"
    using matvec_shape [of "rh_vocab (rw_header w)" _ "rw_head w" x] x(2) assms(1)
    by (auto simp: runnable_def weights_ok_def Let_def)
  have "argmax_f64 y < rh_vocab (rw_header w)"
    using argmax_f64_bound [of y] y(2) assms(1) by (cases "y = []") (auto simp: runnable_def)
  then show ?thesis
    using x y(1) by (auto simp: decode_at_def Let_def is_stop_def)
qed

text \<open>
  The loop starts inside its list, at the last token unless the list is still the prompt,
  and ends at a stop token or one past the step bound.
\<close>

lemma greedy_loop_returns:
  assumes "runnable pf w" "pos < length idx" "pos \<le> steps"
    "length idx \<le> steps \<or> pos + 1 = length idx" "\<forall>t\<in>set idx. t < rh_vocab (rw_header w)" "cache_fits w c"
  shows "\<exists>out. greedy_loop pf w steps idx pos c = Ok (idx @ out) \<and> length idx + length out \<le> steps + 1 \<and>
     (\<forall>t\<in>set out. t < rh_vocab (rw_header w)) \<and> (\<forall>t\<in>set (butlast out). \<not> is_stop w t) \<and>
     (length idx + length out = steps + 1 \<or> out \<noteq> [] \<and> is_stop w (last out))"
  using assms(2-6)
proof (induction "steps - pos" arbitrary: pos idx c)
  case 0
  then show ?case by (auto simp: greedy_loop.simps intro!: exI [of _ "[]"])
next
  case (Suc n)
  then have lt: "pos < steps" "n = steps - (pos + 1)" by simp_all
  obtain c' where c': "cache_fits w c'" and at: "if pos + 1 = length idx
      then \<exists>t < rh_vocab (rw_header w). decode_at pf w idx pos c = Ok (idx @ [t], is_stop w t, c')
      else decode_at pf w idx pos c = Ok (idx, False, c')"
    using decode_at_shape [OF assms(1) Suc.prems(1,4,5)] by blast
  note loop = greedy_loop.simps [of pf w steps idx pos c]
  show ?case
  proof (cases "pos + 1 = length idx")
    case True
    then obtain t where t: "t < rh_vocab (rw_header w)" "decode_at pf w idx pos c = Ok (idx @ [t], is_stop w t, c')"
      using at by auto
    show ?thesis
    proof (cases "is_stop w t")
      case True
      then show ?thesis
        using loop lt t Suc.prems by (auto intro!: exI [of _ "[t]"])
    next
      case False
      obtain out where out: "greedy_loop pf w steps (idx @ [t]) (pos + 1) c' = Ok ((idx @ [t]) @ out)"
        "length (idx @ [t]) + length out \<le> steps + 1" "\<forall>t\<in>set out. t < rh_vocab (rw_header w)"
        "\<forall>t\<in>set (butlast out). \<not> is_stop w t"
        "length (idx @ [t]) + length out = steps + 1 \<or> out \<noteq> [] \<and> is_stop w (last out)"
        using Suc.hyps(1) [OF lt(2), of "idx @ [t]" c'] Suc.prems lt(1) t(1) c' True by auto
      then show ?thesis
        using loop lt t False Suc.prems(1) by (intro exI [of _ "t # out"]) auto
    qed
  next
    case False
    then have "greedy_loop pf w steps idx pos c = greedy_loop pf w steps idx (pos + 1) c'"
      using at loop lt Suc.prems(1) by simp
    then show ?thesis
      using Suc.hyps(1) [OF lt(2), of idx c'] Suc.prems False lt(1) c' by simp
  qed
qed

text \<open>With fewer steps than the prompt has tokens the loop only warms up the cache.\<close>

lemma greedy_loop_warms_up:
  assumes "runnable pf w" "steps < length idx" "\<forall>t\<in>set idx. t < rh_vocab (rw_header w)" "cache_fits w c" "pos \<le> steps"
  shows "greedy_loop pf w steps idx pos c = Ok idx"
  using assms(4,5)
proof (induction "steps - pos" arbitrary: pos c)
  case 0
  then show ?case by (simp add: greedy_loop.simps)
next
  case (Suc n)
  then have lt: "pos < steps" "n = steps - (pos + 1)" by simp_all
  then obtain c' where "cache_fits w c'" "decode_at pf w idx pos c = Ok (idx, False, c')"
    using decode_at_shape [OF assms(1) _ assms(3) Suc.prems(1), of pos] assms(2) by auto
  then show ?case
    using greedy_loop.simps [of pf w steps idx pos c] Suc.hyps(1) [OF lt(2), of c'] lt(1) assms(2) by simp
qed

text \<open>
  How many tokens a bound of \<open>n\<close> allows after a prompt of \<open>l\<close> tokens: one more than the bound, or none
  when the sum of the two does not fit into a \<open>usize\<close>.
\<close>

definition token_limit :: "nat \<Rightarrow> nat \<Rightarrow> nat" where
  "token_limit l n = (if l + n < 2 ^ 64 then n + 1 else 0)"

lemma wrapped_below: "n < 2 ^ 64 \<Longrightarrow> \<not> l + n < 2 ^ 64 \<Longrightarrow> usize_add l n < l"
proof -
  assume n: "n < 2 ^ 64" and wrap: "\<not> l + n < 2 ^ 64"
  show ?thesis
  proof (cases "l < 2 ^ 64")
    case True
    then have "(l + n) mod 2 ^ 64 = l + n - 2 ^ 64" using n wrap by (simp add: mod_if)
    then show ?thesis using n wrap by (simp add: usize_add_def)
  next
    case False
    have "(l + n) mod 2 ^ 64 < 2 ^ 64" by simp
    with False show ?thesis unfolding usize_add_def by linarith
  qed
qed

section \<open>Token strings\<close>

lemma lookup_tokens_known:
  "\<forall>s\<in>set toks. rw_tok_to_idx w s \<noteq> None \<Longrightarrow>
   lookup_tokens w toks = Ok (map (\<lambda>s. the (rw_tok_to_idx w s)) toks)"
  by (induction toks) auto

lemma token_strings_ok:
  "\<forall>i\<in>set ids. i < length (rw_tokens w) \<Longrightarrow> token_strings w ids = Ok (map ((!) (rw_tokens w)) ids)"
  by (induction ids) auto

lemma index_tokens_known: "s \<in> set toks \<Longrightarrow> \<exists>i. index_tokens toks s = Some i"
proof -
  assume "s \<in> set toks"
  then have "s \<in> fst ` set (rev (zip toks [0..<length toks]))" by (force simp: set_zip in_set_conv_nth)
  then have "index_tokens toks s \<noteq> None" unfolding index_tokens_def by (simp only: map_of_eq_None_iff not_not)
  then show ?thesis by simp
qed

text \<open>The whole of a generation: token ids of the prompt, the cache, the loop and the strings.\<close>

lemma generate_ids:
  assumes "runnable pf w" "input \<noteq> []" "set input \<subseteq> set (rw_tokens w)" "n < 2 ^ 64"
  shows "\<exists>ids out c. lookup_tokens w input = Ok ids \<and> length ids = length input \<and>
     kv_new (rh_n_layers (rw_header w)) (rh_n_heads (rw_header w)) (rh_d_model (rw_header w)) = Ok c \<and>
     greedy_loop pf w (usize_add (length ids) n) ids 0 c = Ok (ids @ out) \<and>
     token_strings w (ids @ out) = Ok (input @ map ((!) (rw_tokens w)) out) \<and>
     (\<forall>t\<in>set (ids @ out). t < rh_vocab (rw_header w)) \<and> length out \<le> token_limit (length input) n \<and>
     (\<forall>t\<in>set out. t < rh_vocab (rw_header w)) \<and> (\<forall>t\<in>set (butlast out). \<not> is_stop w t) \<and>
     (length out = token_limit (length input) n \<or> out \<noteq> [] \<and> is_stop w (last out))"
proof -
  let ?v = "rh_vocab (rw_header w)"
  have shape: "length (rw_tokens w) = ?v" "rw_tok_to_idx w = index_tokens (rw_tokens w)"
    using assms(1) by (auto simp: runnable_def weights_ok_def Let_def)
  define ids where "ids = map (\<lambda>s. the (rw_tok_to_idx w s)) input"
  have id: "the (index_tokens (rw_tokens w) s) < ?v \<and> rw_tokens w ! the (index_tokens (rw_tokens w) s) = s"
    if "s \<in> set input" for s
    using index_tokens_known [of s "rw_tokens w"] index_tokens_bound [of "rw_tokens w" s] that assms(3) shape(1)
    by auto
  have "lookup_tokens w input = Ok ids"
    unfolding ids_def
  proof (rule lookup_tokens_known, intro ballI)
    fix s assume "s \<in> set input"
    then show "rw_tok_to_idx w s \<noteq> None"
      using index_tokens_known [of s "rw_tokens w"] assms(3) shape(2) by auto
  qed
  moreover have ids: "\<forall>t\<in>set ids. t < ?v" "map ((!) (rw_tokens w)) ids = input" "ids \<noteq> []"
    using id assms(2) shape(2) by (auto simp: ids_def map_idI)
  moreover obtain c where c: "kv_new (rh_n_layers (rw_header w)) (rh_n_heads (rw_header w)) (rh_d_model (rw_header w)) = Ok c"
    "cache_fits w c"
    using kv.new_fits [of "rh_n_heads (rw_header w)" "rh_d_model (rw_header w)" "rh_n_layers (rw_header w)"] assms(1)
    by (auto simp: runnable_def cache_fits_def)
  moreover have len: "length ids = length input" by (simp add: ids_def)
  moreover have "\<exists>out. greedy_loop pf w (usize_add (length ids) n) ids 0 c = Ok (ids @ out) \<and>
      length out \<le> token_limit (length input) n \<and> (\<forall>t\<in>set out. t < ?v) \<and> (\<forall>t\<in>set (butlast out). \<not> is_stop w t) \<and>
      (length out = token_limit (length input) n \<or> out \<noteq> [] \<and> is_stop w (last out))"
  proof (cases "length ids + n < 2 ^ 64")
    case True
    then show ?thesis
      using greedy_loop_returns [OF assms(1), of 0 ids "length ids + n" c] ids c
      by (auto simp: usize_add_def token_limit_def len [symmetric])
  next
    case False
    then have "greedy_loop pf w (usize_add (length ids) n) ids 0 c = Ok ids"
      using greedy_loop_warms_up [OF assms(1) wrapped_below ids(1) c(2)] assms(4) by simp
    then show ?thesis using False by (intro exI [of _ "[]"]) (simp add: token_limit_def len [symmetric])
  qed
  then obtain out where out: "greedy_loop pf w (usize_add (length ids) n) ids 0 c = Ok (ids @ out)"
    "length out \<le> token_limit (length input) n" "\<forall>t\<in>set out. t < ?v" "\<forall>t\<in>set (butlast out). \<not> is_stop w t"
    "length out = token_limit (length input) n \<or> out \<noteq> [] \<and> is_stop w (last out)"
    by blast
  moreover have "token_strings w (ids @ out) = Ok (map ((!) (rw_tokens w)) (ids @ out))"
    using out(3) ids(1) shape(1) by (intro token_strings_ok) auto
  ultimately show ?thesis by (intro exI [of _ ids] exI [of _ out] exI [of _ c]) auto
qed

end
