(* ===== verification/Legacy_Binaries.thy ===== *)
theory Legacy_Binaries
  imports Gate_One Legacy_Runner_Laws
begin

text \<open>
  The three programs of the legacy runner (\<open>legacy/rust_runner/src/bin\<close>): the rest of the gate-1 sweep
  (\<open>run_gate1.rs\<close>), the dump of logits (\<open>dump_logits.rs\<close>) and the command line \<open>runner.rs\<close>. Files are
  parameters: the loader of a weight file by its path, the text of an input file, and
  whether an output file could be created and written. The sweep's thread pool runs
  independent vectors; the model runs them in order. Progress lines and timings are left out.
\<close>

section \<open>run\_gate1.rs\<close>

datatype gate_error =
    GateRunner runner_error
  | FreezeParse rstring
  | FreezeRange int
  | SetupLength nat
  | ApplyLength nat
  | UnknownPrimitive rstring

text \<open>The integers of a freeze output: every chunk must parse and fit a byte.\<close>

fun freeze_ints :: "rstring list \<Rightarrow> (bytes, gate_error) res" where
  "freeze_ints [] = Ok []"
| "freeze_ints (chunk # chunks) =
     and_then (ok_or (FreezeParse chunk) (parse_i64 chunk)) (\<lambda>v.
     if 0 \<le> v \<and> v \<le> 255 then and_then (freeze_ints chunks) (\<lambda>vs. Ok (of_int v # vs))
     else Err (FreezeRange v))"

definition run_freeze_pass :: "platform \<Rightarrow> runner_weights \<Rightarrow> bytes \<Rightarrow> usize \<Rightarrow> (bytes, gate_error) res" where
  "run_freeze_pass pf w witness max_new =
     and_then (map_err GateRunner (runner_generate pf w (render_decimal_spec witness) \<lparr> max_new_tokens = max_new \<rparr>)) (\<lambda>predicted.
     freeze_ints (split_whitespace (from_utf8_lossy (parse_out_bytes predicted))))"

datatype gate_kind = Single runner_weights | FreezeChain runner_weights runner_weights

definition weights_name :: "rstring \<Rightarrow> rstring option" where
  "weights_name prim =
     (if prim = ascii ''byte_add'' then Some (ascii ''byte_add_with_carry'')
      else if prim = ascii ''byte_sub'' then Some (ascii ''byte_sub_with_borrow'')
      else if prim = ascii ''transfer_check'' then Some (ascii ''transfer_check'')
      else if prim = ascii ''transfer_finalize'' then Some (ascii ''transfer_finalize'')
      else if prim = ascii ''mpt_emit'' \<or> prim = ascii ''mpt_emit_record'' then Some (ascii ''mpt_emit_record'')
      else if prim = ascii ''freeze_setup'' then Some (ascii ''freeze_setup'')
      else if prim = ascii ''freeze_apply'' then Some (ascii ''freeze_apply'')
      else None)"

type_synonym loader = "rstring \<Rightarrow> (runner_weights, runner_error) res"

definition weights_file :: "rstring \<Rightarrow> rstring \<Rightarrow> rstring" where
  "weights_file repo_root name = path_join (path_join repo_root (ascii ''weights'')) (name @ ascii ''.bin'')"

definition gate_load :: "loader \<Rightarrow> rstring \<Rightarrow> rstring \<Rightarrow> (gate_kind, gate_error) res" where
  "gate_load load repo_root prim =
     (if prim = ascii ''freeze_chain'' then
        and_then (map_err GateRunner (load (weights_file repo_root (ascii ''freeze_setup'')))) (\<lambda>setup.
        and_then (map_err GateRunner (load (weights_file repo_root (ascii ''freeze_apply'')))) (\<lambda>app.
        Ok (FreezeChain setup app)))
      else
        and_then (ok_or (UnknownPrimitive prim) (weights_name prim)) (\<lambda>name.
        and_then (map_err GateRunner (load (weights_file repo_root name))) (\<lambda>w. Ok (Single w))))"

text \<open>The answer of the loaded model on one witness.\<close>

fun gate_answer :: "platform \<Rightarrow> gate_kind \<Rightarrow> usize \<Rightarrow> bytes \<Rightarrow> (bytes, gate_error) res" where
  "gate_answer pf (Single w) max_new witness = map_err GateRunner (run_one_pass pf w witness max_new)"
| "gate_answer pf (FreezeChain setup app) max_new witness =
     and_then (run_freeze_pass pf setup witness max_new) (\<lambda>setup_out.
     if length setup_out \<noteq> 2 then Err (SetupLength (length setup_out))
     else and_then (run_freeze_pass pf app setup_out max_new) (\<lambda>apply_out.
          if length apply_out \<noteq> 1 then Err (ApplyLength (length apply_out)) else Ok apply_out))"

record gate_cli =
  gc_primitive :: rstring
  gc_count :: usize
  gc_seed :: u64
  gc_print_failures :: usize
  gc_repo_root :: rstring

record gate_tally =
  gt_pass :: usize
  gt_fail :: usize
  gt_examples :: "(usize \<times> bytes \<times> bytes \<times> bytes) list"

definition gate_rng :: "gate_cli \<Rightarrow> usize \<Rightarrow> splitmix64" where
  "gate_rng args i = splitmix_new (gc_seed args + seed_for (gc_primitive args) + of_nat i)"

definition gate_vector ::
  "platform \<Rightarrow> gate_cli \<Rightarrow> gate_kind \<Rightarrow> usize \<Rightarrow> gate_tally \<Rightarrow> (gate_tally, gate_error) res" where
  "gate_vector pf args kd i tally =
     and_then (map_err GateRunner (gen_vector (gc_primitive args) (gate_rng args i))) (\<lambda>((witness, expected), _).
     case gate_answer pf kd (gate_max_new (gc_primitive args)) witness of
       Panic \<Rightarrow> Panic
     | Err _ \<Rightarrow> Ok (tally\<lparr>gt_fail := gt_fail tally + 1\<rparr>)
     | Ok got \<Rightarrow>
         if got = expected then Ok (tally\<lparr>gt_pass := gt_pass tally + 1\<rparr>)
         else Ok (tally\<lparr>gt_fail := gt_fail tally + 1,
                        gt_examples := (if length (gt_examples tally) < gc_print_failures args
                                        then gt_examples tally @ [(i, witness, expected, got)]
                                        else gt_examples tally)\<rparr>))"

definition gate_main ::
  "platform \<Rightarrow> loader \<Rightarrow> gate_cli \<Rightarrow> (gate_tally \<times> nat, gate_error) res" where
  "gate_main pf load args =
     and_then (gate_load load (gc_repo_root args) (gc_primitive args)) (\<lambda>kd.
     and_then (for_each [0..<gc_count args] (gate_vector pf args kd) \<lparr> gt_pass = 0, gt_fail = 0, gt_examples = [] \<rparr>) (\<lambda>tally.
     Ok (tally, if gt_fail tally > 0 then 1 else 0)))"

section \<open>dump\_logits.rs\<close>

datatype dump_error = DumpRunner runner_error | DumpIo

record dump_files =
  logits_rows :: "f64 list list"
  argmax_lines :: "rstring list"

record dump_disk =
  can_create :: "rstring \<Rightarrow> bool"
  can_write :: "usize \<Rightarrow> bool"

record dump_cli =
  dc_weights :: rstring
  dc_input :: rstring
  dc_max_gen :: usize
  dc_out_prefix :: rstring

definition dump_add_pos_enc :: "platform \<Rightarrow> f64 list \<Rightarrow> usize \<Rightarrow> (f64 list, runner_error) res" where
  "dump_add_pos_enc pf x pos =
     (let p = f64_of_nat pos
      in and_then (update_at x 0 p) (\<lambda>x.
         and_then (update_at x 1 (f64_sub (f64_div (f64_of_nat 1) (p_ln pf (f64_of_nat 2)))
                                          (f64_div (f64_of_nat 1) (p_ln pf (f64_add p (f64_of_nat 2)))))) (\<lambda>x.
         update_at x 2 (f64_mul p p))))"

definition dump_block ::
  "platform \<Rightarrow> runner_weights \<Rightarrow> usize \<Rightarrow> layer_weights \<Rightarrow> f64 list \<times> kv_cache \<Rightarrow>
   (f64 list \<times> kv_cache, runner_error) res" where
  "dump_block pf w li layer = (\<lambda>(x, cache).
     let d_model = rh_d_model (rw_header w)
     in and_then (matvec (lw_in_proj layer) x) (\<lambda>proj.
        and_then (slice_of proj 0 d_model) (\<lambda>q.
        and_then (slice_of proj d_model (2 * d_model)) (\<lambda>k.
        and_then (slice_of proj (2 * d_model) (3 * d_model)) (\<lambda>v.
        and_then (layer_step pf li k q v cache) (\<lambda>(attn_out, cache).
        and_then (matvec (lw_out_proj layer) attn_out) (\<lambda>out_proj_v.
        and_then (vector_add pf x out_proj_v) (\<lambda>x.
        and_then (matvec (lw_ff_in layer) x) (\<lambda>ffn_proj.
        and_then (get_at (rh_d_ffn_per_layer (rw_header w)) li) (\<lambda>width.
        and_then (slice_of ffn_proj 0 width) (\<lambda>gate.
        and_then (slice_of ffn_proj width (2 * width)) (\<lambda>val.
        and_then (reglu pf width gate val) (\<lambda>act.
        and_then (matvec (lw_ff_out layer) act) (\<lambda>ff_out_v.
        and_then (vector_add pf x ff_out_v) (\<lambda>x.
        Ok (x, cache))))))))))))))))"

text \<open>The token and its line in the text file: the index, a tab and the spelling.\<close>

definition argmax_line :: "runner_weights \<Rightarrow> usize \<Rightarrow> rstring" where
  "argmax_line w t = decimal_nat t @ [9] @ rw_tokens w ! t"

definition dump_at ::
  "platform \<Rightarrow> dump_disk \<Rightarrow> runner_weights \<Rightarrow> usize list \<Rightarrow> usize \<Rightarrow> kv_cache \<Rightarrow> dump_files \<Rightarrow>
   (usize list \<times> bool \<times> kv_cache \<times> dump_files, dump_error) res" where
  "dump_at pf disk w idx_list pos cache files =
     and_then (map_err DumpRunner
       (and_then (if idx_list ! pos < nrows (rw_tok_embed w)
                  then slice_of (mdata (rw_tok_embed w)) ((idx_list ! pos) * ncols (rw_tok_embed w))
                         ((idx_list ! pos + 1) * ncols (rw_tok_embed w))
                  else Panic) (\<lambda>x.
        and_then (dump_add_pos_enc pf x pos) (\<lambda>x.
        for_each (enumerate 0 (rw_layers w)) (\<lambda>(li, layer). dump_block pf w li layer) (x, cache))))) (\<lambda>(x, cache).
     if pos + 1 = length idx_list then
       and_then (map_err DumpRunner (matvec (rw_head w) x)) (\<lambda>logits.
       if \<not> can_write disk (length (logits_rows files)) then Err DumpIo
       else let best_idx = argmax_f64 logits
            in if best_idx \<ge> length (rw_tokens w) then Panic
               else Ok (idx_list @ [best_idx], as_i32 best_idx = rh_stop_token_id (rw_header w), cache,
                        files\<lparr>logits_rows := logits_rows files @ [logits],
                              argmax_lines := argmax_lines files @ [argmax_line w best_idx]\<rparr>))
     else Ok (idx_list, False, cache, files))"

function dump_loop ::
  "platform \<Rightarrow> dump_disk \<Rightarrow> runner_weights \<Rightarrow> usize \<Rightarrow> usize list \<Rightarrow> usize \<Rightarrow> kv_cache \<Rightarrow> dump_files \<Rightarrow>
   (usize list \<times> dump_files, dump_error) res" where
  "dump_loop pf disk w total_steps idx_list pos cache files =
     (if pos < total_steps then
        if pos \<ge> length idx_list then Ok (idx_list, files)
        else and_then (dump_at pf disk w idx_list pos cache files) (\<lambda>(idx_list, stop, cache, files).
             if stop then Ok (idx_list, files)
             else dump_loop pf disk w total_steps idx_list (pos + 1) cache files)
      else Ok (idx_list, files))"
  by auto
termination
  by (relation "measure (\<lambda>(pf, disk, w, total_steps, idx_list, pos, cache, files). total_steps - pos)") auto

declare dump_loop.simps [simp del]

fun known_tokens :: "runner_weights \<Rightarrow> rstring list \<Rightarrow> (usize list, dump_error) res" where
  "known_tokens w [] = Ok []"
| "known_tokens w (t # ts) =
     (case rw_tok_to_idx w t of
        None \<Rightarrow> Panic
      | Some i \<Rightarrow> and_then (known_tokens w ts) (\<lambda>is. Ok (i # is)))"

definition dump_main ::
  "platform \<Rightarrow> loader \<Rightarrow> (rstring \<Rightarrow> rstring option) \<Rightarrow> dump_disk \<Rightarrow> dump_cli \<Rightarrow> (usize list \<times> dump_files, dump_error) res" where
  "dump_main pf load read_to_string disk args =
     and_then (map_err DumpRunner (load (dc_weights args))) (\<lambda>w.
     and_then (ok_or DumpIo (read_to_string (dc_input args))) (\<lambda>input_str.
     and_then (known_tokens w (split_whitespace input_str)) (\<lambda>idx_list.
     if \<not> can_create disk (dc_out_prefix args @ ascii ''.logits.bin'') \<or>
        \<not> can_create disk (dc_out_prefix args @ ascii ''.argmax.txt'') then Err DumpIo
     else and_then (map_err DumpRunner (kv_new (rh_n_layers (rw_header w)) (rh_n_heads (rw_header w)) (rh_d_model (rw_header w)))) (\<lambda>cache.
          dump_loop pf disk w (usize_add (length idx_list) (dc_max_gen args)) idx_list 0 cache
            \<lparr> logits_rows = [], argmax_lines = [] \<rparr>))))"

section \<open>runner.rs\<close>

datatype cli_error = CliRunner runner_error | InputRequired | InputUnreadable

record runner_cli =
  rc_weights :: rstring
  rc_input :: "rstring option"
  rc_max_new_tokens :: usize
  rc_inspect :: bool

text \<open>What is printed: the header fields with the head width, or the predicted tokens.\<close>

datatype runner_output = Inspected runner_header usize | Predicted rstring

definition runner_main ::
  "platform \<Rightarrow> loader \<Rightarrow> (rstring \<Rightarrow> rstring option) \<Rightarrow> runner_cli \<Rightarrow> (runner_output, cli_error) res" where
  "runner_main pf load read_to_string args =
     and_then (map_err CliRunner (load (rc_weights args))) (\<lambda>w.
     if rc_inspect args then
       let h = rw_header w
       in if rh_n_heads h = 0 then Panic else Ok (Inspected h (rh_d_model h div rh_n_heads h))
     else
       and_then (ok_or InputRequired (rc_input args)) (\<lambda>path.
       and_then (ok_or InputUnreadable (read_to_string path)) (\<lambda>input_str.
       and_then (map_err CliRunner
         (runner_generate pf w (split_whitespace input_str) \<lparr> max_new_tokens = rc_max_new_tokens args \<rparr>)) (\<lambda>predicted.
       Ok (Predicted (join_spaces predicted))))))"

end
