(* ===== verification/Legacy_Properties.thy ===== *)
theory Legacy_Properties
  imports Legacy_Runner_Laws
begin

text \<open>
  The properties of the legacy runner: sparse against dense products, the attention step
  against its formula, the shape of a loaded model, and the decoding loop.
\<close>

section \<open>Sparse products\<close>

text \<open>C23. The sparse product of a matrix and a finite vector is the dense product. On the
  compressed-row path it is the same numbers bit for bit: the loop skips only products that
  are zeros and the sum is never a negative zero. On the path for at most two nonzeros per
  row, the dense product is the sparse one with a positive zero added to each cell, so the
  two differ exactly in cells that are a negative zero. Both return for every matrix with
  fewer than \<open>2 ^ 32\<close> cells.\<close>

theorem sparse_matvec_exact:
  assumes "matrix_ok w" "nrows w * ncols w < 2 ^ 32" "length x = ncols w" "vec_ok x" "list_all is_finite x"
  shows "\<exists>y. matvec (Sparse (from_view w)) x = Ok y \<and> length y = nrows w \<and>
             matvec (Dense w) x =
               Ok (if fast_row12 (from_view w) then map (f64_add pos_zero) y else y)"
proof -
  let ?sp = "from_view w"
  let ?d = "\<lambda>i. entry_sum x (all_entries w i) pos_zero"
  have rows: "sp_rows ?sp = nrows w" by (simp add: from_view_closed scanned_def Let_def)
  have dense: "matvec (Dense w) x = Ok (map ?d [0..<nrows w])"
    using dense_row_entry_sum [OF assms(1) _ assms(3)] by (auto intro!: fill_vector)
  have sum: "entry_sum x (entries w i (ncols w)) pos_zero = ?d i" if "i < nrows w" for i
    by (rule sparse_row_entry_sum [OF assms(1,4,5,3) that])
  show ?thesis
  proof (cases "fast_row12 ?sp")
    case True
    have "\<exists>v. fast_row ?sp x i = Ok v \<and> ?d i = f64_add pos_zero v" if "i < nrows w" for i
      using fast_row_entry_sum [OF True that assms(3,2)] all_operands [OF assms(1,4,5,3) that] sum [OF that]
      by (simp add: entries_filter)
    then obtain v where v: "\<And>i. i < nrows w \<Longrightarrow> fast_row ?sp x i = Ok (v i) \<and> ?d i = f64_add pos_zero (v i)"
      by metis
    have "matvec (Sparse ?sp) x = Ok (map v [0..<nrows w])"
      using v True by (auto simp: matvec_view_def matvec_into_def rows intro!: fill_vector)
    then show ?thesis using dense v True by auto
  next
    case False
    have "matvec (Sparse ?sp) x = Ok (map ?d [0..<nrows w])"
      using csr_row_entry_sum [OF _ assms(3,2)] sum False
      by (auto simp: matvec_view_def matvec_into_def rows intro!: fill_vector)
    then show ?thesis using dense False by auto
  qed
qed

definition wide_row :: matrix where
  "wide_row = \<lparr> nrows = 1, ncols = 3, mdata = [Fin False 1 0, Fin False 2 0, Fin False 3 0] \<rparr>"

theorem sparse_matvec_exact_witness:
  "\<exists>y. matvec (Sparse (from_view wide_row)) [neg_zero, pos_zero, Fin True 1 0] = Ok y \<and> length y = 1 \<and>
       matvec (Dense wide_row) [neg_zero, pos_zero, Fin True 1 0] =
         Ok (if fast_row12 (from_view wide_row) then map (f64_add pos_zero) y else y)"
  using sparse_matvec_exact [of wide_row "[neg_zero, pos_zero, Fin True 1 0]"]
  by (simp add: wide_row_def matrix_ok_def vec_ok_def pos_zero_def neg_zero_def)

text \<open>
  The two paths do differ: on a one-cell matrix and a negative zero, the fast path returns
  the product of the signs and the dense loop a positive zero.
\<close>

theorem fast_path_negative_zero:
  assumes "is_canonical (Fin False m k)" "0 < m"
  defines "w \<equiv> \<lparr> nrows = 1, ncols = 1, mdata = [Fin False m k] \<rparr>"
  shows "matvec (Sparse (from_view w)) [neg_zero] = Ok [neg_zero]"
    and "matvec (Dense w) [neg_zero] = Ok [pos_zero]"
  using assms
  by (simp_all add: from_view_def scan_row_def scan_entry_def sparse_init_def matvec_view_def
      matvec_into_def fast_row_def mul_at_def dense_row_def mget_def pos_zero_def neg_zero_def Let_def)

section \<open>Attention\<close>

text \<open>C20. One attention step on a well-formed cache returns, in every cell of the output,
  the softmax-weighted sum of the values over all positions so far, added in order of
  position, with each weight the exponential of the head's score less the maximum, divided
  by their sum. The result does not depend on what the reused scratch buffers held. The
  step appends the key and the value to the layer's history and keeps the cache
  well-formed.\<close>

theorem attention_step_exact:
  assumes "kv_ok n_layers c" "layer < n_layers"
    "length k = kv_d_model c" "length q = kv_d_model c" "length v = kv_d_model c"
  shows "\<exists>c'. layer_step pf layer k q v c
      = Ok (map (attention_of pf (kv_d_head c) (kv_d_model c) (kv_sizes c ! layer + 1)
                   (kv_keys c ! layer @ k) (kv_vals c ! layer @ v) q) [0..<kv_d_model c], c') \<and>
     kv_ok n_layers c' \<and>
     kv_keys c' = (kv_keys c)[layer := kv_keys c ! layer @ k] \<and>
     kv_vals c' = (kv_vals c)[layer := kv_vals c ! layer @ v] \<and>
     kv_sizes c' = (kv_sizes c)[layer := kv_sizes c ! layer + 1]"
  using layer_step_spec [OF assms] by blast

definition plain_platform :: platform where
  "plain_platform =
     \<lparr> p_exp = (\<lambda>x. if x = pos_zero then f64_of_nat 1 else pos_zero), p_ln = (\<lambda>x. x),
       p_max_zeros = (\<lambda>a b. pos_zero),
       nd_add = (\<lambda>a b. if length a = length b then Some (map2 f64_add a b) else None),
       nd_from_shape_vec = (\<lambda>r c d. if length d = r * c \<and> r < 2 ^ 63 \<and> c < 2 ^ 63
          then Some \<lparr> nrows = r, ncols = c, mdata = d \<rparr> else None) \<rparr>"

lemma plain_platform_ok: "ndarray_ok plain_platform"
  by (simp add: ndarray_ok_def plain_platform_def)

definition one_head :: kv_cache where
  "one_head = \<lparr> kv_n_heads = 1, kv_d_head = 1, kv_d_model = 1, kv_keys = [[]], kv_vals = [[]],
                kv_sizes = [0], score_buf = [NaN], weight_buf = [NaN], out_buf = [NaN] \<rparr>"

theorem attention_step_exact_witness:
  "\<exists>c'. layer_step plain_platform 0 [pos_zero] [pos_zero] [neg_zero] one_head
      = Ok ([attention_of plain_platform 1 1 1 [pos_zero] [neg_zero] [pos_zero] 0], c') \<and> kv_ok 1 c'"
  using attention_step_exact [of 1 one_head 0 "[pos_zero]" "[pos_zero]" "[neg_zero]" plain_platform]
  by (simp add: one_head_def kv_ok_def) blast

section \<open>Loading\<close>

text \<open>C26. A weight file that loads gives a model of consistent shape: as many tokens as the
  vocabulary, each token mapped to a position that holds it, one feed-forward width and one
  set of matrices per layer, and every matrix with the rows, the columns and the number of
  values its place in the model needs. The header's counts are signed in the file and are
  widened with their sign, and the products of sizes wrap; a file where this matters does
  not load.\<close>

theorem loaded_weights_shaped:
  assumes "ndarray_ok pf" "byteorder_ok bo" "load_weights pf bo file = Ok w"
  shows "weights_ok w"
proof -
  obtain b b1 b2 vocab d_model n_layers n_heads d_ffn stop tokens widths emb ls head_w
    b0 b3 b4 b5 b6 b7 b8 b9 b10 b11 where rd:
    "read_usize bo b0 = Ok (d_model, b1)"
    "read_times (read_token bo) vocab b2 = Ok (tokens, b3)"
    "(if d_ffn < 0 then read_times (read_usize bo) n_layers b3
      else Ok (replicate n_layers (usize_of_i32 d_ffn), b3)) = Ok (widths, b4)"
    "read_f64_array pf vocab d_model b4 = Ok (emb, b5)"
    "read_layers pf d_model widths b5 = Ok (ls, b6)"
    "read_f64_array pf vocab d_model b6 = Ok (head_w, b7)"
    and w: "w = \<lparr> rw_header = \<lparr> rh_vocab = vocab, rh_d_model = d_model, rh_n_layers = n_layers,
                          rh_n_heads = n_heads, rh_d_ffn_per_layer = widths, rh_stop_token_id = stop \<rparr>,
          rw_tokens = tokens, rw_tok_to_idx = index_tokens tokens, rw_tok_embed = emb,
          rw_layers = ls, rw_head = from_dense head_w \<rparr>"
    using assms(3) unfolding load_weights_def
    by (clarsimp simp: and_then_Ok_iff split: prod.splits)
  note emb = read_f64_array_shape [OF assms(1) rd(4)] and head = read_f64_array_shape [OF assms(1) rd(6)]
  have "d_model < 2 ^ 31" using read_usize_small [OF assms(2) rd(1)] emb by blast
  moreover have "length widths = n_layers" "\<forall>x\<in>set widths. x < 2 ^ 64"
    using rd(3) read_times_length [of "read_usize bo"] usize_of_i32_low [of d_ffn]
      read_times_all [of "read_usize bo" "\<lambda>x. x < 2 ^ 64"] read_usize_bound
    by (auto split: if_splits)
  ultimately have "list_all2 (layer_ok d_model) widths ls" "length widths = n_layers"
    using read_layers_shape [OF assms(1) _ rd(5)] by simp_all
  moreover have "length tokens = vocab" by (rule read_times_length [OF rd(2)])
  ultimately show ?thesis
    using w emb head by (auto simp: weights_ok_def linear_ok_def from_dense_def dest: list_all2_lengthD)
qed

definition le_byteorder :: byteorder where
  "le_byteorder =
     \<lparr> bo_i32 = (\<lambda>r. if length r < 4 then None
                     else Some (sint (of_nat (le_nat (take 4 r)) :: u32), drop 4 r)),
       bo_u32 = (\<lambda>r. if length r < 4 then None else Some (of_nat (le_nat (take 4 r)), drop 4 r)) \<rparr>"

text \<open>One token, width one, no layers, and the stop token \<open>-1\<close>.\<close>

definition tiny_file :: bytes where
  "tiny_file = [1,0,0,0, 1,0,0,0, 0,0,0,0, 1,0,0,0, 0,0,0,0, 255,255,255,255, 1,0,0,0, 97,
     0,0,0,0,0,0,0,0, 0,0,0,0,0,0,0,0]"

lemma tiny_file_loads:
  "load_weights plain_platform le_byteorder (Some tiny_file) =
     Ok \<lparr> rw_header = \<lparr> rh_vocab = 1, rh_d_model = 1, rh_n_layers = 0, rh_n_heads = 1,
                          rh_d_ffn_per_layer = [], rh_stop_token_id = -1 \<rparr>,
          rw_tokens = [[97]], rw_tok_to_idx = index_tokens [[97]],
          rw_tok_embed = \<lparr> nrows = 1, ncols = 1, mdata = [pos_zero] \<rparr>, rw_layers = [],
          rw_head = Dense \<lparr> nrows = 1, ncols = 1, mdata = [pos_zero] \<rparr> \<rparr>"
  by (simp add: load_weights_def tiny_file_def le_byteorder_def plain_platform_def read_usize_def
      read_i32_le_def read_u32_le_def usize_of_i32_def alloc_def read_token_def read_exact_def
      utf8_cont_def read_f64_array_def usize_mul_def skip_erase_def from_dense_def
      f64_from_le_bytes_def pos_zero_def Let_def)

theorem loaded_weights_shaped_witness:
  "\<exists>w. load_weights plain_platform le_byteorder (Some tiny_file) = Ok w \<and> weights_ok w \<and> rw_tokens w = [[97]]"
proof -
  have "byteorder_ok le_byteorder" by (simp add: byteorder_ok_def le_byteorder_def)
  then show ?thesis
    using loaded_weights_shaped [OF plain_platform_ok _ tiny_file_loads] tiny_file_loads by simp
qed

section \<open>Generation\<close>

text \<open>C22. Generation from a shaped model returns, whatever the numbers in it: given a non-empty
  prompt of known tokens, the result is the prompt followed by new tokens of the vocabulary.
  If the lengths of the prompt and the bound together fit into sixty-four bits there is at
  least one and there are at most \<open>max_new_tokens + 1\<close>, and fewer only when the last one is
  the stop token; if not, the sum wraps around and there is none. No token before the last
  is the stop token.\<close>

theorem generate_returns:
  assumes "runnable pf w" "input \<noteq> []" "set input \<subseteq> set (rw_tokens w)" "max_new_tokens cfg < 2 ^ 64"
  shows "\<exists>out. runner_generate pf w input cfg = Ok (input @ map ((!) (rw_tokens w)) out) \<and>
     (\<forall>t\<in>set out. t < rh_vocab (rw_header w)) \<and>
     (\<forall>t\<in>set (butlast out). as_i32 t \<noteq> rh_stop_token_id (rw_header w)) \<and>
     (if length input + max_new_tokens cfg < 2 ^ 64
      then out \<noteq> [] \<and> length out \<le> max_new_tokens cfg + 1 \<and>
           (as_i32 (last out) = rh_stop_token_id (rw_header w) \<or> length out = max_new_tokens cfg + 1)
      else out = [])"
proof -
  obtain ids out c where g: "lookup_tokens w input = Ok ids"
      "kv_new (rh_n_layers (rw_header w)) (rh_n_heads (rw_header w)) (rh_d_model (rw_header w)) = Ok c"
      "greedy_loop pf w (usize_add (length ids) (max_new_tokens cfg)) ids 0 c = Ok (ids @ out)"
      "token_strings w (ids @ out) = Ok (input @ map ((!) (rw_tokens w)) out)"
    and out: "length out \<le> token_limit (length input) (max_new_tokens cfg)" "\<forall>t\<in>set out. t < rh_vocab (rw_header w)"
      "\<forall>t\<in>set (butlast out). \<not> is_stop w t"
      "length out = token_limit (length input) (max_new_tokens cfg) \<or> out \<noteq> [] \<and> is_stop w (last out)"
    using generate_ids [OF assms] by blast
  from g have "runner_generate pf w input cfg = Ok (input @ map ((!) (rw_tokens w)) out)"
    by (simp add: runner_generate_def transformer_generate_def)
  then show ?thesis
    using out by (intro exI [of _ out]) (auto simp: is_stop_def token_limit_def split: if_splits)
qed

definition zeros :: "usize \<Rightarrow> usize \<Rightarrow> matrix" where
  "zeros r c = \<lparr> nrows = r, ncols = c, mdata = replicate (r * c) pos_zero \<rparr>"

definition tiny_model :: runner_weights where
  "tiny_model =
     \<lparr> rw_header = \<lparr> rh_vocab = 1, rh_d_model = 3, rh_n_layers = 1, rh_n_heads = 3,
                       rh_d_ffn_per_layer = [2], rh_stop_token_id = 7 \<rparr>,
       rw_tokens = [[97]], rw_tok_to_idx = index_tokens [[97]], rw_tok_embed = zeros 1 3,
       rw_layers = [\<lparr> lw_in_proj = Dense (zeros 9 3), lw_out_proj = Dense (zeros 3 3),
                       lw_ff_in = Dense (zeros 4 3), lw_ff_out = Dense (zeros 3 2) \<rparr>],
       rw_head = Dense (zeros 1 3) \<rparr>"

lemma zeros_ok: "linear_ok r c (Dense (zeros r c))"
  by (simp add: linear_ok_def zeros_def matrix_ok_def vec_ok_def list_all_iff)

theorem generate_returns_witness:
  "(\<exists>out. runner_generate plain_platform tiny_model [[97]] \<lparr> max_new_tokens = 2 \<rparr>
            = Ok ([[97]] @ map ((!) [[97]]) out) \<and> 1 \<le> length out \<and> length out \<le> 3) \<and>
   runner_generate plain_platform tiny_model [[97]] \<lparr> max_new_tokens = 2 ^ 64 - 1 \<rparr> = Ok [[97]]"
proof -
  have run: "runnable plain_platform tiny_model"
    using plain_platform_ok
    by (simp add: runnable_def weights_ok_def layer_ok_def tiny_model_def zeros_ok)
  then have "runner_generate plain_platform tiny_model [[97]] \<lparr> max_new_tokens = 2 ^ 64 - 1 \<rparr> = Ok [[97]]"
    using generate_returns [of plain_platform tiny_model "[[97]]" "\<lparr> max_new_tokens = 2 ^ 64 - 1 \<rparr>"]
    by (simp add: tiny_model_def)
  moreover have "\<exists>out. runner_generate plain_platform tiny_model [[97]] \<lparr> max_new_tokens = 2 \<rparr>
            = Ok ([[97]] @ map ((!) [[97]]) out) \<and> 1 \<le> length out \<and> length out \<le> 3"
    using run generate_returns [of plain_platform tiny_model "[[97]]" "\<lparr> max_new_tokens = 2 \<rparr>"]
    by (auto simp: tiny_model_def Suc_le_eq)
  ultimately show ?thesis by blast
qed

end
