(* ===== verification/Legacy_Binaries_Laws.thy ===== *)
theory Legacy_Binaries_Laws
  imports Legacy_Binaries Legacy_Properties
begin

text \<open>
  What the programs of the legacy runner compute: the dump and the runner generate the same tokens,
  a sweep that reports success has compared every vector with the answer of the ternary
  networks, and the decimal text of the freeze passes is read back.
\<close>

section \<open>The dump generates what the runner generates\<close>

lemma dump_pos_enc_same: "dump_add_pos_enc pf x pos = add_position_encoding pf x pos"
  by (simp add: dump_add_pos_enc_def add_position_encoding_def Let_def)

lemma dump_block_same: "dump_block pf w li layer = block_forward pf w li layer"
  by (intro ext) (simp add: dump_block_def block_forward_def)

definition add_steps :: "runner_weights \<Rightarrow> f64 list list \<Rightarrow> dump_files \<Rightarrow> dump_files" where
  "add_steps w rows files =
     files\<lparr>logits_rows := logits_rows files @ rows,
           argmax_lines := argmax_lines files @ map (\<lambda>r. argmax_line w (argmax_f64 r)) rows\<rparr>"

lemma add_steps_simps [simp]:
  "add_steps w [] files = files" "add_steps w ys (add_steps w xs files) = add_steps w (xs @ ys) files"
  by (simp_all add: add_steps_def)

lemma dump_at_step:
  "dump_at pf disk w idx pos c fs =
     and_then (map_err DumpRunner (step pf w c (idx ! pos) pos)) (\<lambda>(x, c).
     if pos + 1 = length idx then
       and_then (map_err DumpRunner (matvec (rw_head w) x)) (\<lambda>logits.
       if \<not> can_write disk (length (logits_rows fs)) then Err DumpIo
       else if argmax_f64 logits \<ge> length (rw_tokens w) then Panic
       else Ok (idx @ [argmax_f64 logits], as_i32 (argmax_f64 logits) = rh_stop_token_id (rw_header w), c, add_steps w [logits] fs))
     else Ok (idx, False, c, fs))"
  unfolding dump_at_def step_def dump_pos_enc_same dump_block_same add_steps_def Let_def list.map by (rule refl)

lemma dump_at_sim:
  assumes "decode_at pf w idx pos c = Ok (idx', stop, c')" "\<forall>t\<in>set idx'. t < length (rw_tokens w)" "\<forall>k. can_write disk k"
  shows "\<exists>rows. dump_at pf disk w idx pos c fs = Ok (idx', stop, c', add_steps w rows fs) \<and> idx' = idx @ map argmax_f64 rows"
proof -
  obtain x where x: "step pf w c (idx ! pos) pos = Ok (x, c')"
    using assms(1) by (auto simp: decode_at_def and_then_Ok_iff Let_def split: prod.splits if_splits)
  show ?thesis
  proof (cases "pos + 1 = length idx")
    case True
    then obtain l where "matvec (rw_head w) x = Ok l" "idx' = idx @ [argmax_f64 l]" "stop = (as_i32 (argmax_f64 l) = rh_stop_token_id (rw_header w))"
      using assms(1) x by (auto simp: decode_at_def and_then_Ok_iff Let_def)
    then show ?thesis
      using True x assms(2,3)
      by (intro exI [of _ "[l]"]) (simp add: dump_at_step)
  next
    case False
    then show ?thesis
      using x assms(1)
      by (intro exI [of _ "[]"]) (simp add: dump_at_step decode_at_def)
  qed
qed

lemma decode_at_extends: "decode_at pf w idx pos c = Ok (idx', stop, c') \<Longrightarrow> \<exists>new. idx' = idx @ new"
  by (auto simp: decode_at_def and_then_Ok_iff Let_def split: prod.splits if_splits)

lemma greedy_extends: "greedy_loop pf w steps idx pos c = Ok idx' \<Longrightarrow> \<exists>new. idx' = idx @ new"
proof (induction pf w steps idx pos c rule: greedy_loop.induct)
  case (1 pf w steps idx pos c)
  show ?case
  proof (cases "pos < steps \<and> pos < length idx")
    case True
    then obtain idx1 stop c1 where d: "decode_at pf w idx pos c = Ok (idx1, stop, c1)"
        "if stop then idx' = idx1 else greedy_loop pf w steps idx1 (pos + 1) c1 = Ok idx'"
      using "1.prems" by (subst (asm) greedy_loop.simps) (auto simp: and_then_Ok_iff split: prod.splits if_splits)
    have "\<exists>new. idx' = idx1 @ new"
      using "1.IH" [of stop idx1 c1] d True by (cases stop) auto
    then show ?thesis using decode_at_extends [OF d(1)] by auto
  qed (use "1.prems" in \<open>subst (asm) greedy_loop.simps, auto simp: not_less split: if_splits\<close>)
qed

lemma dump_loop_sim:
  assumes "greedy_loop pf w steps idx pos c = Ok idx'" "\<forall>t\<in>set idx'. t < length (rw_tokens w)" "\<forall>k. can_write disk k"
  shows "\<exists>rows. dump_loop pf disk w steps idx pos c fs = Ok (idx', add_steps w rows fs) \<and> idx' = idx @ map argmax_f64 rows"
  using assms
proof (induction pf w steps idx pos c arbitrary: fs rule: greedy_loop.induct)
  case (1 pf w steps idx pos c)
  show ?case
  proof (cases "pos < steps \<and> pos < length idx")
    case True
    then obtain idx1 stop c1 where d: "decode_at pf w idx pos c = Ok (idx1, stop, c1)"
        "if stop then idx' = idx1 else greedy_loop pf w steps idx1 (pos + 1) c1 = Ok idx'"
      using "1.prems" by (subst (asm) greedy_loop.simps) (auto simp: and_then_Ok_iff split: prod.splits if_splits)
    have "\<exists>new. idx' = idx1 @ new" using d(2) greedy_extends by (cases stop) auto
    then have "\<forall>t\<in>set idx1. t < length (rw_tokens w)" using "1.prems"(2) by auto
    from dump_at_sim [OF d(1) this "1.prems"(3), of fs]
    obtain rows where r: "dump_at pf disk w idx pos c fs = Ok (idx1, stop, c1, add_steps w rows fs)" "idx1 = idx @ map argmax_f64 rows"
      by blast
    show ?thesis
    proof (cases stop)
      case True
      then show ?thesis using r d(2) \<open>pos < steps \<and> pos < length idx\<close>
        by (subst dump_loop.simps) auto
    next
      case False
      then obtain rows' where "dump_loop pf disk w steps idx1 (pos + 1) c1 (add_steps w rows fs) =
          Ok (idx', add_steps w rows' (add_steps w rows fs))" "idx' = idx1 @ map argmax_f64 rows'"
        using "1.IH" [of stop idx1 c1 "add_steps w rows fs"] True d "1.prems"(2,3) by auto
      then show ?thesis using r False True
        by (intro exI [of _ "rows @ rows'"]) (subst dump_loop.simps, auto)
    qed
  next
    case False
    then have "idx' = idx" using "1.prems"(1) by (subst (asm) greedy_loop.simps) (auto split: if_splits)
    then show ?thesis using False by (intro exI [of _ "[]"]) (subst dump_loop.simps, auto)
  qed
qed

lemma known_tokens_lookup: "lookup_tokens w ts = Ok ids \<Longrightarrow> known_tokens w ts = Ok ids"
  by (induction ts arbitrary: ids) (auto simp: and_then_Ok_iff)

text \<open>
  C25. The dump of logits and the runner generate the same tokens: on the same weights and input, with
  the same bound and a disk that takes the files, the runner prints the input tokens and
  the new ones, and the dump writes one line for each new token in order and the row of
  logits whose first maximum it is. There are at least one and at most \<open>n + 1\<close> new tokens, and none
  in either program when the prompt's length and the bound together do not fit into sixty-four
  bits.
\<close>

theorem dump_agrees_with_runner:
  assumes "load wfile = Ok w" "runnable pf w" "read_to_string infile = Some text"
    and "split_whitespace text = input" "input \<noteq> []" "set input \<subseteq> set (rw_tokens w)"
    and "\<forall>path. can_create disk path" "\<forall>k. can_write disk k" "n < 2 ^ 64"
  shows "\<exists>out ids files.
    runner_main pf load read_to_string \<lparr> rc_weights = wfile, rc_input = Some infile, rc_max_new_tokens = n, rc_inspect = False \<rparr> =
      Ok (Predicted (join_spaces (input @ map ((!) (rw_tokens w)) out))) \<and>
    dump_main pf load read_to_string disk \<lparr> dc_weights = wfile, dc_input = infile, dc_max_gen = n, dc_out_prefix = pre \<rparr> =
      Ok (ids @ out, files) \<and>
    argmax_lines files = map (argmax_line w) out \<and> map argmax_f64 (logits_rows files) = out \<and>
    (if length input + n < 2 ^ 64 then 1 \<le> length out \<and> length out \<le> n + 1 else out = [])"
proof -
  obtain ids out c where g: "lookup_tokens w input = Ok ids"
      "kv_new (rh_n_layers (rw_header w)) (rh_n_heads (rw_header w)) (rh_d_model (rw_header w)) = Ok c"
      "greedy_loop pf w (usize_add (length ids) n) ids 0 c = Ok (ids @ out)"
      "token_strings w (ids @ out) = Ok (input @ map ((!) (rw_tokens w)) out)"
    and out: "\<forall>t\<in>set (ids @ out). t < rh_vocab (rw_header w)" "length out \<le> token_limit (length input) n"
      "length out = token_limit (length input) n \<or> out \<noteq> []"
    using generate_ids [OF assms(2,5,6,9)] by blast
  have "\<forall>t\<in>set (ids @ out). t < length (rw_tokens w)"
    using out(1) assms(2) by (auto simp: runnable_def weights_ok_def Let_def)
  then obtain rows where "dump_loop pf disk w (usize_add (length ids) n) ids 0 c \<lparr> logits_rows = [], argmax_lines = [] \<rparr> =
      Ok (ids @ out, add_steps w rows \<lparr> logits_rows = [], argmax_lines = [] \<rparr>)" "out = map argmax_f64 rows"
    using dump_loop_sim [OF g(3) _ assms(8)] by fastforce
  moreover have "if length input + n < 2 ^ 64 then 1 \<le> length out \<and> length out \<le> n + 1 else out = []"
    using out(2,3) by (cases out) (auto simp: token_limit_def split: if_splits)
  ultimately show ?thesis
    using g assms known_tokens_lookup [OF g(1)]
    by (intro exI [of _ out] exI [of _ ids] exI [of _ "add_steps w rows \<lparr> logits_rows = [], argmax_lines = [] \<rparr>"])
       (simp add: runner_main_def runner_generate_def transformer_generate_def dump_main_def add_steps_def)
qed

lemma tiny_runnable: "runnable plain_platform tiny_model"
  using plain_platform_ok by (simp add: runnable_def weights_ok_def layer_ok_def tiny_model_def zeros_ok)

theorem dump_agrees_with_runner_witness:
  "\<exists>out ids files.
    runner_main plain_platform (\<lambda>_. Ok tiny_model) (\<lambda>_. Some [97])
      \<lparr> rc_weights = [], rc_input = Some [], rc_max_new_tokens = 2, rc_inspect = False \<rparr> =
      Ok (Predicted (join_spaces ([[97]] @ map ((!) (rw_tokens tiny_model)) out))) \<and>
    dump_main plain_platform (\<lambda>_. Ok tiny_model) (\<lambda>_. Some [97]) \<lparr> can_create = \<lambda>_. True, can_write = \<lambda>_. True \<rparr>
      \<lparr> dc_weights = [], dc_input = [], dc_max_gen = 2, dc_out_prefix = [] \<rparr> = Ok (ids @ out, files) \<and>
    argmax_lines files = map (argmax_line tiny_model) out \<and> map argmax_f64 (logits_rows files) = out \<and>
    1 \<le> length out \<and> length out \<le> 3"
proof -
  have "split_whitespace [97] = [[97]]" using split_join [of "[[97]]"] by (simp add: token_ok_def)
  moreover have "set [[97]] \<subseteq> set (rw_tokens tiny_model)" by (simp add: tiny_model_def)
  ultimately show ?thesis
    using dump_agrees_with_runner [where load = "\<lambda>_. Ok tiny_model" and w = tiny_model and pf = plain_platform and n = 2
        and read_to_string = "\<lambda>_. Some [97]" and wfile = "[]" and infile = "[]" and input = "[[97]]"
        and disk = "\<lparr> can_create = \<lambda>_. True, can_write = \<lambda>_. True \<rparr>" and pre = "[]"]
    by (simp add: tiny_runnable)
qed

section \<open>The sweep\<close>

definition vector_passes :: "platform \<Rightarrow> gate_cli \<Rightarrow> gate_kind \<Rightarrow> usize \<Rightarrow> bool" where
  "vector_passes pf args kd i \<longleftrightarrow>
     (\<exists>w out rng'. gen_vector (gc_primitive args) (gate_rng args i) = Ok ((w, out), rng') \<and>
        gate_answer pf kd (gate_max_new (gc_primitive args)) w = Ok out)"

lemma gate_vector_tally:
  assumes "gate_vector pf args kd i t = Ok t'"
  shows "gt_pass t' + gt_fail t' = gt_pass t + gt_fail t + 1 \<and> gt_fail t \<le> gt_fail t' \<and>
    (gt_fail t' = gt_fail t \<longrightarrow> vector_passes pf args kd i)"
proof -
  obtain w out rng' where v: "gen_vector (gc_primitive args) (gate_rng args i) = Ok ((w, out), rng')"
    using assms by (auto simp: gate_vector_def and_then_Ok_iff)
  show ?thesis
  proof (cases "gate_answer pf kd (gate_max_new (gc_primitive args)) w")
    case (Ok got)
    then show ?thesis using assms v
      by (cases "got = out") (auto simp: gate_vector_def vector_passes_def)
  qed (use assms v in \<open>auto simp: gate_vector_def\<close>)
qed

lemma gate_vectors_tally:
  "for_each is (gate_vector pf args kd) t = Ok t' \<Longrightarrow>
     gt_pass t' + gt_fail t' = gt_pass t + gt_fail t + length is \<and> gt_fail t \<le> gt_fail t' \<and>
     (gt_fail t' = gt_fail t \<longrightarrow> (\<forall>i\<in>set is. vector_passes pf args kd i))"
proof (induction "is" arbitrary: t)
  case (Cons i "is")
  then obtain t1 where t1: "gate_vector pf args kd i t = Ok t1" "for_each is (gate_vector pf args kd) t1 = Ok t'"
    by (auto simp: and_then_Ok_iff)
  show ?case using gate_vector_tally [OF t1(1)] Cons.IH [OF t1(2)] by auto
qed simp

text \<open>
  C24. A sweep of the gate that exits with success has checked every vector: as many vectors passed as
  were asked for, and on each the loaded model returned exactly what the ternary network that
  replaces the primitive computes on the same witness.
\<close>

theorem gate_success_agrees_with_networks:
  assumes "gate_main pf load args = Ok (tally, 0)" "gc_primitive args \<in> gate_primitives"
  shows "gt_pass tally = gc_count args \<and> (\<exists>kd. gate_load load (gc_repo_root args) (gc_primitive args) = Ok kd \<and>
    (\<forall>i < gc_count args. \<exists>w out rng'. gen_vector (gc_primitive args) (gate_rng args i) = Ok ((w, out), rng') \<and>
       gate_answer pf kd (gate_max_new (gc_primitive args)) w = Ok out \<and>
       ternary_answer xof (gc_primitive args) w = Ok out))"
proof -
  obtain kd where kd: "gate_load load (gc_repo_root args) (gc_primitive args) = Ok kd"
      "for_each [0..<gc_count args] (gate_vector pf args kd) \<lparr> gt_pass = 0, gt_fail = 0, gt_examples = [] \<rparr> = Ok tally"
      "gt_fail tally = 0"
    using assms(1) by (auto simp: gate_main_def and_then_Ok_iff split: if_splits)
  note t = gate_vectors_tally [OF kd(2)]
  have "\<exists>w out rng'. gen_vector (gc_primitive args) (gate_rng args i) = Ok ((w, out), rng') \<and>
      gate_answer pf kd (gate_max_new (gc_primitive args)) w = Ok out \<and> ternary_answer xof (gc_primitive args) w = Ok out"
    if "i < gc_count args" for i
  proof -
    have "vector_passes pf args kd i" using t kd(3) that by simp
    then show ?thesis
      using vector_agrees [OF assms(2), of "gate_rng args i" xof] by (auto simp: vector_passes_def)
  qed
  then show ?thesis using kd t by auto
qed

text \<open>A model without layers whose head is zero always predicts its first token.\<close>

lemma f64_gt_irrefl: "\<not> f64_gt v v"
  by (cases v) (auto simp: f64_gt_def)

lemma argmax_constant: "argmax_f64 (replicate n v) = 0"
proof -
  have stay: "fst (fold (\<lambda>(i, u) (b, m). if f64_gt u m then (i, u) else (b, m)) (enumerate k (replicate n v)) (b, m)) = b"
    if "\<not> f64_gt v m" for n k b m
    using that by (induction n arbitrary: k) simp_all
  show ?thesis
    by (cases n) (simp_all add: argmax_f64_def stay f64_gt_irrefl)
qed

lemma zero_head_logits:
  assumes "length x = d"
  shows "\<exists>v. matvec (Dense (zeros r d)) x = Ok (replicate r v)"
proof -
  have m: "matrix_ok (zeros r d)" using zeros_ok [of r d] by (auto simp: linear_ok_def)
  have "matvec (Dense (zeros r d)) x = Ok (map (\<lambda>i. entry_sum x (all_entries (zeros r d) i) pos_zero) [0..<r])"
    using m assms by (auto simp: zeros_def intro!: fill_vector dense_row_entry_sum)
  moreover have "all_entries (zeros r d) i = map (\<lambda>j. (j, pos_zero)) [0..<d]" if "i < r" for i
    using cell_bound [OF that] by (simp add: all_entries_def mget_def zeros_def)
  ultimately have "matvec (Dense (zeros r d)) x = Ok (map (\<lambda>i. entry_sum x (map (\<lambda>j. (j, pos_zero)) [0..<d]) pos_zero) [0..<r])"
    by (simp cong: map_cong)
  then show ?thesis by (auto simp: map_replicate_const)
qed

lemma decode_zero_head:
  assumes "runnable pf w" "rw_head w = Dense (zeros (rh_vocab (rw_header w)) (rh_d_model (rw_header w)))"
    and "pos < length idx" "\<forall>t\<in>set idx. t < rh_vocab (rw_header w)" "cache_fits w c"
  shows "\<exists>c'. cache_fits w c' \<and> decode_at pf w idx pos c =
    Ok (if pos + 1 = length idx then (idx @ [0], is_stop w 0, c') else (idx, False, c'))"
proof -
  obtain x c' where x: "step pf w c (idx ! pos) pos = Ok (x, c')" "length x = rh_d_model (rw_header w)" "cache_fits w c'"
    using step_shape [of pf w "idx ! pos" c pos] assms by (auto simp: runnable_def)
  obtain v where "matvec (rw_head w) x = Ok (replicate (rh_vocab (rw_header w)) v)"
    using zero_head_logits [OF x(2)] assms(2) by auto
  then show ?thesis using x by (auto simp: decode_at_def argmax_constant is_stop_def)
qed

lemma greedy_zero_head:
  assumes "runnable pf w" "rw_head w = Dense (zeros (rh_vocab (rw_header w)) (rh_d_model (rw_header w)))" "is_stop w 0"
  shows "pos < length idx \<Longrightarrow> length idx \<le> steps \<Longrightarrow> \<forall>t\<in>set idx. t < rh_vocab (rw_header w) \<Longrightarrow> cache_fits w c \<Longrightarrow>
    greedy_loop pf w steps idx pos c = Ok (idx @ [0])"
proof (induction "length idx - pos" arbitrary: pos c)
  case (Suc n)
  obtain c' where "cache_fits w c'" "decode_at pf w idx pos c =
      Ok (if pos + 1 = length idx then (idx @ [0], is_stop w 0, c') else (idx, False, c'))"
    using decode_zero_head [OF assms(1,2) Suc.prems(1,3,4)] by blast
  then show ?case
    using Suc.hyps(1) [of "pos + 1" c'] Suc.hyps(2) Suc.prems assms(3)
    by (subst greedy_loop.simps) auto
qed simp

definition const_tokens :: "u8 \<Rightarrow> rstring list" where
  "const_tokens b = (ascii ''out('' @ byte_token b @ [41]) # map (\<lambda>i. byte_token (of_nat i)) [0..<256] @ [ascii ''start'', commit_token]"

definition const_model :: "u8 \<Rightarrow> runner_weights" where
  "const_model b =
     \<lparr> rw_header = \<lparr> rh_vocab = 259, rh_d_model = 3, rh_n_layers = 0, rh_n_heads = 3, rh_d_ffn_per_layer = [], rh_stop_token_id = 0 \<rparr>,
       rw_tokens = const_tokens b, rw_tok_to_idx = index_tokens (const_tokens b), rw_tok_embed = zeros 259 3,
       rw_layers = [], rw_head = Dense (zeros 259 3) \<rparr>"

lemma const_runnable: "runnable plain_platform (const_model b)"
  using plain_platform_ok zeros_ok [of 259 3]
  by (simp add: runnable_def weights_ok_def const_model_def linear_ok_def const_tokens_def)

lemma render_known: "set (render_spec witness) \<subseteq> set (rw_tokens (const_model b))"
proof -
  have "byte_token x \<in> (\<lambda>i. byte_token (of_nat i)) ` {0..<256}" for x :: u8
    by (rule image_eqI [of _ _ "unat x"]) simp_all
  moreover have "ascii ''00'' = byte_token 0" by (simp add: ascii_def byte_token_def hex_str_def hex_digit_def)
  ultimately show ?thesis by (auto simp: render_spec_def const_model_def const_tokens_def)
qed

lemma strip_prefix_short: "length t < length p \<Longrightarrow> strip_prefix p t = None"
  by (auto simp: strip_prefix_def dest: arg_cong [of _ _ length])

lemma parse_prompt: "parse_out_bytes (render_spec witness) = []"
proof -
  have "strip_prefix (ascii ''out('') (byte_token x) = None" for x :: u8
    by (rule strip_prefix_short) (simp add: byte_token_def hex_str_def)
  moreover have "strip_prefix (ascii ''out('') t = None" if "t = ascii ''start'' \<or> t = ascii ''00'' \<or> t = commit_token" for t
    using that by (auto simp: strip_prefix_def ascii_def commit_token_def)
  ultimately have "out_byte t = []" if "t \<in> set (render_spec witness)" for t
    using that by (auto simp: render_spec_def out_byte_def)
  then show ?thesis by (simp add: parse_out_bytes_def)
qed

lemma const_pass:
  assumes "length (render_spec witness) + n < 2 ^ 64"
  shows "run_one_pass plain_platform (const_model b) witness n = Ok [b]"
proof -
  let ?w = "const_model b" and ?in = "render_spec witness"
  have "?in \<noteq> []" "n < 2 ^ 64" using assms by (simp_all add: render_spec_def)
  then obtain ids out c where g0: "lookup_tokens ?w ?in = Ok ids" "length ids = length ?in"
      "kv_new (rh_n_layers (rw_header ?w)) (rh_n_heads (rw_header ?w)) (rh_d_model (rw_header ?w)) = Ok c"
      "greedy_loop plain_platform ?w (usize_add (length ids) n) ids 0 c = Ok (ids @ out)"
      "token_strings ?w (ids @ out) = Ok (?in @ map ((!) (rw_tokens ?w)) out)" "\<forall>t\<in>set (ids @ out). t < rh_vocab (rw_header ?w)"
    using generate_ids [OF const_runnable _ render_known, of witness n b] by blast
  have sum: "usize_add (length ids) n = length ids + n" using g0(2) assms by (simp add: usize_add_def)
  note g = g0(1,3) g0(4) [unfolded sum] g0(5,6)
  have "cache_fits ?w c"
    using kv.new_fits [of "rh_n_heads (rw_header ?w)" "rh_d_model (rw_header ?w)" "rh_n_layers (rw_header ?w)"] g(2)
    by (auto simp: cache_fits_def const_model_def)
  moreover have "0 < length ids"
    using g(1) by (cases ids) (auto simp: render_spec_def and_then_Ok_iff)
  ultimately have "out = [0]"
    using greedy_zero_head [OF const_runnable, of b 0 ids "length ids + n" c] g(3,5)
    by (auto simp: const_model_def is_stop_def as_i32_def)
  then have "runner_generate plain_platform ?w ?in \<lparr> max_new_tokens = n \<rparr> = Ok (?in @ [ascii ''out('' @ byte_token b @ [41]])"
    using g by (simp add: runner_generate_def transformer_generate_def sum) (simp add: const_model_def const_tokens_def)
  then show ?thesis
    using parse_prompt [of witness] out_byte_token [of b] by (simp add: run_one_pass_def parse_out_bytes_def)
qed

definition one_check :: gate_cli where
  "one_check = \<lparr> gc_primitive = ascii ''transfer_check'', gc_count = 1, gc_seed = 0, gc_print_failures = 5, gc_repo_root = [] \<rparr>"

definition check_answer :: u8 where
  "check_answer = (case gen_vector (ascii ''transfer_check'') (gate_rng one_check 0) of Ok ((_, out), _) \<Rightarrow> hd out | _ \<Rightarrow> 0)"

lemma one_check_passes:
  "gate_main plain_platform (\<lambda>_. Ok (const_model check_answer)) one_check = Ok (\<lparr> gt_pass = 1, gt_fail = 0, gt_examples = [] \<rparr>, 0)"
proof -
  have "\<exists>w k rng'. gen_vector (ascii ''transfer_check'') (gate_rng one_check 0) = Ok ((w, [k]), rng') \<and> length w = 32"
    by (simp add: gen_vector_def Let_def split_def)
  then obtain w k rng' where v: "gen_vector (ascii ''transfer_check'') (gate_rng one_check 0) = Ok ((w, [k]), rng')"
    and len: "length w = 32" by blast
  have pass: "run_one_pass plain_platform (const_model b) w (gate_max_new (ascii ''transfer_check'')) = Ok [b]" for b
    by (rule const_pass) (simp add: render_spec_def len gate_max_new_def)
  from v have "check_answer = k" by (simp add: check_answer_def)
  moreover have "weights_name (ascii ''transfer_check'') = Some (ascii ''transfer_check'')"
    by (simp add: weights_name_def)
  moreover have "ascii ''transfer_check'' \<noteq> ascii ''freeze_chain''" by (simp add: ascii_def)
  ultimately show ?thesis
    using v by (simp add: gate_main_def gate_load_def gate_vector_def one_check_def pass)
qed

theorem gate_success_agrees_with_networks_witness:
  "\<exists>kd w out rng'. gate_load (\<lambda>_. Ok (const_model check_answer)) [] (ascii ''transfer_check'') = Ok kd \<and>
     gen_vector (ascii ''transfer_check'') (gate_rng one_check 0) = Ok ((w, out), rng') \<and>
     gate_answer plain_platform kd 5000 w = Ok out \<and> ternary_answer (\<lambda>_ n. replicate n 0) (ascii ''transfer_check'') w = Ok out"
proof -
  have "gc_primitive one_check \<in> gate_primitives" by (simp add: one_check_def gate_primitives_def)
  moreover have "gate_max_new (ascii ''transfer_check'') = 5000" by (simp add: gate_max_new_def ascii_def)
  ultimately show ?thesis
    using gate_success_agrees_with_networks [OF one_check_passes, of "\<lambda>_ n. replicate n 0"] by (auto simp: one_check_def)
qed

text \<open>
  Two primitive names pass the table of weight files and then stop the sweep: with \<open>freeze_setup\<close> or
  \<open>freeze_apply\<close> the weights are loaded and the first vector panics.
\<close>

theorem gate_panics_on_single_freeze:
  assumes "gc_primitive args \<in> {ascii ''freeze_setup'', ascii ''freeze_apply''}" "0 < gc_count args" "\<And>f. load f = Ok (ws f)"
  shows "gate_main pf load args = Panic"
proof -
  have "gen_vector (gc_primitive args) rng = Panic" for rng using assms(1) by (auto simp: gen_vector_def ascii_def)
  moreover have "\<exists>kd. gate_load load (gc_repo_root args) (gc_primitive args) = Ok kd"
    using assms(1) by (auto simp: gate_load_def weights_name_def ascii_def assms(3))
  moreover have "[0..<gc_count args] = 0 # [1..<gc_count args]" using assms(2) by (simp add: upt_conv_Cons)
  ultimately show ?thesis by (auto simp: gate_main_def gate_vector_def)
qed

section \<open>The freeze passes\<close>

definition dig :: "nat \<Rightarrow> u8" where "dig n = of_nat (48 + n)"

lemma dig_facts:
  assumes "n < 10"
  shows "unat (dig n) - 48 = n" "48 \<le> dig n \<and> dig n \<le> 57" "dig n \<noteq> 43" "dig n \<noteq> 45" "32 < dig n \<and> dig n < 0x7F"
proof -
  have "unat (dig n) = 48 + n" using assms by (simp add: dig_def unat_of_nat_8 del: of_nat_add)
  then show "unat (dig n) - 48 = n" "48 \<le> dig n \<and> dig n \<le> 57" "dig n \<noteq> 43" "dig n \<noteq> 45" "32 < dig n \<and> dig n < 0x7F"
    using assms by (auto simp: word_le_nat_alt word_less_nat_alt)
qed

lemma decimal_digs:
  "decimal b = (let n = unat b in (if n \<ge> 100 then [dig (n div 100)] else []) @ (if n \<ge> 10 then [dig (n div 10 mod 10)] else []) @ [dig (n mod 10)])"
  unfolding decimal_def dig_def by (rule refl)

lemma small_digits: "unat b div 100 < 10" "unat b div 10 mod 10 < 10" "unat b mod 10 < 10" for b :: u8
  using unat_u8_less [of b] by (simp_all add: div_less_iff_less_mult del: unat_u8_less)

lemma digits_dig: "list_all (\<lambda>k. k < 10) ks \<Longrightarrow> digits_value acc (map dig ks) = Some (foldl (\<lambda>a k. 10 * a + k) acc ks)"
  by (induction ks arbitrary: acc) (simp_all add: dig_facts)

lemma parse_digs:
  assumes "list_all (\<lambda>k. k < 10) ks" "ks \<noteq> []" "foldl (\<lambda>a k. 10 * a + k) 0 ks = n" "n < 2 ^ 63"
  shows "parse_i64 (map dig ks) = Some (int n)"
  using assms digits_dig [OF assms(1), of 0] by (cases ks) (simp_all add: parse_i64_def dig_facts)

lemma decimal_split: "10 * (10 * (n div 100) + n div 10 mod 10) + n mod 10 = (n :: nat)"
proof -
  have "n div 100 = n div 10 div 10" using div_mult2_eq [of n 10 10] by simp
  then have "10 * (n div 100) + n div 10 mod 10 = n div 10" by (simp only: mult_div_mod_eq)
  then show ?thesis by (simp only: mult_div_mod_eq)
qed

lemma parse_decimal: "parse_i64 (decimal b) = Some (int (unat b))"
proof -
  let ?n = "unat b"
  let ?ks = "(if 100 \<le> ?n then [?n div 100] else []) @ (if 10 \<le> ?n then [?n div 10 mod 10] else []) @ [?n mod 10]"
  have "foldl (\<lambda>a k. 10 * a + k) 0 ?ks = ?n"
    using decimal_split [of ?n] by (cases "100 \<le> ?n"; cases "10 \<le> ?n") auto
  moreover have "?n < 2 ^ 63" by (rule less_trans [OF unat_u8_less]) simp
  ultimately have "parse_i64 (map dig ?ks) = Some (int ?n)"
    using small_digits [of b] by (intro parse_digs) simp_all
  moreover have "map dig ?ks = decimal b" by (simp add: decimal_digs Let_def)
  ultimately show ?thesis by simp
qed

lemma decimal_token: "token_ok (decimal b)"
  using dig_facts [OF small_digits(1)] dig_facts [OF small_digits(2)] dig_facts [OF small_digits(3)]
  by (simp add: decimal_digs token_ok_def Let_def)

lemma freeze_ints_decimal: "freeze_ints (map decimal bs) = Ok bs"
proof (induction bs)
  case (Cons b bs)
  have "int (unat b) \<le> 255" using unat_u8_le [of b] by linarith
  with Cons show ?case by (simp add: parse_decimal)
qed simp

text \<open>The integers a freeze model prints as decimal text separated by spaces are read back.\<close>

theorem freeze_pass_reads_decimal:
  assumes "runner_generate pf w (render_decimal_spec witness) \<lparr> max_new_tokens = n \<rparr> = Ok predicted"
    and "parse_out_bytes predicted = join_spaces (map decimal out)"
  shows "run_freeze_pass pf w witness n = Ok out"
proof -
  have toks: "list_all token_ok (map decimal out)" by (simp add: list_all_iff decimal_token)
  then have "ascii_text (join_spaces (map decimal out))"
    using join_spaces_bytes [OF toks] by (auto simp: ascii_text_def list_all_iff)
  then have "from_utf8_lossy (join_spaces (map decimal out)) = join_spaces (map decimal out)"
    using lossy_ascii [of _ "[]"] by simp
  then show ?thesis
    using assms by (simp add: run_freeze_pass_def split_join [OF toks] freeze_ints_decimal)
qed

end
