(* ===== verification/Protocol.thy ===== *)
theory Protocol
  imports Contracts Crypto "HOL-Library.AList"
begin

text \<open>
  The agents' negotiation protocol, \<open>agent_protocol/src\<close>: the five signed messages and their
  canonical bytes (\<open>message.rs\<close>), the proposal log with its state machine (\<open>state_machine.rs\<close>),
  dispute resolution by re-execution (\<open>dispute.rs\<close>), agent registrations (\<open>registry.rs\<close>) and
  reputation counters (\<open>reputation.rs\<close>). A Rust \<open>HashMap\<close> is an association list, whose order
  stands for the iteration order.
\<close>

section \<open>error.rs\<close>

datatype protocol_error =
    SignatureInvalid
  | ProposalHashMismatch hash hash
  | IllegalTransition string string
  | UnknownProposal hash
  | Expired_error u64 u64
  | Contract_error contract_error
  | Ed25519_error

section \<open>message.rs\<close>

record propose =
  pr_program_hash :: bytes
  parameters :: bytes
  pr_from :: bytes
  pr_to :: bytes
  valid_from_unix :: u64
  valid_until_unix :: u64
  pr_nonce :: u64
  pr_sig :: bytes

record accept =
  ac_proposal_hash :: hash
  ac_by :: bytes
  accepted_at_unix :: u64
  ac_sig :: bytes

record reject =
  rj_proposal_hash :: hash
  rj_by :: bytes
  reason :: rstring
  rejected_at_unix :: u64
  rj_sig :: bytes

record counter_propose =
  original_proposal_hash :: hash
  new_parameters :: bytes
  cp_by :: bytes
  cp_nonce :: u64
  cp_sig :: bytes

record execute =
  ex_proposal_hash :: hash
  ex_witness :: bytes
  expected_output :: bytes
  ex_by :: bytes
  executed_at_unix :: u64
  ex_sig :: bytes

datatype protocol_message =
  Msg_Propose propose | Msg_Accept accept | Msg_Reject reject | Msg_Counter counter_propose | Msg_Execute execute

definition push_bytes :: "bytes \<Rightarrow> bytes" where
  "push_bytes b = u32_be (of_nat (length b)) @ b"

definition push_str :: "rstring \<Rightarrow> bytes" where
  "push_str s = u32_be (of_nat (length s)) @ s"

definition verify_sig :: "ed25519 \<Rightarrow> bytes \<Rightarrow> bytes \<Rightarrow> bytes \<Rightarrow> (unit, protocol_error) res" where
  "verify_sig ed pk body sig =
     (if \<not> ed_key_ok ed pk then Err Ed25519_error
      else if ed_check ed pk body sig then Ok () else Err SignatureInvalid)"

definition propose_bytes :: "propose \<Rightarrow> bytes" where
  "propose_bytes p =
     ascii ''PSL-PROPOSE-V2'' @ pr_program_hash p @ push_bytes (parameters p) @ pr_from p @ pr_to p
     @ u64_be (valid_from_unix p) @ u64_be (valid_until_unix p) @ u64_be (pr_nonce p)"

definition proposal_hash :: "xof \<Rightarrow> propose \<Rightarrow> hash" where
  "proposal_hash xof p = xof (propose_bytes p) 32"

definition propose_sign ::
  "ed25519 \<Rightarrow> bytes \<Rightarrow> bytes \<Rightarrow> bytes \<Rightarrow> bytes \<Rightarrow> u64 \<Rightarrow> u64 \<Rightarrow> u64 \<Rightarrow> propose" where
  "propose_sign ed sk program params to valid_from valid_until n =
     (let p = \<lparr> pr_program_hash = program, parameters = params, pr_from = ed_public ed sk, pr_to = to,
                valid_from_unix = valid_from, valid_until_unix = valid_until, pr_nonce = n,
                pr_sig = replicate 64 0 \<rparr>
      in p\<lparr>pr_sig := ed_sign ed sk (propose_bytes p)\<rparr>)"

definition propose_verify :: "ed25519 \<Rightarrow> propose \<Rightarrow> (unit, protocol_error) res" where
  "propose_verify ed p = verify_sig ed (pr_from p) (propose_bytes p) (pr_sig p)"

definition accept_bytes :: "accept \<Rightarrow> bytes" where
  "accept_bytes a = ascii ''PSL-ACCEPT-V1'' @ ac_proposal_hash a @ ac_by a @ u64_be (accepted_at_unix a)"

definition accept_sign :: "ed25519 \<Rightarrow> bytes \<Rightarrow> hash \<Rightarrow> u64 \<Rightarrow> accept" where
  "accept_sign ed sk h at =
     (let a = \<lparr> ac_proposal_hash = h, ac_by = ed_public ed sk, accepted_at_unix = at, ac_sig = replicate 64 0 \<rparr>
      in a\<lparr>ac_sig := ed_sign ed sk (accept_bytes a)\<rparr>)"

definition accept_verify :: "ed25519 \<Rightarrow> accept \<Rightarrow> (unit, protocol_error) res" where
  "accept_verify ed a = verify_sig ed (ac_by a) (accept_bytes a) (ac_sig a)"

definition reject_bytes :: "reject \<Rightarrow> bytes" where
  "reject_bytes r =
     ascii ''PSL-REJECT-V1'' @ rj_proposal_hash r @ rj_by r @ push_str (reason r) @ u64_be (rejected_at_unix r)"

definition reject_sign :: "ed25519 \<Rightarrow> bytes \<Rightarrow> hash \<Rightarrow> rstring \<Rightarrow> u64 \<Rightarrow> reject" where
  "reject_sign ed sk h why at =
     (let r = \<lparr> rj_proposal_hash = h, rj_by = ed_public ed sk, reason = why, rejected_at_unix = at,
                rj_sig = replicate 64 0 \<rparr>
      in r\<lparr>rj_sig := ed_sign ed sk (reject_bytes r)\<rparr>)"

definition reject_verify :: "ed25519 \<Rightarrow> reject \<Rightarrow> (unit, protocol_error) res" where
  "reject_verify ed r = verify_sig ed (rj_by r) (reject_bytes r) (rj_sig r)"

definition counter_bytes :: "counter_propose \<Rightarrow> bytes" where
  "counter_bytes c =
     ascii ''PSL-COUNTER-V1'' @ original_proposal_hash c @ push_bytes (new_parameters c) @ cp_by c
     @ u64_be (cp_nonce c)"

definition counter_sign :: "ed25519 \<Rightarrow> bytes \<Rightarrow> hash \<Rightarrow> bytes \<Rightarrow> u64 \<Rightarrow> counter_propose" where
  "counter_sign ed sk h params n =
     (let c = \<lparr> original_proposal_hash = h, new_parameters = params, cp_by = ed_public ed sk, cp_nonce = n,
                cp_sig = replicate 64 0 \<rparr>
      in c\<lparr>cp_sig := ed_sign ed sk (counter_bytes c)\<rparr>)"

definition counter_verify :: "ed25519 \<Rightarrow> counter_propose \<Rightarrow> (unit, protocol_error) res" where
  "counter_verify ed c = verify_sig ed (cp_by c) (counter_bytes c) (cp_sig c)"

definition execute_bytes :: "execute \<Rightarrow> bytes" where
  "execute_bytes e =
     ascii ''PSL-EXECUTE-V1'' @ ex_proposal_hash e @ push_bytes (ex_witness e) @ push_bytes (expected_output e)
     @ ex_by e @ u64_be (executed_at_unix e)"

definition execute_sign :: "ed25519 \<Rightarrow> bytes \<Rightarrow> hash \<Rightarrow> bytes \<Rightarrow> bytes \<Rightarrow> u64 \<Rightarrow> execute" where
  "execute_sign ed sk h w out at =
     (let e = \<lparr> ex_proposal_hash = h, ex_witness = w, expected_output = out, ex_by = ed_public ed sk,
                executed_at_unix = at, ex_sig = replicate 64 0 \<rparr>
      in e\<lparr>ex_sig := ed_sign ed sk (execute_bytes e)\<rparr>)"

definition execute_verify :: "ed25519 \<Rightarrow> execute \<Rightarrow> (unit, protocol_error) res" where
  "execute_verify ed e = verify_sig ed (ex_by e) (execute_bytes e) (ex_sig e)"

section \<open>state\_machine.rs\<close>

datatype proposal_state =
    Proposed propose
  | Accepted propose accept
  | Rejected propose reject
  | CounterProposed propose counter_propose
  | Executed propose accept execute
  | Expired propose u64

fun label :: "proposal_state \<Rightarrow> string" where
  "label (Proposed _) = ''Proposed''"
| "label (Accepted _ _) = ''Accepted''"
| "label (Rejected _ _) = ''Rejected''"
| "label (CounterProposed _ _) = ''CounterProposed''"
| "label (Executed _ _ _) = ''Executed''"
| "label (Expired _ _) = ''Expired''"

fun is_terminal :: "proposal_state \<Rightarrow> bool" where
  "is_terminal (Rejected _ _) = True"
| "is_terminal (Executed _ _ _) = True"
| "is_terminal (Expired _ _) = True"
| "is_terminal _ = False"

record proposal_log =
  by_hash :: "(hash \<times> proposal_state) list"

definition log_new :: proposal_log where "log_new = \<lparr> by_hash = [] \<rparr>"

definition log_get :: "proposal_log \<Rightarrow> hash \<Rightarrow> proposal_state option" where
  "log_get lg h = map_of (by_hash lg) h"

definition log_insert :: "hash \<Rightarrow> proposal_state \<Rightarrow> proposal_log \<Rightarrow> proposal_log" where
  "log_insert h st lg = lg\<lparr>by_hash := AList.update h st (by_hash lg)\<rparr>"

definition log_remove :: "hash \<Rightarrow> proposal_log \<Rightarrow> proposal_log" where
  "log_remove h lg = lg\<lparr>by_hash := AList.delete h (by_hash lg)\<rparr>"

text \<open>Each operation returns the log afterwards and its verdict.\<close>

type_synonym 'a log_op = "proposal_log \<times> ('a, protocol_error) res"

definition guard_sig :: "(unit, protocol_error) res \<Rightarrow> proposal_log \<Rightarrow> 'a log_op \<Rightarrow> 'a log_op" where
  "guard_sig v lg k = (case v of Ok _ \<Rightarrow> k | Err e \<Rightarrow> (lg, Err e) | Panic \<Rightarrow> (lg, Panic))"

definition record_propose :: "xof \<Rightarrow> ed25519 \<Rightarrow> propose \<Rightarrow> proposal_log \<Rightarrow> hash log_op" where
  "record_propose xof ed p lg =
     guard_sig (propose_verify ed p) lg
       (let h = proposal_hash xof p
        in (if log_get lg h = None then log_insert h (Proposed p) lg else lg, Ok h))"

definition apply_accept :: "ed25519 \<Rightarrow> accept \<Rightarrow> proposal_log \<Rightarrow> unit log_op" where
  "apply_accept ed a lg =
     guard_sig (accept_verify ed a) lg
       (let h = ac_proposal_hash a
        in case log_get lg h of
             None \<Rightarrow> (lg, Err (UnknownProposal h))
           | Some st \<Rightarrow>
               let lg' = log_remove h lg
               in case st of
                    Proposed p \<Rightarrow>
                      if ac_by a \<noteq> pr_to p then (log_insert h (Proposed p) lg', Err SignatureInvalid)
                      else if accepted_at_unix a > valid_until_unix p
                      then (log_insert h (Expired p (accepted_at_unix a)) lg',
                            Err (Expired_error 0 (accepted_at_unix a)))
                      else (log_insert h (Accepted p a) lg', Ok ())
                  | _ \<Rightarrow> (log_insert h st lg', Err (IllegalTransition (label st) ''accept'')))"

definition apply_reject :: "ed25519 \<Rightarrow> reject \<Rightarrow> proposal_log \<Rightarrow> unit log_op" where
  "apply_reject ed r lg =
     guard_sig (reject_verify ed r) lg
       (let h = rj_proposal_hash r
        in case log_get lg h of
             None \<Rightarrow> (lg, Err (UnknownProposal h))
           | Some st \<Rightarrow>
               let lg' = log_remove h lg
               in case st of
                    Proposed p \<Rightarrow>
                      if rj_by r \<noteq> pr_to p then (log_insert h (Proposed p) lg', Err SignatureInvalid)
                      else (log_insert h (Rejected p r) lg', Ok ())
                  | _ \<Rightarrow> (log_insert h st lg', Err (IllegalTransition (label st) ''reject'')))"

definition apply_counter :: "ed25519 \<Rightarrow> counter_propose \<Rightarrow> proposal_log \<Rightarrow> unit log_op" where
  "apply_counter ed c lg =
     guard_sig (counter_verify ed c) lg
       (let h = original_proposal_hash c
        in case log_get lg h of
             None \<Rightarrow> (lg, Err (UnknownProposal h))
           | Some st \<Rightarrow>
               let lg' = log_remove h lg
               in case st of
                    Proposed p \<Rightarrow>
                      if cp_by c \<noteq> pr_to p then (log_insert h (Proposed p) lg', Err SignatureInvalid)
                      else (log_insert h (CounterProposed p c) lg', Ok ())
                  | _ \<Rightarrow> (log_insert h st lg', Err (IllegalTransition (label st) ''counter'')))"

definition apply_execute :: "ed25519 \<Rightarrow> execute \<Rightarrow> proposal_log \<Rightarrow> unit log_op" where
  "apply_execute ed e lg =
     guard_sig (execute_verify ed e) lg
       (let h = ex_proposal_hash e
        in case log_get lg h of
             None \<Rightarrow> (lg, Err (UnknownProposal h))
           | Some st \<Rightarrow>
               let lg' = log_remove h lg
               in case st of
                    Accepted p a \<Rightarrow>
                      if ex_by e \<noteq> pr_from p then (log_insert h (Accepted p a) lg', Err SignatureInvalid)
                      else (log_insert h (Executed p a e) lg', Ok ())
                  | _ \<Rightarrow> (log_insert h st lg', Err (IllegalTransition (label st) ''execute'')))"

fun is_due :: "u64 \<Rightarrow> proposal_state \<Rightarrow> bool" where
  "is_due now (Proposed p) \<longleftrightarrow> now > valid_until_unix p"
| "is_due now _ \<longleftrightarrow> False"

fun expire_state :: "u64 \<Rightarrow> proposal_state \<Rightarrow> proposal_state" where
  "expire_state now (Proposed p) = (if now > valid_until_unix p then Expired p now else Proposed p)"
| "expire_state now st = st"

definition expire_due :: "u64 \<Rightarrow> proposal_log \<Rightarrow> proposal_log \<times> hash list" where
  "expire_due now lg =
     (lg\<lparr>by_hash := map (\<lambda>(h, st). (h, expire_state now st)) (by_hash lg)\<rparr>,
      map fst (filter (\<lambda>(h, st). is_due now st) (by_hash lg)))"

section \<open>dispute.rs\<close>

record dispute =
  di_proposal_hash :: hash
  di_witness :: bytes
  claimed_output :: bytes
  disputer :: bytes
  opened_at_unix :: u64
  di_sig :: bytes

definition dispute_bytes :: "dispute \<Rightarrow> bytes" where
  "dispute_bytes d =
     ascii ''PSL-DISPUTE-V1'' @ di_proposal_hash d @ push_bytes (di_witness d) @ push_bytes (claimed_output d)
     @ disputer d @ u64_be (opened_at_unix d)"

definition dispute_sign :: "ed25519 \<Rightarrow> bytes \<Rightarrow> hash \<Rightarrow> bytes \<Rightarrow> bytes \<Rightarrow> u64 \<Rightarrow> dispute" where
  "dispute_sign ed sk h w out at =
     (let d = \<lparr> di_proposal_hash = h, di_witness = w, claimed_output = out, disputer = ed_public ed sk,
                opened_at_unix = at, di_sig = replicate 64 0 \<rparr>
      in d\<lparr>di_sig := ed_sign ed sk (dispute_bytes d)\<rparr>)"

definition dispute_verify :: "ed25519 \<Rightarrow> dispute \<Rightarrow> (unit, protocol_error) res" where
  "dispute_verify ed d =
     (if \<not> ed_key_ok ed (disputer d) then Err Ed25519_error
      else if ed_check ed (disputer d) (dispute_bytes d) (di_sig d) then Ok () else Err SignatureInvalid)"

datatype dispute_outcome = SlashExecutor bytes bytes | DismissDispute bytes bytes

definition resolve_dispute ::
  "ed25519 \<Rightarrow> ternary_program \<Rightarrow> propose \<Rightarrow> execute \<Rightarrow> dispute \<Rightarrow> (dispute_outcome, protocol_error) res" where
  "resolve_dispute ed program p e d =
     and_then (propose_verify ed p) (\<lambda>_.
     and_then (execute_verify ed e) (\<lambda>_.
     and_then (dispute_verify ed d) (\<lambda>_.
     if di_proposal_hash d \<noteq> ex_proposal_hash e
     then Err (ProposalHashMismatch (ex_proposal_hash e) (di_proposal_hash d))
     else and_then (map_err Contract_error (tp_run program (di_witness d))) (\<lambda>actual.
       if expected_output e = actual then Ok (DismissDispute (disputer d) actual)
       else Ok (SlashExecutor (ex_by e) actual)))))"

section \<open>registry.rs\<close>

record agent_registration =
  ar_pubkey :: bytes
  endpoint :: rstring
  supported_contracts :: "rstring list"
  custom_program_hashes :: "hash list"
  display_name :: rstring
  fee_schedule :: rstring
  bond_amount :: u128
  ar_version :: u64
  ar_sig :: bytes

definition push_str_list :: "rstring list \<Rightarrow> bytes" where
  "push_str_list ss = u32_be (of_nat (length ss)) @ concat (map push_str ss)"

definition registration_bytes :: "agent_registration \<Rightarrow> bytes" where
  "registration_bytes r =
     ascii ''PSL-AGENT-REGISTRATION-V1'' @ ar_pubkey r @ push_str (endpoint r)
     @ push_str_list (supported_contracts r)
     @ u32_be (of_nat (length (custom_program_hashes r))) @ concat (custom_program_hashes r)
     @ push_str (display_name r) @ push_str (fee_schedule r) @ u128_be (bond_amount r) @ u64_be (ar_version r)"

definition registration_sign ::
  "ed25519 \<Rightarrow> bytes \<Rightarrow> rstring \<Rightarrow> rstring list \<Rightarrow> hash list \<Rightarrow> rstring \<Rightarrow> rstring \<Rightarrow> u128 \<Rightarrow> u64 \<Rightarrow> agent_registration" where
  "registration_sign ed sk ep cs hs nm fee bond ver =
     (let r = \<lparr> ar_pubkey = ed_public ed sk, endpoint = ep, supported_contracts = cs, custom_program_hashes = hs,
                display_name = nm, fee_schedule = fee, bond_amount = bond, ar_version = ver, ar_sig = [] \<rparr>
      in r\<lparr>ar_sig := ed_sign ed sk (registration_bytes r)\<rparr>)"

definition registration_verify :: "ed25519 \<Rightarrow> agent_registration \<Rightarrow> (unit, protocol_error) res" where
  "registration_verify ed r =
     (if \<not> ed_key_ok ed (ar_pubkey r) then Err Ed25519_error
      else if ed_check ed (ar_pubkey r) (registration_bytes r) (ar_sig r) then Ok () else Err SignatureInvalid)"

definition supports :: "agent_registration \<Rightarrow> rstring \<Rightarrow> bool" where
  "supports r c = list_ex (\<lambda>x. x = c) (supported_contracts r)"

section \<open>reputation.rs\<close>

record reputation_counters =
  initiated :: u64
  completed :: u64
  disputed :: u64
  disputes_lost :: u64

definition counters_default :: reputation_counters where
  "counters_default = \<lparr> initiated = 0, completed = 0, disputed = 0, disputes_lost = 0 \<rparr>"

definition score :: "reputation_counters \<Rightarrow> u32" where
  "score c =
     (if initiated c = 0 then 500
      else let completion = (ucast (completed c) * 1000 :: u128) div ucast (max (initiated c) 1);
               penalty = (if disputed c = 0 then 0
                          else (ucast (disputes_lost c) * 1000 :: u128) div ucast (max (disputed c) 1));
               raw = saturating_sub completion penalty
           in ucast (min raw 1000))"

record reputation_log =
  by_agent :: "bytes \<rightharpoonup> reputation_counters"

definition reputation_new :: reputation_log where "reputation_new = \<lparr> by_agent = Map.empty \<rparr>"

definition reputation_get :: "reputation_log \<Rightarrow> bytes \<Rightarrow> reputation_counters" where
  "reputation_get lg a = (case by_agent lg a of None \<Rightarrow> counters_default | Some c \<Rightarrow> c)"

text \<open>\<open>entry(agent)\<close> hands out a mutable reference, here the function that updates through it.\<close>

definition reputation_entry ::
  "(reputation_counters \<Rightarrow> reputation_counters) \<Rightarrow> bytes \<Rightarrow> reputation_log \<Rightarrow> reputation_log" where
  "reputation_entry f a lg = lg\<lparr>by_agent := (by_agent lg)(a \<mapsto> f (reputation_get lg a))\<rparr>"

definition record_initiated :: "bytes \<Rightarrow> reputation_log \<Rightarrow> reputation_log" where
  "record_initiated = reputation_entry (\<lambda>c. c\<lparr>initiated := saturating_add (initiated c) 1\<rparr>)"

definition record_completed :: "bytes \<Rightarrow> reputation_log \<Rightarrow> reputation_log" where
  "record_completed = reputation_entry (\<lambda>c. c\<lparr>completed := saturating_add (completed c) 1\<rparr>)"

definition record_dispute_opened :: "bytes \<Rightarrow> reputation_log \<Rightarrow> reputation_log" where
  "record_dispute_opened = reputation_entry (\<lambda>c. c\<lparr>disputed := saturating_add (disputed c) 1\<rparr>)"

definition record_dispute_lost :: "bytes \<Rightarrow> reputation_log \<Rightarrow> reputation_log" where
  "record_dispute_lost = reputation_entry (\<lambda>c. c\<lparr>disputes_lost := saturating_add (disputes_lost c) 1\<rparr>)"

end
