(* ===== verification/Protocol_Laws.thy ===== *)
theory Protocol_Laws
  imports Protocol
begin

text \<open>
  The lifecycle of a proposal: the allowed transitions, what justifies each state, and the
  contract the four message handlers share (the locale \<open>log_operation\<close>, interpreted for each).
  The log of an agent is the set of states reachable by its handlers.
\<close>

section \<open>The log as a map\<close>

lemma log_get_insert [simp]: "log_get (log_insert h st lg) h' = (if h' = h then Some st else log_get lg h')"
  by (simp add: log_get_def log_insert_def update_conv')

lemma log_get_remove [simp]: "log_get (log_remove h lg) h' = (if h' = h then None else log_get lg h')"
  by (simp add: log_get_def log_remove_def delete_conv')

lemma log_get_expire: "log_get (fst (expire_due now lg)) h = map_option (expire_state now) (log_get lg h)"
  by (simp add: log_get_def expire_due_def map_of_map)

lemma log_get_new [simp]: "log_get log_new h = None"
  by (simp add: log_get_def log_new_def)

lemma fst_guard_sig: "fst (guard_sig v lg k) = (if is_Ok v then fst k else lg)"
  by (simp add: guard_sig_def split: res.splits)

section \<open>Transitions\<close>

inductive transition :: "proposal_state \<Rightarrow> proposal_state \<Rightarrow> bool" where
  accept: "transition (Proposed p) (Accepted p a)" if "ac_by a = pr_to p" "accepted_at_unix a \<le> valid_until_unix p"
| reject: "transition (Proposed p) (Rejected p r)" if "rj_by r = pr_to p"
| counter: "transition (Proposed p) (CounterProposed p c)" if "cp_by c = pr_to p"
| expire: "transition (Proposed p) (Expired p t)" if "valid_until_unix p < t"
| execute: "transition (Accepted p a) (Executed p a e)" if "ex_by e = pr_from p"

inductive_simps transition_simps [simp]:
  "transition (Proposed p) st" "transition (Accepted p a) st" "transition (Rejected p r) st"
  "transition (CounterProposed p c) st" "transition (Executed p a e) st" "transition (Expired p t) st"

lemma terminal_no_transition: "is_terminal st \<Longrightarrow> \<not> transition st st'"
  by (cases st) auto

text \<open>What justifies a state: the signed messages of the right parties about this proposal.\<close>

definition propose_valid :: "xof \<Rightarrow> ed25519 \<Rightarrow> hash \<Rightarrow> propose \<Rightarrow> bool" where
  "propose_valid xof ed h p \<longleftrightarrow> propose_verify ed p = Ok () \<and> proposal_hash xof p = h"

definition accept_valid :: "ed25519 \<Rightarrow> hash \<Rightarrow> propose \<Rightarrow> accept \<Rightarrow> bool" where
  "accept_valid ed h p a \<longleftrightarrow> accept_verify ed a = Ok () \<and> ac_proposal_hash a = h \<and> ac_by a = pr_to p \<and>
     accepted_at_unix a \<le> valid_until_unix p"

fun state_valid :: "xof \<Rightarrow> ed25519 \<Rightarrow> hash \<Rightarrow> proposal_state \<Rightarrow> bool" where
  "state_valid xof ed h (Proposed p) \<longleftrightarrow> propose_valid xof ed h p"
| "state_valid xof ed h (Accepted p a) \<longleftrightarrow> propose_valid xof ed h p \<and> accept_valid ed h p a"
| "state_valid xof ed h (Rejected p r) \<longleftrightarrow> propose_valid xof ed h p \<and> reject_verify ed r = Ok () \<and>
     rj_proposal_hash r = h \<and> rj_by r = pr_to p"
| "state_valid xof ed h (CounterProposed p c) \<longleftrightarrow> propose_valid xof ed h p \<and> counter_verify ed c = Ok () \<and>
     original_proposal_hash c = h \<and> cp_by c = pr_to p"
| "state_valid xof ed h (Executed p a e) \<longleftrightarrow> propose_valid xof ed h p \<and> accept_valid ed h p a \<and>
     execute_verify ed e = Ok () \<and> ex_proposal_hash e = h \<and> ex_by e = pr_from p"
| "state_valid xof ed h (Expired p t) \<longleftrightarrow> propose_valid xof ed h p \<and> valid_until_unix p < t"

definition log_valid :: "xof \<Rightarrow> ed25519 \<Rightarrow> proposal_log \<Rightarrow> bool" where
  "log_valid xof ed lg \<longleftrightarrow> (\<forall>h st. log_get lg h = Some st \<longrightarrow> state_valid xof ed h st)"

section \<open>The contract of a handler\<close>

locale log_operation =
  fixes xof :: xof and ed :: ed25519 and run :: "proposal_log \<Rightarrow> proposal_log" and target :: hash
  assumes frame: "h \<noteq> target \<Longrightarrow> log_get (run lg) h = log_get lg h"
    and unknown: "log_get lg target = None \<Longrightarrow> log_get (run lg) target = None"
    and move: "log_get lg target = Some st \<Longrightarrow>
      \<exists>st'. log_get (run lg) target = Some st' \<and>
        (st' = st \<or> transition st st' \<and> (state_valid xof ed target st \<longrightarrow> state_valid xof ed target st'))"
begin

lemma keeps_valid: "log_valid xof ed lg \<Longrightarrow> log_valid xof ed (run lg)"
  unfolding log_valid_def
proof (intro allI impI)
  fix h st' assume valid: "\<forall>h st. log_get lg h = Some st \<longrightarrow> state_valid xof ed h st"
    and st': "log_get (run lg) h = Some st'"
  show "state_valid xof ed h st'"
  proof (cases "h = target")
    case True
    then obtain st where "log_get lg target = Some st" using st' unknown [of lg] by (cases "log_get lg target") auto
    then show ?thesis using move valid st' True by fastforce
  next
    case False
    then show ?thesis using valid st' frame by auto
  qed
qed

lemma moves:
  assumes "log_get lg h = Some st"
  shows "\<exists>st'. log_get (run lg) h = Some st' \<and> (st' = st \<or> transition st st')"
  using assms frame [of h lg] move [of lg st] by (cases "h = target") auto

lemma terminal_stays: "log_get lg h = Some st \<Longrightarrow> is_terminal st \<Longrightarrow> log_get (run lg) h = Some st"
  using moves [of lg h st] terminal_no_transition by auto

end

lemma is_Ok_unit [simp]: "is_Ok (v :: (unit, 'e) res) \<longleftrightarrow> v = Ok ()"
  by (cases v) auto

interpretation accept_op: log_operation xof ed "\<lambda>lg. fst (apply_accept ed a lg)" "ac_proposal_hash a" for xof ed a
  by unfold_locales
    (auto simp: apply_accept_def fst_guard_sig Let_def accept_valid_def not_less split: proposal_state.splits option.splits)

interpretation reject_op: log_operation xof ed "\<lambda>lg. fst (apply_reject ed r lg)" "rj_proposal_hash r" for xof ed r
  by unfold_locales
    (auto simp: apply_reject_def fst_guard_sig Let_def split: proposal_state.splits option.splits)

interpretation counter_op: log_operation xof ed "\<lambda>lg. fst (apply_counter ed c lg)" "original_proposal_hash c" for xof ed c
  by unfold_locales
    (auto simp: apply_counter_def fst_guard_sig Let_def split: proposal_state.splits option.splits)

interpretation execute_op: log_operation xof ed "\<lambda>lg. fst (apply_execute ed e lg)" "ex_proposal_hash e" for xof ed e
  by unfold_locales
    (auto simp: apply_execute_def fst_guard_sig Let_def split: proposal_state.splits option.splits)

section \<open>The log of an agent\<close>

datatype log_event = Deliver protocol_message | Clock u64

fun handle :: "xof \<Rightarrow> ed25519 \<Rightarrow> log_event \<Rightarrow> proposal_log \<Rightarrow> proposal_log" where
  "handle xof ed (Deliver (Msg_Propose p)) lg = fst (record_propose xof ed p lg)"
| "handle xof ed (Deliver (Msg_Accept a)) lg = fst (apply_accept ed a lg)"
| "handle xof ed (Deliver (Msg_Reject r)) lg = fst (apply_reject ed r lg)"
| "handle xof ed (Deliver (Msg_Counter c)) lg = fst (apply_counter ed c lg)"
| "handle xof ed (Deliver (Msg_Execute e)) lg = fst (apply_execute ed e lg)"
| "handle xof ed (Clock now) lg = fst (expire_due now lg)"

inductive log_reach :: "xof \<Rightarrow> ed25519 \<Rightarrow> proposal_log \<Rightarrow> bool" for xof ed where
  init: "log_reach xof ed log_new"
| step: "log_reach xof ed (handle xof ed ev lg)" if "log_reach xof ed lg"

lemma get_record_propose:
  "log_get (fst (record_propose xof ed p lg)) h =
     (if propose_verify ed p = Ok () \<and> h = proposal_hash xof p \<and> log_get lg h = None then Some (Proposed p)
      else log_get lg h)"
  by (auto simp: record_propose_def fst_guard_sig Let_def)

lemma expire_state_cases: "expire_state now st = st \<or> transition st (expire_state now st)"
  by (cases st) auto

lemma expire_state_valid: "state_valid xof ed h st \<Longrightarrow> state_valid xof ed h (expire_state now st)"
  by (cases st) auto

lemma handle_moves:
  assumes "log_get lg h = Some st"
  shows "\<exists>st'. log_get (handle xof ed ev lg) h = Some st' \<and> (st' = st \<or> transition st st')"
proof (cases "(xof, ed, ev, lg)" rule: handle.cases)
  case (1 xof' ed' p lg')
  then show ?thesis using assms by (simp add: get_record_propose)
next
  case (6 xof' ed' now lg')
  then show ?thesis using assms expire_state_cases [of now st] by (simp add: log_get_expire)
qed (use assms accept_op.moves reject_op.moves counter_op.moves execute_op.moves in auto)

lemma handle_valid: "log_valid xof ed lg \<Longrightarrow> log_valid xof ed (handle xof ed ev lg)"
proof (cases "(xof, ed, ev, lg)" rule: handle.cases)
  case (1 xof' ed' p lg')
  then show "log_valid xof ed lg \<Longrightarrow> ?thesis"
    by (auto simp: log_valid_def get_record_propose propose_valid_def)
next
  case (6 xof' ed' now lg')
  then show "log_valid xof ed lg \<Longrightarrow> ?thesis"
    by (auto simp: log_valid_def log_get_expire intro: expire_state_valid)
qed (use accept_op.keeps_valid reject_op.keeps_valid counter_op.keeps_valid execute_op.keeps_valid in auto)

lemma log_reach_valid: "log_reach xof ed lg \<Longrightarrow> log_valid xof ed lg"
  by (induction rule: log_reach.induct) (auto simp: log_valid_def intro: handle_valid [unfolded log_valid_def, rule_format])

lemma terminal_forever:
  assumes "log_get lg h = Some st" "is_terminal st"
  shows "log_get (fold (handle xof ed) evs lg) h = Some st"
  using assms
proof (induction evs arbitrary: lg)
  case (Cons ev evs)
  have "log_get (handle xof ed ev lg) h = Some st"
    using handle_moves [OF Cons.prems(1)] terminal_no_transition [OF Cons.prems(2)] by auto
  then show ?case using Cons by simp
qed simp

end
