(* ===== verification/Protocol_Properties.thy ===== *)
theory Protocol_Properties
  imports Protocol_Laws Kernel_Properties Ledger_Properties
begin

text \<open>
  The properties of the negotiation protocol: every logged state is justified by signatures,
  proposals only move forward, messages of different types cannot be confused, disputes are
  decided by re-execution, and reputation scores stay in range.
\<close>

section \<open>The proposal log\<close>

text \<open>
  C15. Every state in a log is justified: in any log reachable by delivering messages and advancing
  the clock, an accepted proposal carries the proposer's signature on it and an acceptance
  signed by its addressee before the deadline, an executed one also the proposer's signed
  execution, a rejected or countered one the addressee's signed answer.
\<close>

theorem log_states_justified:
  assumes "log_reach xof ed lg" "log_get lg h = Some st"
  shows "state_valid xof ed h st"
  using log_reach_valid [OF assms(1)] assms(2) by (simp add: log_valid_def)

definition sample_propose :: propose where
  "sample_propose = propose_sign open_ed (replicate 32 1) (replicate 64 2) [7] (replicate 32 4) 0 100 1"

lemma sample_propose_verifies: "propose_verify open_ed sample_propose = Ok ()"
  by (simp add: propose_verify_def verify_sig_def open_ed_def sample_propose_def propose_sign_def Let_def)

definition sample_accept :: accept where
  "sample_accept = accept_sign open_ed (replicate 32 4) (proposal_hash zero_xof sample_propose) 50"

definition sample_log :: proposal_log where
  "sample_log = fold (handle zero_xof open_ed)
     [Deliver (Msg_Propose sample_propose), Deliver (Msg_Accept sample_accept)] log_new"

lemma sample_log_reach: "log_reach zero_xof open_ed sample_log"
  by (simp add: sample_log_def log_reach.init log_reach.step del: handle.simps)

lemma sample_accept_facts:
  "accept_verify open_ed sample_accept = Ok ()" "ac_by sample_accept = pr_to sample_propose"
  "ac_proposal_hash sample_accept = proposal_hash zero_xof sample_propose"
  "\<not> valid_until_unix sample_propose < accepted_at_unix sample_accept"
  by (simp_all add: accept_verify_def verify_sig_def open_ed_def sample_accept_def accept_sign_def
      sample_propose_def propose_sign_def Let_def)

lemma sample_log_entry:
  "log_get sample_log (proposal_hash zero_xof sample_propose) = Some (Accepted sample_propose sample_accept)"
  using sample_accept_facts sample_propose_verifies
  by (simp add: sample_log_def apply_accept_def fst_guard_sig Let_def get_record_propose)

theorem log_states_justified_witness:
  "state_valid zero_xof open_ed (proposal_hash zero_xof sample_propose) (Accepted sample_propose sample_accept)"
  by (rule log_states_justified [OF sample_log_reach sample_log_entry])

lemma handle_path:
  "log_get lg h = Some st \<Longrightarrow> \<exists>st'. log_get (fold (handle xof ed) evs lg) h = Some st' \<and> transition\<^sup>*\<^sup>* st st'"
proof (induction evs arbitrary: lg st)
  case (Cons ev evs)
  obtain st1 where st1: "log_get (handle xof ed ev lg) h = Some st1" "st1 = st \<or> transition st st1"
    using handle_moves [OF Cons.prems] by blast
  obtain st' where "log_get (fold (handle xof ed) evs (handle xof ed ev lg)) h = Some st'" "transition\<^sup>*\<^sup>* st1 st'"
    using Cons.IH [OF st1(1)] by blast
  then show ?case using st1(2) by (auto intro: converse_rtranclp_into_rtranclp)
qed simp

text \<open>
  C35. Proposals only move forward: whatever messages arrive in whatever order, a logged proposal
  stays in the log and its state changes only along the lifecycle diagram; a rejected,
  executed or expired proposal never changes again.
\<close>

theorem proposals_move_forward:
  assumes "log_get lg h = Some st"
  shows "\<exists>st'. log_get (fold (handle xof ed) evs lg) h = Some st' \<and> transition\<^sup>*\<^sup>* st st' \<and>
    (is_terminal st \<longrightarrow> st' = st)"
  using handle_path [OF assms] terminal_forever [OF assms] by fastforce

theorem proposals_move_forward_witness:
  "\<exists>st'. log_get (fold (handle zero_xof open_ed) [Clock 200] sample_log) (proposal_hash zero_xof sample_propose) = Some st' \<and>
     transition\<^sup>*\<^sup>* (Accepted sample_propose sample_accept) st'"
  using proposals_move_forward [OF sample_log_entry, of zero_xof open_ed "[Clock 200]"] by blast

section \<open>Messages\<close>

text \<open>The bytes a message's signature covers.\<close>

fun message_bytes :: "protocol_message \<Rightarrow> bytes" where
  "message_bytes (Msg_Propose p) = propose_bytes p"
| "message_bytes (Msg_Accept a) = accept_bytes a"
| "message_bytes (Msg_Reject r) = reject_bytes r"
| "message_bytes (Msg_Counter c) = counter_bytes c"
| "message_bytes (Msg_Execute e) = execute_bytes e"

fun unsigned :: "protocol_message \<Rightarrow> protocol_message" where
  "unsigned (Msg_Propose p) = Msg_Propose (p\<lparr>pr_sig := []\<rparr>)"
| "unsigned (Msg_Accept a) = Msg_Accept (a\<lparr>ac_sig := []\<rparr>)"
| "unsigned (Msg_Reject r) = Msg_Reject (r\<lparr>rj_sig := []\<rparr>)"
| "unsigned (Msg_Counter c) = Msg_Counter (c\<lparr>cp_sig := []\<rparr>)"
| "unsigned (Msg_Execute e) = Msg_Execute (e\<lparr>ex_sig := []\<rparr>)"

fun message_wf :: "protocol_message \<Rightarrow> bool" where
  "message_wf (Msg_Propose p) \<longleftrightarrow> length (pr_program_hash p) = 64 \<and> small (parameters p) \<and>
     length (pr_from p) = 32 \<and> length (pr_to p) = 32"
| "message_wf (Msg_Accept a) \<longleftrightarrow> length (ac_proposal_hash a) = 32 \<and> length (ac_by a) = 32"
| "message_wf (Msg_Reject r) \<longleftrightarrow> length (rj_proposal_hash r) = 32 \<and> length (rj_by r) = 32 \<and> small (reason r)"
| "message_wf (Msg_Counter c) \<longleftrightarrow> length (original_proposal_hash c) = 32 \<and> small (new_parameters c) \<and>
     length (cp_by c) = 32"
| "message_wf (Msg_Execute e) \<longleftrightarrow> length (ex_proposal_hash e) = 32 \<and> small (ex_witness e) \<and>
     small (expected_output e) \<and> length (ex_by e) = 32"

lemma push_bytes_inject:
  "small a \<Longrightarrow> small b \<Longrightarrow> push_bytes a @ r = push_bytes b @ s \<longleftrightarrow> a = b \<and> r = s"
  "small a \<Longrightarrow> small b \<Longrightarrow> push_str a @ r = push_str b @ s \<longleftrightarrow> a = b \<and> r = s"
  by (auto simp: push_bytes_def push_str_def length_prefix_inject)

lemma push_bytes_inject_end:
  "small a \<Longrightarrow> small b \<Longrightarrow> push_bytes a = push_bytes b \<longleftrightarrow> a = b"
  "small a \<Longrightarrow> small b \<Longrightarrow> push_str a = push_str b \<longleftrightarrow> a = b"
  using push_bytes_inject [of a b "[]" "[]"] by simp_all

lemmas message_bytes_defs = propose_bytes_def accept_bytes_def reject_bytes_def counter_bytes_def execute_bytes_def

lemma message_bytes_same:
  "message_wf (Msg_Propose p) \<Longrightarrow> message_wf (Msg_Propose p') \<Longrightarrow> propose_bytes p = propose_bytes p' \<Longrightarrow>
     p\<lparr>pr_sig := []\<rparr> = p'\<lparr>pr_sig := []\<rparr>"
  "message_wf (Msg_Accept a) \<Longrightarrow> message_wf (Msg_Accept a') \<Longrightarrow> accept_bytes a = accept_bytes a' \<Longrightarrow>
     a\<lparr>ac_sig := []\<rparr> = a'\<lparr>ac_sig := []\<rparr>"
  "message_wf (Msg_Reject r) \<Longrightarrow> message_wf (Msg_Reject r') \<Longrightarrow> reject_bytes r = reject_bytes r' \<Longrightarrow>
     r\<lparr>rj_sig := []\<rparr> = r'\<lparr>rj_sig := []\<rparr>"
  "message_wf (Msg_Counter c) \<Longrightarrow> message_wf (Msg_Counter c') \<Longrightarrow> counter_bytes c = counter_bytes c' \<Longrightarrow>
     c\<lparr>cp_sig := []\<rparr> = c'\<lparr>cp_sig := []\<rparr>"
  "message_wf (Msg_Execute e) \<Longrightarrow> message_wf (Msg_Execute e') \<Longrightarrow> execute_bytes e = execute_bytes e' \<Longrightarrow>
     e\<lparr>ex_sig := []\<rparr> = e'\<lparr>ex_sig := []\<rparr>"
  by (simp_all add: message_bytes_defs push_bytes_inject push_bytes_inject_end propose.equality accept.equality reject.equality
      counter_propose.equality execute.equality)

text \<open>The fifth byte of the domain tag tells the five types apart.\<close>

fun tag_byte :: "protocol_message \<Rightarrow> u8" where
  "tag_byte (Msg_Propose _) = 80"
| "tag_byte (Msg_Accept _) = 65"
| "tag_byte (Msg_Reject _) = 82"
| "tag_byte (Msg_Counter _) = 67"
| "tag_byte (Msg_Execute _) = 69"

lemma message_tag: "message_bytes m ! 4 = tag_byte m"
  by (cases m) (simp_all add: message_bytes_defs ascii_def)

text \<open>
  C37. Signatures cannot be moved between messages: two well-formed messages with the same signed
  bytes are of the same type and agree in every field but the signature.
\<close>

theorem message_bytes_binding:
  assumes "message_wf m" "message_wf m'" "message_bytes m = message_bytes m'"
  shows "unsigned m = unsigned m'"
proof -
  have "tag_byte m = tag_byte m'" using message_tag [of m] message_tag [of m'] assms(3) by simp
  then show ?thesis
    using assms by (cases m; cases m') (auto simp del: message_wf.simps intro!: message_bytes_same)
qed

lemma sample_accept_wf: "length (ac_proposal_hash sample_accept) = 32" "length (ac_by sample_accept) = 32"
  by (simp_all add: sample_accept_def accept_sign_def Let_def open_ed_def proposal_hash_def)

theorem message_bytes_binding_witness:
  "unsigned (Msg_Accept sample_accept) = unsigned (Msg_Accept (sample_accept\<lparr>ac_sig := [1]\<rparr>))"
  by (rule message_bytes_binding) (simp_all add: sample_accept_wf accept_bytes_def)

section \<open>Disputes\<close>

definition well_signed :: "ed25519 \<Rightarrow> propose \<Rightarrow> execute \<Rightarrow> dispute \<Rightarrow> bool" where
  "well_signed ed p e d \<longleftrightarrow> propose_verify ed p = Ok () \<and> execute_verify ed e = Ok () \<and>
     dispute_verify ed d = Ok () \<and> di_proposal_hash d = ex_proposal_hash e"

lemma resolve_signed:
  "well_signed ed p e d \<Longrightarrow> tp_run program (di_witness d) = Ok out \<Longrightarrow>
     resolve_dispute ed program p e d =
       Ok (if expected_output e = out then DismissDispute (disputer d) out else SlashExecutor (ex_by e) out)"
  by (simp add: resolve_dispute_def well_signed_def)

text \<open>
  Disputes about the executor's own witness are decided by re-execution: whatever contract of
  the library is re-run, the executor is slashed exactly when the output it signed differs
  from the output of the contract on the witness it signed.
\<close>

theorem dispute_decided_by_reexecution:
  assumes "well_signed ed p e d" "di_witness d = ex_witness e" "tp_run program (ex_witness e) = Ok out"
  shows "resolve_dispute ed program p e d =
    Ok (if expected_output e \<noteq> out then SlashExecutor (ex_by e) out else DismissDispute (disputer d) out)"
  using resolve_signed [OF assms(1)] assms(2,3) by simp

definition pay_input :: bytes where
  "pay_input = le_bytes 16 1000 @ le_bytes 16 5 @ le_bytes 16 300 @ le_bytes 8 7"

definition std_transfer :: ternary_program where
  "std_transfer = transfer_program (std_contract zero_xof (ascii ''transfer''))"

lemma pay_run: "tp_run std_transfer pay_input = Ok (transfer_spec 1000 5 300 7)"
  by (simp add: std_transfer_def transfer_program_def program_of_def transfer.right_length pay_input_def num_field_simps)

lemma zero_run: "tp_run std_transfer (replicate 56 0) = Ok (transfer_spec 0 0 0 0)"
  by (simp add: std_transfer_def transfer_program_def program_of_def transfer.right_length num_field_def subslice_def)

lemma runs_differ: "transfer_spec 1000 5 300 7 \<noteq> transfer_spec 0 0 0 0"
proof
  assume "transfer_spec 1000 5 300 7 = transfer_spec 0 0 0 0"
  then have "num_field (transfer_spec 1000 5 300 7) 0 16 = num_field (transfer_spec 0 0 0 0) 0 16" by simp
  then show False by (simp add: transfer_spec_fields)
qed

definition honest_execute :: execute where
  "honest_execute = execute_sign open_ed (replicate 32 1) (replicate 32 6) pay_input (transfer_spec 1000 5 300 7) 60"

definition sample_dispute :: "bytes \<Rightarrow> dispute" where
  "sample_dispute w = dispute_sign open_ed (replicate 32 4) (replicate 32 6) w [] 70"

lemma sample_well_signed: "well_signed open_ed sample_propose honest_execute (sample_dispute w)"
  using sample_propose_verifies
  by (simp add: well_signed_def honest_execute_def execute_sign_def execute_verify_def verify_sig_def
      sample_dispute_def dispute_sign_def dispute_verify_def open_ed_def Let_def)

theorem dispute_decided_by_reexecution_witness:
  "resolve_dispute open_ed std_transfer sample_propose honest_execute (sample_dispute pay_input) =
     Ok (DismissDispute (disputer (sample_dispute pay_input)) (transfer_spec 1000 5 300 7))"
  using dispute_decided_by_reexecution [OF sample_well_signed [of pay_input], of std_transfer "transfer_spec 1000 5 300 7"]
    pay_run
  by (simp add: sample_dispute_def dispute_sign_def honest_execute_def execute_sign_def Let_def)

text \<open>
  C40. A disputer can have an honest executor slashed: the contract is re-run on the witness in the
  dispute, which is not compared with the one the executor signed, so any other witness on
  which the contract gives another output decides against an executor whose signed output is
  right. The disputer's claimed output plays no role.
\<close>

theorem honest_executor_can_be_slashed:
  assumes "well_signed ed p e d" "tp_run program (ex_witness e) = Ok (expected_output e)"
    and "tp_run program (di_witness d) = Ok other" "other \<noteq> expected_output e"
  shows "resolve_dispute ed program p e d = Ok (SlashExecutor (ex_by e) other)"
  using resolve_signed [OF assms(1,3)] assms(4) by simp

theorem honest_executor_can_be_slashed_witness:
  "tp_run std_transfer (ex_witness honest_execute) = Ok (expected_output honest_execute) \<and>
   resolve_dispute open_ed std_transfer sample_propose honest_execute (sample_dispute (replicate 56 0)) =
     Ok (SlashExecutor (ex_by honest_execute) (transfer_spec 0 0 0 0))"
proof -
  have "ex_witness honest_execute = pay_input" "expected_output honest_execute = transfer_spec 1000 5 300 7"
    "di_witness (sample_dispute (replicate 56 0)) = replicate 56 0"
    by (simp_all add: honest_execute_def execute_sign_def sample_dispute_def dispute_sign_def Let_def)
  then show ?thesis
    using honest_executor_can_be_slashed [OF sample_well_signed, of std_transfer "replicate 56 0"] pay_run
      zero_run runs_differ by simp
qed

section \<open>Reputation\<close>

lemma ucast_up_nat: "unat (ucast (w :: u64) :: u128) = unat w"
  by (simp add: unsigned_ucast_eq take_bit_nat_eq_self order.strict_trans [OF unat_bound])

lemma ratio_nat:
  fixes a b :: u64
  assumes "b \<noteq> 0"
  shows "unat ((ucast a * 1000 :: u128) div ucast (max b 1)) = unat a * 1000 div unat b"
proof -
  have "unat a < 2 ^ 64" using unat_bound [of a] by simp
  then have "unat (ucast a * 1000 :: u128) = unat a * 1000"
    by (simp add: unat_word_ariths ucast_up_nat)
  moreover have "1 \<le> b" using assms by (simp add: word_le_nat_alt Suc_le_eq unat_gt_0)
  then have "max b 1 = b" by (rule max_absorb1)
  ultimately show ?thesis by (simp add: unat_div_distrib ucast_up_nat)
qed

text \<open>
  The reputation score is computed exactly and stays in range: it is 500 for an agent without
  history, otherwise completion per mille minus lost disputes per mille, cut off at 0 and
  1000; no intermediate value overflows.
\<close>

theorem score_exact:
  "unat (score c) =
     (if initiated c = 0 then 500
      else min 1000 (unat (completed c) * 1000 div unat (initiated c) -
        (if disputed c = 0 then 0 else unat (disputes_lost c) * 1000 div unat (disputed c))))"
proof (cases "initiated c = 0")
  case False
  let ?raw = "saturating_sub ((ucast (completed c) * 1000 :: u128) div ucast (max (initiated c) 1))
    (if disputed c = 0 then 0 else (ucast (disputes_lost c) * 1000) div ucast (max (disputed c) 1))"
  have raw: "unat ?raw = unat (completed c) * 1000 div unat (initiated c) -
      (if disputed c = 0 then 0 else unat (disputes_lost c) * 1000 div unat (disputed c))"
    using False by (simp add: unat_saturating_sub ratio_nat)
  have m: "unat (min ?raw 1000) = min 1000 (unat ?raw)"
    by (auto simp: min_def word_le_nat_alt)
  then have "unat (min ?raw 1000) < 2 ^ 32" by simp
  then have "unat (ucast (min ?raw 1000) :: u32) = min 1000 (unat ?raw)"
    using m by (simp add: unsigned_ucast_eq take_bit_nat_eq_self)
  with False raw show ?thesis by (simp add: score_def Let_def)
qed (simp add: score_def)

end
