(* ===== verification/Wallet.thy ===== *)
theory Wallet
  imports Crypto
begin

text \<open>
  The agents' wallet, \<open>agent_wallet/src\<close>: key policies signed by a parent and the tracker that
  enforces their spending window (\<open>policy.rs\<close>), the revocation set (\<open>revocation.rs\<close>), key rotation
  (\<open>rotation.rs\<close>) and hardened key derivation (\<open>slip10.rs\<close>). HMAC-SHA512 is a parameter: key
  and message to the 64-byte code, or none when the library refuses the key.
\<close>

section \<open>error.rs\<close>

datatype wallet_error =
    BadSeedLength nat
  | NotHardened u32
  | InvalidPrivateKey
  | WalletSignatureInvalid
  | PolicySignatureInvalid
  | PolicyExpired u64 u64
  | PolicyOverspend u128 u128
  | PolicyContractDisallowed rstring
  | PolicyCounterpartyDisallowed bytes
  | KeyRevoked bytes
  | WalletEd25519

section \<open>policy.rs\<close>

record key_policy =
  child_pubkey :: bytes
  kp_parent_pubkey :: bytes
  cap_per_window :: u128
  window_secs :: u64
  allowed_contracts :: "rstring list"
  allowed_counterparties :: "bytes list"
  expiry_unix :: u64
  kp_version :: u64

definition name_bytes :: "rstring \<Rightarrow> bytes" where
  "name_bytes name = u32_be (of_nat (length name)) @ name"

definition policy_bytes :: "key_policy \<Rightarrow> bytes" where
  "policy_bytes p =
     ascii ''PSL-KEY-POLICY-V1'' @ child_pubkey p @ kp_parent_pubkey p @ u128_be (cap_per_window p)
     @ u64_be (window_secs p) @ u64_be (expiry_unix p) @ u64_be (kp_version p)
     @ u32_be (of_nat (length (allowed_contracts p))) @ concat (map name_bytes (allowed_contracts p))
     @ u32_be (of_nat (length (allowed_counterparties p))) @ concat (allowed_counterparties p)"

definition allows_contract :: "key_policy \<Rightarrow> rstring \<Rightarrow> bool" where
  "allows_contract p contract \<longleftrightarrow>
     allowed_contracts p = [] \<or> list_ex (\<lambda>c. c = contract) (allowed_contracts p)"

definition allows_counterparty :: "key_policy \<Rightarrow> bytes \<Rightarrow> bool" where
  "allows_counterparty p cp \<longleftrightarrow>
     allowed_counterparties p = [] \<or> list_ex (\<lambda>q. q = cp) (allowed_counterparties p)"

record policy_envelope =
  env_policy :: key_policy
  env_sig :: bytes

definition envelope_sign :: "ed25519 \<Rightarrow> bytes \<Rightarrow> key_policy \<Rightarrow> (policy_envelope, wallet_error) res" where
  "envelope_sign ed parent p =
     (if ed_public ed parent \<noteq> kp_parent_pubkey p then Err PolicySignatureInvalid
      else Ok \<lparr> env_policy = p, env_sig = ed_sign ed parent (policy_bytes p) \<rparr>)"

definition envelope_verify :: "ed25519 \<Rightarrow> policy_envelope \<Rightarrow> (unit, wallet_error) res" where
  "envelope_verify ed env =
     (if \<not> ed_key_ok ed (kp_parent_pubkey (env_policy env)) then Err WalletEd25519
      else if ed_check ed (kp_parent_pubkey (env_policy env)) (policy_bytes (env_policy env)) (env_sig env)
      then Ok () else Err PolicySignatureInvalid)"

text \<open>The queue of spends, oldest first; the field is private to the tracker.\<close>

record spending_tracker =
  tr_policy :: key_policy
  spends :: "(u64 \<times> u128) list"

definition tracker_new :: "key_policy \<Rightarrow> spending_tracker" where
  "tracker_new p = \<lparr> tr_policy = p, spends = [] \<rparr>"

fun pop_older :: "u64 \<Rightarrow> (u64 \<times> u128) list \<Rightarrow> (u64 \<times> u128) list" where
  "pop_older cutoff [] = []"
| "pop_older cutoff ((t, a) # q) = (if t < cutoff then pop_older cutoff q else (t, a) # q)"

definition evict_expired :: "u64 \<Rightarrow> spending_tracker \<Rightarrow> spending_tracker" where
  "evict_expired now tr =
     tr\<lparr>spends := pop_older (saturating_sub now (window_secs (tr_policy tr))) (spends tr)\<rparr>"

definition current_window_total :: "u64 \<Rightarrow> spending_tracker \<Rightarrow> spending_tracker \<times> u128" where
  "current_window_total now tr =
     (let tr' = evict_expired now tr
      in (tr', foldl (\<lambda>total (_, amount). saturating_add total amount) 0 (spends tr')))"

definition try_spend :: "u64 \<Rightarrow> u128 \<Rightarrow> spending_tracker \<Rightarrow> spending_tracker \<times> (unit, wallet_error) res" where
  "try_spend now amount tr =
     (let p = tr_policy tr
      in if expiry_unix p \<noteq> 0 \<and> now \<ge> expiry_unix p then (tr, Err (PolicyExpired (expiry_unix p) now))
         else let (tr', current) = current_window_total now tr
              in case checked_add current amount of
                   None \<Rightarrow> (tr', Err (PolicyOverspend (- 1) (cap_per_window p)))
                 | Some would_spend \<Rightarrow>
                     if would_spend > cap_per_window p
                     then (tr', Err (PolicyOverspend would_spend (cap_per_window p)))
                     else (tr'\<lparr>spends := spends tr' @ [(now, amount)]\<rparr>, Ok ()))"

definition admit ::
  "u64 \<Rightarrow> rstring \<Rightarrow> bytes \<Rightarrow> u128 \<Rightarrow> spending_tracker \<Rightarrow> spending_tracker \<times> (unit, wallet_error) res" where
  "admit now contract counterparty amount tr =
     (if \<not> allows_contract (tr_policy tr) contract then (tr, Err (PolicyContractDisallowed contract))
      else if \<not> allows_counterparty (tr_policy tr) counterparty
      then (tr, Err (PolicyCounterpartyDisallowed counterparty))
      else try_spend now amount tr)"

section \<open>revocation.rs\<close>

record revocation =
  revoked_pubkey :: bytes
  rv_parent_pubkey :: bytes
  reason_hash :: bytes
  revoked_at_unix :: u64
  rv_sig :: bytes

definition revocation_bytes :: "bytes \<Rightarrow> bytes \<Rightarrow> bytes \<Rightarrow> u64 \<Rightarrow> bytes" where
  "revocation_bytes revoked parent why at =
     ascii ''PSL-KEY-REVOCATION-V1'' @ revoked @ parent @ why @ u64_be at"

definition revocation_sign :: "ed25519 \<Rightarrow> bytes \<Rightarrow> bytes \<Rightarrow> bytes \<Rightarrow> u64 \<Rightarrow> revocation" where
  "revocation_sign ed parent revoked why at =
     \<lparr> revoked_pubkey = revoked, rv_parent_pubkey = ed_public ed parent, reason_hash = why,
       revoked_at_unix = at,
       rv_sig = ed_sign ed parent (revocation_bytes revoked (ed_public ed parent) why at) \<rparr>"

definition revocation_verify :: "ed25519 \<Rightarrow> revocation \<Rightarrow> (unit, wallet_error) res" where
  "revocation_verify ed r =
     (if \<not> ed_key_ok ed (rv_parent_pubkey r) then Err WalletEd25519
      else if ed_check ed (rv_parent_pubkey r)
                (revocation_bytes (revoked_pubkey r) (rv_parent_pubkey r) (reason_hash r) (revoked_at_unix r))
                (rv_sig r)
      then Ok () else Err WalletSignatureInvalid)"

record revocation_set =
  by_pubkey :: "bytes \<rightharpoonup> revocation"

definition revocations_new :: revocation_set where
  "revocations_new = \<lparr> by_pubkey = Map.empty \<rparr>"

definition revocation_insert ::
  "ed25519 \<Rightarrow> revocation \<Rightarrow> revocation_set \<Rightarrow> revocation_set \<times> (bool, wallet_error) res" where
  "revocation_insert ed r s =
     (case revocation_verify ed r of
        Err e \<Rightarrow> (s, Err e)
      | Panic \<Rightarrow> (s, Panic)
      | Ok _ \<Rightarrow>
          if by_pubkey s (revoked_pubkey r) \<noteq> None then (s, Ok False)
          else (s\<lparr>by_pubkey := (by_pubkey s)(revoked_pubkey r \<mapsto> r)\<rparr>, Ok True))"

definition is_revoked :: "revocation_set \<Rightarrow> bytes \<Rightarrow> bool" where
  "is_revoked s k \<longleftrightarrow> by_pubkey s k \<noteq> None"

definition revocation_check :: "revocation_set \<Rightarrow> bytes \<Rightarrow> (unit, wallet_error) res" where
  "revocation_check s k = (if is_revoked s k then Err (KeyRevoked k) else Ok ())"

section \<open>rotation.rs\<close>

record key_rotation =
  kr_parent_pubkey :: bytes
  old_child_pubkey :: bytes
  new_child_pubkey :: bytes
  rotated_at_unix :: u64
  policy_version :: u64
  kr_sig :: bytes

definition rotation_bytes :: "bytes \<Rightarrow> bytes \<Rightarrow> bytes \<Rightarrow> u64 \<Rightarrow> u64 \<Rightarrow> bytes" where
  "rotation_bytes parent old new at ver =
     ascii ''PSL-KEY-ROTATION-V1'' @ parent @ old @ new @ u64_be at @ u64_be ver"

definition rotation_sign :: "ed25519 \<Rightarrow> bytes \<Rightarrow> bytes \<Rightarrow> bytes \<Rightarrow> u64 \<Rightarrow> u64 \<Rightarrow> key_rotation" where
  "rotation_sign ed parent old new at ver =
     \<lparr> kr_parent_pubkey = ed_public ed parent, old_child_pubkey = old, new_child_pubkey = new,
       rotated_at_unix = at, policy_version = ver,
       kr_sig = ed_sign ed parent (rotation_bytes (ed_public ed parent) old new at ver) \<rparr>"

definition rotation_verify :: "ed25519 \<Rightarrow> key_rotation \<Rightarrow> (unit, wallet_error) res" where
  "rotation_verify ed r =
     (if \<not> ed_key_ok ed (kr_parent_pubkey r) then Err WalletEd25519
      else if ed_check ed (kr_parent_pubkey r)
                (rotation_bytes (kr_parent_pubkey r) (old_child_pubkey r) (new_child_pubkey r)
                   (rotated_at_unix r) (policy_version r))
                (kr_sig r)
      then Ok () else Err WalletSignatureInvalid)"

section \<open>slip10.rs\<close>

definition HARDENED_OFFSET :: u32 where "HARDENED_OFFSET = 0x80000000"

type_synonym hmac_sha512 = "bytes \<Rightarrow> bytes \<Rightarrow> bytes option"

record master_key =
  mk_private :: bytes
  mk_chain_code :: bytes

record child_key =
  ck_private :: bytes
  ck_chain_code :: bytes
  ck_index :: u32

definition master_from_seed :: "hmac_sha512 \<Rightarrow> bytes \<Rightarrow> (master_key, wallet_error) res" where
  "master_from_seed hmac seed =
     (if \<not> (length seed = 16 \<or> length seed = 32 \<or> length seed = 64) then Err (BadSeedLength (length seed))
      else case hmac (ascii ''ed25519 seed'') seed of
        None \<Rightarrow> Err WalletEd25519
      | Some i \<Rightarrow> Ok \<lparr> mk_private = take 32 i, mk_chain_code = drop 32 i \<rparr>)"

definition derive_hardened :: "hmac_sha512 \<Rightarrow> bytes \<Rightarrow> bytes \<Rightarrow> u32 \<Rightarrow> (child_key, wallet_error) res" where
  "derive_hardened hmac parent_priv parent_chain index =
     (if index < HARDENED_OFFSET then Err (NotHardened index)
      else case hmac parent_chain ([0] @ parent_priv @ u32_be index) of
        None \<Rightarrow> Err WalletEd25519
      | Some i \<Rightarrow> Ok \<lparr> ck_private = take 32 i, ck_chain_code = drop 32 i, ck_index = index \<rparr>)"

definition master_derive_child :: "hmac_sha512 \<Rightarrow> master_key \<Rightarrow> u32 \<Rightarrow> (child_key, wallet_error) res" where
  "master_derive_child hmac k index = derive_hardened hmac (mk_private k) (mk_chain_code k) index"

definition child_derive_child :: "hmac_sha512 \<Rightarrow> child_key \<Rightarrow> u32 \<Rightarrow> (child_key, wallet_error) res" where
  "child_derive_child hmac k index = derive_hardened hmac (ck_private k) (ck_chain_code k) index"

definition master_public_key :: "ed25519 \<Rightarrow> master_key \<Rightarrow> bytes" where
  "master_public_key ed k = ed_public ed (mk_private k)"

definition child_public_key :: "ed25519 \<Rightarrow> child_key \<Rightarrow> bytes" where
  "child_public_key ed k = ed_public ed (ck_private k)"

definition child_sign :: "ed25519 \<Rightarrow> child_key \<Rightarrow> bytes \<Rightarrow> bytes" where
  "child_sign ed k msg = ed_sign ed (ck_private k) msg"

definition child_verify :: "ed25519 \<Rightarrow> bytes \<Rightarrow> bytes \<Rightarrow> bytes \<Rightarrow> (unit, wallet_error) res" where
  "child_verify ed pubkey msg sig = (if ed_check ed pubkey msg sig then Ok () else Err WalletSignatureInvalid)"

end
