(* ===== verification/Wallet_Laws.thy ===== *)
theory Wallet_Laws
  imports Wallet
begin

text \<open>
  The spending tracker against its specification. The specification keeps the whole history of
  admitted spends and measures any time window in natural numbers; the tracker keeps a queue from
  which it drops old entries. \<open>tracks\<close> relates the two.
\<close>

section \<open>The specification\<close>

type_synonym history = "(u64 \<times> u128) list"

definition range_sum :: "nat \<Rightarrow> nat \<Rightarrow> history \<Rightarrow> nat" where
  "range_sum a b H = (\<Sum>(t, v) \<leftarrow> H. if a \<le> unat t \<and> unat t \<le> b then unat v else 0)"

definition in_window :: "u64 \<Rightarrow> u64 \<Rightarrow> u64 \<times> u128 \<Rightarrow> bool" where
  "in_window window now e \<longleftrightarrow> saturating_sub now window \<le> fst e"

definition capped :: "key_policy \<Rightarrow> history \<Rightarrow> bool" where
  "capped p H \<longleftrightarrow> (\<forall>a. range_sum a (a + unat (window_secs p)) H \<le> unat (cap_per_window p))"

definition expired :: "key_policy \<Rightarrow> u64 \<Rightarrow> bool" where
  "expired p now \<longleftrightarrow> expiry_unix p \<noteq> 0 \<and> now \<ge> expiry_unix p"

definition permitted :: "key_policy \<Rightarrow> history \<Rightarrow> u64 \<Rightarrow> rstring \<Rightarrow> bytes \<Rightarrow> u128 \<Rightarrow> bool" where
  "permitted p H now contract cp amount \<longleftrightarrow>
     allows_contract p contract \<and> allows_counterparty p cp \<and> \<not> expired p now \<and>
     range_sum (unat now - unat (window_secs p)) (unat now) H + unat amount \<le> unat (cap_per_window p)"

datatype spend_event = Admit u64 rstring bytes u128 | Total u64

fun event_time :: "spend_event \<Rightarrow> u64" where
  "event_time (Admit now _ _ _) = now"
| "event_time (Total now) = now"

text \<open>A call on the tracker, with the history of admitted spends recorded beside it.\<close>

fun spend_step :: "spend_event \<Rightarrow> spending_tracker \<times> history \<Rightarrow> spending_tracker \<times> history" where
  "spend_step (Admit now contract cp amount) (tr, H) =
     (let (tr', r) = admit now contract cp amount tr in (tr', if r = Ok () then H @ [(now, amount)] else H))"
| "spend_step (Total now) (tr, H) = (fst (current_window_total now tr), H)"

definition tracks :: "key_policy \<Rightarrow> u64 \<Rightarrow> spending_tracker \<times> history \<Rightarrow> bool" where
  "tracks p prev = (\<lambda>(tr, H).
     tr_policy tr = p \<and> sorted (map fst H) \<and> (\<forall>e \<in> set H. fst e \<le> prev) \<and> capped p H \<and>
     (\<exists>c \<le> saturating_sub prev (window_secs p). spends tr = filter (\<lambda>e. c \<le> fst e) H))"

section \<open>Window arithmetic\<close>

lemma range_sum_simps [simp]:
  "range_sum a b [] = 0"
  "range_sum a b (H @ [(t, v)]) = range_sum a b H + (if a \<le> unat t \<and> unat t \<le> b then unat v else 0)"
  by (simp_all add: range_sum_def)

lemma saturating_sub_mono: "a \<le> b \<Longrightarrow> saturating_sub a w \<le> saturating_sub b w" for a :: u64
  by (simp add: word_le_nat_alt unat_saturating_sub diff_le_mono)

lemma range_sum_mono: "a' \<le> a \<Longrightarrow> b \<le> b' \<Longrightarrow> range_sum a b H \<le> range_sum a' b' H"
  unfolding range_sum_def by (induction H) (auto intro: add_mono)

lemma pop_older_filter: "sorted (map fst H) \<Longrightarrow> pop_older c H = filter (\<lambda>e. c \<le> fst e) H"
proof (induction H rule: pop_older.induct)
  case (2 cutoff t a q)
  then show ?case
    by (auto simp: eq_commute [of q] filter_id_conv intro: order_trans)
qed simp

lemma fold_total:
  "unat (foldl (\<lambda>total (_, amount). saturating_add total amount) acc H) =
     min (unat acc + (\<Sum>(t, v) \<leftarrow> H. unat v)) (2 ^ 128 - 1)" for acc :: u128
proof (induction H arbitrary: acc)
  case Nil
  then show ?case using unat_bound [of acc] by simp
next
  case (Cons e H)
  then show ?case by (cases e) (simp add: unat_saturating_add)
qed

lemma window_sum_filter:
  "\<forall>e \<in> set H. fst e \<le> now \<Longrightarrow>
     (\<Sum>(t, v) \<leftarrow> filter (in_window w now) H. unat v) = range_sum (unat now - unat w) (unat now) H"
  by (induction H) (auto simp: range_sum_def in_window_def word_le_nat_alt unat_saturating_sub)

section \<open>The tracker follows the specification\<close>

lemma evict_window:
  assumes "tracks p prev (tr, H)" "prev \<le> now"
  shows "spends (evict_expired now tr) = filter (in_window (window_secs p) now) H"
proof -
  obtain c where c: "c \<le> saturating_sub prev (window_secs p)" "spends tr = filter (\<lambda>e. c \<le> fst e) H"
    and t: "tr_policy tr = p" "sorted (map fst H)"
    using assms(1) by (auto simp: tracks_def)
  have "c \<le> saturating_sub now (window_secs p)"
    using c(1) saturating_sub_mono [OF assms(2)] order_trans by blast
  moreover have "sorted (map fst (spends tr))"
    using t(2) c(2) by (simp add: sorted_filter)
  ultimately show ?thesis
    using c(2) t(1)
    by (auto simp: evict_expired_def pop_older_filter in_window_def intro!: filter_cong)
qed

lemma tr_policy_evict [simp]: "tr_policy (evict_expired now tr) = tr_policy tr"
  by (simp add: evict_expired_def)

lemma tracks_later:
  assumes "tracks p prev (tr, H)" "prev \<le> now"
  shows "tracks p now (tr, H)"
proof -
  obtain c where "c \<le> saturating_sub prev (window_secs p)" "spends tr = filter (\<lambda>e. c \<le> fst e) H"
    using assms(1) by (auto simp: tracks_def)
  moreover have "c \<le> saturating_sub now (window_secs p)"
    using calculation(1) saturating_sub_mono [OF assms(2)] order_trans by blast
  ultimately show ?thesis using assms by (auto simp: tracks_def)
qed

lemma tracks_evict:
  assumes "tracks p prev (tr, H)" "prev \<le> now"
  shows "tracks p now (evict_expired now tr, H)"
  using tracks_later [OF assms] evict_window [OF assms]
  by (auto simp: tracks_def in_window_def [abs_def] intro!: exI [of _ "saturating_sub now (window_secs p)"])

lemma window_total:
  assumes "tracks p prev (tr, H)" "prev \<le> now"
  shows "unat (snd (current_window_total now tr)) =
    range_sum (unat now - unat (window_secs p)) (unat now) H"
proof -
  let ?lo = "unat now - unat (window_secs p)"
  have old: "\<forall>e \<in> set H. fst e \<le> now" and cap: "capped p H"
    using tracks_later [OF assms] by (auto simp: tracks_def)
  have "range_sum ?lo (unat now) H \<le> range_sum ?lo (?lo + unat (window_secs p)) H"
    by (rule range_sum_mono) simp_all
  also have "\<dots> \<le> unat (cap_per_window p)" using cap by (simp add: capped_def)
  also have "\<dots> \<le> 2 ^ 128 - 1" using unat_bound [of "cap_per_window p"] by simp
  finally show ?thesis
    by (simp add: current_window_total_def Let_def fold_total evict_window [OF assms] window_sum_filter [OF old])
qed

lemma capped_append:
  assumes "capped p H" "range_sum (unat now - unat (window_secs p)) (unat now) H + unat v \<le> unat (cap_per_window p)"
    "\<forall>e \<in> set H. fst e \<le> now"
  shows "capped p (H @ [(now, v)])"
  unfolding capped_def
proof
  fix a
  have bound: "range_sum a b H \<le> range_sum a (unat now) H" for b
    using assms(3) unfolding range_sum_def by (induction H) (auto simp: word_le_nat_alt)
  show "range_sum a (a + unat (window_secs p)) (H @ [(now, v)]) \<le> unat (cap_per_window p)"
  proof (cases "a \<le> unat now \<and> unat now \<le> a + unat (window_secs p)")
    case True
    then have "range_sum a (unat now) H \<le> range_sum (unat now - unat (window_secs p)) (unat now) H"
      by (intro range_sum_mono) auto
    then show ?thesis using True bound [of "a + unat (window_secs p)"] assms(2) by simp
  qed (use assms(1) in \<open>auto simp: capped_def\<close>)
qed

lemma try_spend_spec:
  assumes "tracks p prev (tr, H)" "prev \<le> now"
  shows "snd (try_spend now amount tr) = Ok () \<longleftrightarrow>
      \<not> expired p now \<and>
      range_sum (unat now - unat (window_secs p)) (unat now) H + unat amount \<le> unat (cap_per_window p)"
    "snd (try_spend now amount tr) = Ok () \<Longrightarrow>
      fst (try_spend now amount tr) = (evict_expired now tr)\<lparr>spends := spends (evict_expired now tr) @ [(now, amount)]\<rparr>"
    "snd (try_spend now amount tr) \<noteq> Ok () \<Longrightarrow>
      fst (try_spend now amount tr) = (if expired p now then tr else evict_expired now tr)"
proof -
  have p: "tr_policy tr = p" using assms(1) by (simp add: tracks_def)
  obtain cur where cur: "current_window_total now tr = (evict_expired now tr, cur)"
    and sum: "unat cur = range_sum (unat now - unat (window_secs p)) (unat now) H"
    using window_total [OF assms] by (simp add: current_window_total_def Let_def)
  have fits: "unat (cap_per_window p) < 2 ^ 128" using unat_bound [of "cap_per_window p"] by simp
  show "snd (try_spend now amount tr) = Ok () \<longleftrightarrow> \<not> expired p now \<and>
      range_sum (unat now - unat (window_secs p)) (unat now) H + unat amount \<le> unat (cap_per_window p)"
    using fits
    by (auto simp: try_spend_def p cur sum [symmetric] expired_def word_less_nat_alt checked_add_None
        dest!: checked_add_Some split: option.splits)
  show "snd (try_spend now amount tr) = Ok () \<Longrightarrow>
      fst (try_spend now amount tr) = (evict_expired now tr)\<lparr>spends := spends (evict_expired now tr) @ [(now, amount)]\<rparr>"
    "snd (try_spend now amount tr) \<noteq> Ok () \<Longrightarrow>
      fst (try_spend now amount tr) = (if expired p now then tr else evict_expired now tr)"
    by (auto simp: try_spend_def p cur expired_def Let_def split: option.splits if_splits)
qed

lemma tracks_push:
  assumes "tracks p prev (tr, H)" "prev \<le> now"
    "range_sum (unat now - unat (window_secs p)) (unat now) H + unat v \<le> unat (cap_per_window p)"
  shows "tracks p now ((evict_expired now tr)\<lparr>spends := spends (evict_expired now tr) @ [(now, v)]\<rparr>, H @ [(now, v)])"
proof -
  have "saturating_sub now (window_secs p) \<le> now"
    by (simp add: word_le_nat_alt unat_saturating_sub)
  then show ?thesis
    using tracks_evict [OF assms(1,2)] evict_window [OF assms(1,2)] capped_append [OF _ assms(3)]
    by (auto simp: tracks_def in_window_def sorted_append)
qed

lemma admit_spec:
  assumes "tracks p prev (tr, H)" "prev \<le> now"
  shows "snd (admit now contract cp amount tr) = Ok () \<longleftrightarrow> permitted p H now contract cp amount"
  using try_spend_spec(1) [OF assms] assms(1) by (simp add: admit_def permitted_def tracks_def)

lemma tracks_step:
  assumes "tracks p prev (tr, H)" "prev \<le> event_time ev"
  shows "tracks p (event_time ev) (spend_step ev (tr, H))"
proof (cases ev)
  case (Total now)
  then show ?thesis using tracks_evict assms by (simp add: current_window_total_def Let_def)
next
  case (Admit now contract cp amount)
  then have now: "prev \<le> now" using assms(2) by simp
  show ?thesis
  proof (cases "snd (admit now contract cp amount tr) = Ok ()")
    case True
    then have "permitted p H now contract cp amount" using admit_spec [OF assms(1) now] by simp
    then show ?thesis
      using True try_spend_spec(2) [OF assms(1) now, of amount] tracks_push [OF assms(1) now, of amount] Admit
      by (cases "try_spend now amount tr") (auto simp: admit_def permitted_def split: if_splits)
  next
    case False
    then show ?thesis
      using try_spend_spec(3) [OF assms(1) now, of amount] tracks_later [OF assms(1) now]
        tracks_evict [OF assms(1) now] Admit
      by (cases "try_spend now amount tr") (auto simp: admit_def split: if_splits)
  qed
qed

lemma tracks_run:
  assumes "sorted (map event_time evs)" "\<forall>ev \<in> set evs. prev \<le> event_time ev" "tracks p prev s"
  shows "tracks p (if evs = [] then prev else event_time (last evs)) (fold spend_step evs s)"
  using assms
proof (induction evs arbitrary: prev s)
  case (Cons ev evs)
  then have "tracks p (event_time ev) (spend_step ev s)" by (cases s) (simp add: tracks_step)
  from Cons.IH [OF _ _ this] Cons.prems(1) show ?case by auto
qed simp

lemma tracks_new: "tracks p 0 (tracker_new p, [])"
  by (auto simp: tracks_def tracker_new_def capped_def intro!: exI [of _ 0])

end
