(* ===== verification/Wallet_Properties.thy ===== *)
theory Wallet_Properties
  imports Wallet_Laws Ledger_Properties
begin

text \<open>
  The properties of the wallet: the spending window is enforced exactly, revocations are permanent
  but not restricted to the key's parent, signed policies bind every field, and key
  derivation is hardened all the way.
\<close>

section \<open>Spending\<close>

text \<open>
  C11. The spending tracker enforces its policy exactly. Whatever calls are made on a fresh tracker
  with a clock that does not go back, the spends admitted within any interval of the window's
  length never exceed the cap, and a further request is admitted if and only if contract and
  counterparty are allowed, the policy has not expired, and the spends of the last window
  together with the new one stay within the cap.
\<close>

theorem spending_window_exact:
  assumes "fold spend_step evs (tracker_new p, []) = (tr, H)" "sorted (map event_time evs)"
    and "\<forall>ev \<in> set evs. event_time ev \<le> now"
  shows "range_sum a (a + unat (window_secs p)) H \<le> unat (cap_per_window p) \<and>
    (snd (admit now contract cp v tr) = Ok () \<longleftrightarrow> permitted p H now contract cp v)"
proof -
  let ?prev = "if evs = [] then 0 else event_time (last evs)"
  have t: "tracks p ?prev (tr, H)"
    using tracks_run [OF assms(2) _ tracks_new, of p] assms(1) by simp
  have "?prev \<le> now" using assms(3) by simp
  from admit_spec [OF t this] show ?thesis using t by (simp add: tracks_def capped_def)
qed

definition sample_policy :: key_policy where
  "sample_policy = \<lparr> child_pubkey = replicate 32 2, kp_parent_pubkey = replicate 32 1, cap_per_window = 1000,
     window_secs = 3600, allowed_contracts = [ascii ''transfer''], allowed_counterparties = [],
     expiry_unix = 0, kp_version = 1 \<rparr>"

definition sample_spends :: "spend_event list" where
  "sample_spends = [Admit 1000 (ascii ''transfer'') [] 800, Admit 1100 (ascii ''transfer'') [] 300,
     Admit 4700 (ascii ''transfer'') [] 900]"

lemma sample_spends_run:
  "fold spend_step sample_spends (tracker_new sample_policy, []) =
     (\<lparr>tr_policy = sample_policy, spends = [(4700, 900)]\<rparr>, [(1000, 800), (4700, 900)])"
  by (simp add: sample_spends_def tracker_new_def sample_policy_def admit_def try_spend_def allows_contract_def
      allows_counterparty_def current_window_total_def evict_expired_def saturating_sub_def saturating_add_def
      checked_add_def Let_def)

theorem spending_window_exact_witness:
  "range_sum 1000 (1000 + unat (window_secs sample_policy)) [(1000, 800), (4700, 900)] \<le> unat (cap_per_window sample_policy) \<and>
   (snd (admit 4800 (ascii ''transfer'') [] 50 \<lparr>tr_policy = sample_policy, spends = [(4700, 900)]\<rparr>) = Ok () \<longleftrightarrow>
      permitted sample_policy [(1000, 800), (4700, 900)] 4800 (ascii ''transfer'') [] 50)"
  by (rule spending_window_exact [OF sample_spends_run]) (simp_all add: sample_spends_def)

section \<open>Revocation\<close>

lemma insert_keeps: "by_pubkey s k = Some r \<Longrightarrow> by_pubkey (fst (revocation_insert ed r' s)) k = Some r"
  by (auto simp: revocation_insert_def split: res.splits)

text \<open>
  Revocation is permanent: whatever revocations are submitted afterwards, a revoked key stays
  in the set with its first revocation, further revocations of it change nothing, and the
  gate refuses it.
\<close>

theorem revocation_permanent:
  assumes "by_pubkey s k = Some r"
  shows "by_pubkey (fold (\<lambda>r' s. fst (revocation_insert ed r' s)) rs s) k = Some r \<and>
    revocation_check (fold (\<lambda>r' s. fst (revocation_insert ed r' s)) rs s) k = Err (KeyRevoked k)"
proof -
  have "by_pubkey (fold (\<lambda>r' s. fst (revocation_insert ed r' s)) rs s) k = Some r"
    using assms by (induction rs arbitrary: s) (simp_all add: insert_keeps)
  then show ?thesis by (simp add: revocation_check_def is_revoked_def)
qed

theorem revocation_permanent_witness:
  "by_pubkey (fold (\<lambda>r' s. fst (revocation_insert open_ed r' s)) [revocation_sign open_ed [5] [1] [9] 3]
     \<lparr>by_pubkey = [[1] \<mapsto> revocation_sign open_ed [4] [1] [8] 2]\<rparr>) [1] = Some (revocation_sign open_ed [4] [1] [8] 2)"
  using revocation_permanent [of "\<lparr>by_pubkey = [[1] \<mapsto> revocation_sign open_ed [4] [1] [8] 2]\<rparr>" "[1]"
      "revocation_sign open_ed [4] [1] [8] 2" open_ed "[revocation_sign open_ed [5] [1] [9] 3]"]
  by simp

text \<open>
  Any key holder can revoke any key: the set checks the signature against the parent key named in
  the revocation itself and nothing relates that key to the revoked one, so a revocation
  that a stranger signs for himself as parent is entered and the victim's key is refused from
  then on.
\<close>

theorem anyone_can_revoke:
  assumes "ed_correct ed" "\<not> is_revoked s victim"
  shows "snd (revocation_insert ed (revocation_sign ed stranger victim why at) s) = Ok True \<and>
    revocation_check (fst (revocation_insert ed (revocation_sign ed stranger victim why at) s)) victim =
      Err (KeyRevoked victim)"
  using assms
  by (simp add: revocation_insert_def revocation_verify_def revocation_sign_def ed_correct_def is_revoked_def
      revocation_check_def)

theorem anyone_can_revoke_witness:
  "revocation_check (fst (revocation_insert open_ed (revocation_sign open_ed (replicate 32 66) (replicate 32 1) [] 0) revocations_new))
     (replicate 32 1) = Err (KeyRevoked (replicate 32 1))"
  using anyone_can_revoke [OF open_ed_correct, of revocations_new "replicate 32 1" "replicate 32 66" "[]" 0]
  by (simp add: revocations_new_def is_revoked_def)

section \<open>Policies\<close>

definition policy_wf :: "key_policy \<Rightarrow> bool" where
  "policy_wf p \<longleftrightarrow> length (child_pubkey p) = 32 \<and> length (kp_parent_pubkey p) = 32 \<and>
     small (allowed_contracts p) \<and> list_all small (allowed_contracts p) \<and>
     small (allowed_counterparties p) \<and> list_all (\<lambda>c. length c = 32) (allowed_counterparties p)"

lemma name_bytes_inject: "small a \<Longrightarrow> small b \<Longrightarrow> name_bytes a @ r = name_bytes b @ s \<longleftrightarrow> a = b \<and> r = s"
  by (auto simp: name_bytes_def length_prefix_inject)

lemma names_inject:
  assumes "list_all small xs" "list_all small ys" "length xs = length ys"
  shows "concat (map name_bytes xs) @ r = concat (map name_bytes ys) @ s \<longleftrightarrow> xs = ys \<and> r = s"
  using assms by (intro concat_map_inject) (auto simp: list_all_iff name_bytes_inject)

lemma keys_inject:
  assumes "list_all (\<lambda>c. length c = 32) xs" "list_all (\<lambda>c. length c = 32) ys" "length xs = length ys"
  shows "concat xs = concat ys \<longleftrightarrow> xs = ys"
  using concat_map_inject [OF assms(3), of id "[]" "[]"] assms by (simp add: list_all_iff)

lemma policy_bytes_inject:
  assumes "policy_wf p" "policy_wf q" "policy_bytes p = policy_bytes q"
  shows "p = q"
proof -
  have "length (allowed_contracts p) = length (allowed_contracts q)"
    using assms by (simp add: policy_bytes_def policy_wf_def length_prefix_inject)
  then show ?thesis
    using assms
    by (auto simp: policy_bytes_def policy_wf_def length_prefix_inject names_inject keys_inject)
qed

section \<open>Key derivation\<close>

fun derive_path :: "hmac_sha512 \<Rightarrow> child_key \<Rightarrow> u32 list \<Rightarrow> (child_key, wallet_error) res" where
  "derive_path hmac k [] = Ok k"
| "derive_path hmac k (i # is) = and_then (child_derive_child hmac k i) (\<lambda>k'. derive_path hmac k' is)"

lemma derive_hardened_Ok:
  "\<forall>key m. hmac key m \<noteq> None \<Longrightarrow>
     (\<exists>k. derive_hardened hmac priv chain i = Ok k) \<longleftrightarrow> HARDENED_OFFSET \<le> i"
  by (cases "hmac chain (0 # priv @ u32_be i)") (auto simp: derive_hardened_def not_less, metis option.distinct(1))

lemma derive_path_hardened_only:
  assumes "\<forall>key m. hmac key m \<noteq> None"
  shows "(\<exists>k'. derive_path hmac k is = Ok k') \<longleftrightarrow> list_all (\<lambda>i. HARDENED_OFFSET \<le> i) is"
proof (induction "is" arbitrary: k)
  case (Cons i "is")
  then show ?case
    using derive_hardened_Ok [OF assms, where priv = "ck_private k" and chain = "ck_chain_code k" and i = i]
    by (auto simp: child_derive_child_def and_then_Ok_iff)
qed simp

end
