(* ===== verification/Sdk.thy ===== *)
theory Sdk
  imports Protocol Wallet
begin

text \<open>
  The agent runtime, \<open>agent_sdk/src\<close>: the transport with its in-process bus (\<open>transport.rs\<close>), the view
  of the chain (\<open>onchain.rs\<close>) and the agent itself (\<open>agent.rs\<close>), which composes wallet, protocol and
  contracts. The mutexes only serialise the calls; the model runs one call at a time. A Rust
  \<open>HashMap\<close> that the code iterates over is an association list, whose order stands for the iteration order.
\<close>

section \<open>error.rs\<close>

text \<open>The string of a transport error: the one the bus formats, or that of another transport.\<close>

datatype transport_error = NoInbox bytes | OtherTransport rstring

datatype sdk_error =
    SdkWallet wallet_error
  | SdkProtocol protocol_error
  | SdkContract contract_error
  | SdkTernary ternary_error
  | SdkTransport transport_error
  | UnknownContract bytes

section \<open>transport.rs\<close>

record 't transport =
  send :: "bytes \<Rightarrow> protocol_message \<Rightarrow> 't \<Rightarrow> 't \<times> (unit, transport_error) res"
  poll :: "bytes \<Rightarrow> 't \<Rightarrow> 't \<times> protocol_message list"

record in_process_bus =
  inboxes :: "bytes \<rightharpoonup> protocol_message list"

definition bus_new :: in_process_bus where
  "bus_new = \<lparr> inboxes = Map.empty \<rparr>"

definition bus_register :: "bytes \<Rightarrow> in_process_bus \<Rightarrow> in_process_bus" where
  "bus_register pk bus =
     (if inboxes bus pk = None then bus\<lparr>inboxes := (inboxes bus)(pk \<mapsto> [])\<rparr> else bus)"

definition bus_send ::
  "bytes \<Rightarrow> protocol_message \<Rightarrow> in_process_bus \<Rightarrow> in_process_bus \<times> (unit, transport_error) res" where
  "bus_send to msg bus =
     (case inboxes bus to of
        None \<Rightarrow> (bus, Err (NoInbox to))
      | Some q \<Rightarrow> (bus\<lparr>inboxes := (inboxes bus)(to \<mapsto> q @ [msg])\<rparr>, Ok ()))"

definition bus_poll :: "bytes \<Rightarrow> in_process_bus \<Rightarrow> in_process_bus \<times> protocol_message list" where
  "bus_poll me bus =
     (case inboxes bus me of
        None \<Rightarrow> (bus, [])
      | Some q \<Rightarrow> (bus\<lparr>inboxes := (inboxes bus)(me \<mapsto> [])\<rparr>, q))"

definition bus_transport :: "in_process_bus transport" where
  "bus_transport = \<lparr> send = bus_send, poll = bus_poll \<rparr>"

section \<open>onchain.rs\<close>

record on_chain_view =
  lookup_registration :: "bytes \<Rightarrow> agent_registration option"
  lookup_reputation :: "bytes \<Rightarrow> reputation_counters"
  view_is_revoked :: "bytes \<Rightarrow> bool"

record in_memory_on_chain =
  registrations :: "bytes \<rightharpoonup> agent_registration"
  oc_reputation :: "bytes \<rightharpoonup> reputation_counters"
  revoked :: "bytes list"

definition on_chain_new :: in_memory_on_chain where
  "on_chain_new = \<lparr> registrations = Map.empty, oc_reputation = Map.empty, revoked = [] \<rparr>"

definition on_chain_register :: "agent_registration \<Rightarrow> in_memory_on_chain \<Rightarrow> in_memory_on_chain" where
  "on_chain_register reg c = c\<lparr>registrations := (registrations c)(ar_pubkey reg \<mapsto> reg)\<rparr>"

definition on_chain_revoke :: "bytes \<Rightarrow> in_memory_on_chain \<Rightarrow> in_memory_on_chain" where
  "on_chain_revoke pk c = c\<lparr>revoked := List.insert pk (revoked c)\<rparr>"

definition set_reputation :: "bytes \<Rightarrow> reputation_counters \<Rightarrow> in_memory_on_chain \<Rightarrow> in_memory_on_chain" where
  "set_reputation pk r c = c\<lparr>oc_reputation := (oc_reputation c)(pk \<mapsto> r)\<rparr>"

definition in_memory_view :: "in_memory_on_chain \<Rightarrow> on_chain_view" where
  "in_memory_view c =
     \<lparr> lookup_registration = registrations c,
       lookup_reputation = (\<lambda>pk. case oc_reputation c pk of None \<Rightarrow> counters_default | Some r \<Rightarrow> r),
       view_is_revoked = (\<lambda>pk. List.member (revoked c) pk) \<rparr>"

section \<open>agent.rs\<close>

record agent_identity =
  parent :: bytes
  child :: bytes
  id_policy_envelope :: policy_envelope

definition id_pubkey :: "ed25519 \<Rightarrow> agent_identity \<Rightarrow> bytes" where
  "id_pubkey ed i = ed_public ed (child i)"

definition id_parent_pubkey :: "ed25519 \<Rightarrow> agent_identity \<Rightarrow> bytes" where
  "id_parent_pubkey ed i = ed_public ed (parent i)"

datatype propose_decision = Decide_Accept | Decide_Reject rstring

record agent_sdk =
  identity :: agent_identity
  contracts :: "(bytes \<times> ternary_program) list"
  spending :: spending_tracker
  proposals :: proposal_log
  revocations :: revocation_set
  reputation :: "bytes \<rightharpoonup> reputation_counters"

definition sdk_new :: "agent_identity \<Rightarrow> agent_sdk" where
  "sdk_new i =
     \<lparr> identity = i, contracts = [], spending = tracker_new (env_policy (id_policy_envelope i)),
       proposals = log_new, revocations = revocations_new, reputation = Map.empty \<rparr>"

definition register_contract :: "ternary_program \<Rightarrow> agent_sdk \<Rightarrow> agent_sdk" where
  "register_contract p s = s\<lparr>contracts := AList.update (tp_program_hash_v2 p) p (contracts s)\<rparr>"

definition registration ::
  "ed25519 \<Rightarrow> rstring \<Rightarrow> rstring \<Rightarrow> rstring \<Rightarrow> u128 \<Rightarrow> u64 \<Rightarrow> agent_sdk \<Rightarrow> agent_registration" where
  "registration ed ep name fee bond ver s =
     registration_sign ed (child (identity s)) ep (map (\<lambda>(_, p). tp_name p) (contracts s))
       (map (\<lambda>(_, p). tp_program_hash p) (contracts s)) name fee bond ver"

definition sdk_propose ::
  "xof \<Rightarrow> ed25519 \<Rightarrow> bytes \<Rightarrow> bytes \<Rightarrow> bytes \<Rightarrow> u64 \<Rightarrow> u64 \<Rightarrow> u64 \<Rightarrow> agent_sdk \<Rightarrow> agent_sdk \<times> propose" where
  "sdk_propose xof ed program params to valid_from valid_until n s =
     (let p = propose_sign ed (child (identity s)) program params to valid_from valid_until n;
          (lg, _) = record_propose xof ed p (proposals s)
      in (s\<lparr>proposals := lg\<rparr>, p))"

text \<open>
  The handlers run on the agent and the transport. The question mark keeps the changes made so
  far: a failed step returns the state it leaves behind.
\<close>

type_synonym ('t, 'a) sdk_op = "agent_sdk \<times> 't \<Rightarrow> (agent_sdk \<times> 't) \<times> ('a, sdk_error) res"

definition op_bind :: "('t, 'a) sdk_op \<Rightarrow> ('a \<Rightarrow> ('t, 'b) sdk_op) \<Rightarrow> ('t, 'b) sdk_op" where
  "op_bind m k = (\<lambda>w. case m w of
     (w', Ok a) \<Rightarrow> k a w' | (w', Err e) \<Rightarrow> (w', Err e) | (w', Panic) \<Rightarrow> (w', Panic))"

definition op_res :: "('a, sdk_error) res \<Rightarrow> ('t, 'a) sdk_op" where
  "op_res r = (\<lambda>w. (w, r))"

definition op_log :: "(proposal_log \<Rightarrow> 'a log_op) \<Rightarrow> ('t, 'a) sdk_op" where
  "op_log f = (\<lambda>(s, t). let (lg, r) = f (proposals s) in ((s\<lparr>proposals := lg\<rparr>, t), map_err SdkProtocol r))"

definition op_send :: "'t transport \<Rightarrow> bytes \<Rightarrow> protocol_message \<Rightarrow> ('t, unit) sdk_op" where
  "op_send tr to msg = (\<lambda>(s, t). let (t', r) = send tr to msg t in ((s, t'), map_err SdkTransport r))"

definition find_contract :: "bytes \<Rightarrow> agent_sdk \<Rightarrow> (ternary_program, sdk_error) res" where
  "find_contract h s = ok_or (UnknownContract h) (map_of (contracts s) h)"

definition handle_propose ::
  "xof \<Rightarrow> ed25519 \<Rightarrow> 't transport \<Rightarrow> propose \<Rightarrow> u64 \<Rightarrow> (propose \<Rightarrow> propose_decision) \<Rightarrow> ('t, unit) sdk_op" where
  "handle_propose xof ed tr p now decide =
     op_bind (op_res (map_err SdkProtocol (propose_verify ed p))) (\<lambda>_ (s, t).
       let me = child (identity s); h = proposal_hash xof p
       in if is_revoked (revocations s) (pr_from p)
          then op_send tr (pr_from p) (Msg_Reject (reject_sign ed me h (ascii ''proposer revoked'') now)) (s, t)
          else op_bind (op_log (record_propose xof ed p)) (\<lambda>_.
               case decide p of
                 Decide_Accept \<Rightarrow>
                   let a = accept_sign ed me h now
                   in op_bind (op_log (apply_accept ed a)) (\<lambda>_. op_send tr (pr_from p) (Msg_Accept a))
               | Decide_Reject why \<Rightarrow>
                   let r = reject_sign ed me h why now
                   in op_bind (op_log (apply_reject ed r)) (\<lambda>_. op_send tr (pr_from p) (Msg_Reject r)))
               (s, t))"

definition handle_accept ::
  "ed25519 \<Rightarrow> 't transport \<Rightarrow> accept \<Rightarrow> bytes \<Rightarrow> u64 \<Rightarrow> ('t, unit) sdk_op" where
  "handle_accept ed tr a wit now =
     op_bind (op_res (map_err SdkProtocol (accept_verify ed a))) (\<lambda>_.
     op_bind (op_log (apply_accept ed a)) (\<lambda>_ (s, t).
       case log_get (proposals s) (ac_proposal_hash a) of
         None \<Rightarrow> ((s, t), Err (SdkProtocol (UnknownProposal (ac_proposal_hash a))))
       | Some (Accepted p _) \<Rightarrow>
           if pr_from p \<noteq> id_pubkey ed (identity s) then ((s, t), Ok ())
           else op_bind (op_res (find_contract (pr_program_hash p) s)) (\<lambda>c.
                op_bind (op_res (map_err SdkContract (tp_run c wit))) (\<lambda>expected.
                  let e = execute_sign ed (child (identity s)) (ac_proposal_hash a) wit expected now
                  in op_bind (op_log (apply_execute ed e)) (\<lambda>_. op_send tr (ac_by a) (Msg_Execute e))))
                (s, t)
       | Some _ \<Rightarrow> ((s, t), Ok ())))"

definition bump_reputation :: "bytes \<Rightarrow> bool \<Rightarrow> agent_sdk \<Rightarrow> agent_sdk" where
  "bump_reputation who agreed s =
     (let c = (case reputation s who of None \<Rightarrow> counters_default | Some c \<Rightarrow> c);
          c' = (if agreed then c\<lparr>completed := saturating_add (completed c) 1\<rparr>
                else c\<lparr>disputes_lost := saturating_add (disputes_lost c) 1\<rparr>)
      in s\<lparr>reputation := (reputation s)(who \<mapsto> c')\<rparr>)"

definition handle_execute :: "ed25519 \<Rightarrow> execute \<Rightarrow> on_chain_view \<Rightarrow> ('t, bool) sdk_op" where
  "handle_execute ed e onchain =
     op_bind (op_res (map_err SdkProtocol (execute_verify ed e))) (\<lambda>_.
     op_bind (op_log (apply_execute ed e)) (\<lambda>_ (s, t).
       case log_get (proposals s) (ex_proposal_hash e) of
         Some (Executed p _ _) \<Rightarrow>
           op_bind (op_res (find_contract (pr_program_hash p) s)) (\<lambda>c.
           op_bind (op_res (map_err SdkContract (tp_run c (ex_witness e)))) (\<lambda>actual (s, t).
             let agreed = (actual = expected_output e)
             in ((bump_reputation (ex_by e) agreed s, t), Ok agreed))) (s, t)
       | _ \<Rightarrow> ((s, t), Ok False)))"

definition resolve_dispute_for ::
  "ed25519 \<Rightarrow> propose \<Rightarrow> execute \<Rightarrow> dispute \<Rightarrow> agent_sdk \<Rightarrow> (dispute_outcome, sdk_error) res" where
  "resolve_dispute_for ed p e d s =
     and_then (find_contract (pr_program_hash p) s) (\<lambda>c. map_err SdkProtocol (resolve_dispute ed c p e d))"

definition admit_outgoing ::
  "rstring \<Rightarrow> bytes \<Rightarrow> u128 \<Rightarrow> u64 \<Rightarrow> agent_sdk \<Rightarrow> agent_sdk \<times> (unit, sdk_error) res" where
  "admit_outgoing name cp v now s =
     (let (tr, r) = admit now name cp v (spending s) in (s\<lparr>spending := tr\<rparr>, map_err SdkWallet r))"

definition local_reputation :: "agent_sdk \<Rightarrow> bytes \<Rightarrow> reputation_counters" where
  "local_reputation s a = (case reputation s a of None \<Rightarrow> counters_default | Some c \<Rightarrow> c)"

end
