(* ===== verification/Sdk_Laws.thy ===== *)
theory Sdk_Laws
  imports Sdk Protocol_Laws
begin

text \<open>
  What the agent runtime promises. The locale \<open>mailbox_transport\<close> is the contract of a transport
  (one queue per registered key); the negotiation between two honest agents is proved to
  complete over any such transport, and the in-process bus is shown to be one. The inductive
  \<open>sdk_reach\<close> collects the states an agent can get into.
\<close>

section \<open>Signed messages verify\<close>

lemma signed_verify:
  assumes "ed_correct ed"
  shows "propose_verify ed (propose_sign ed sk program params to vf vu n) = Ok ()"
    "accept_verify ed (accept_sign ed sk h now) = Ok ()"
    "reject_verify ed (reject_sign ed sk h why now) = Ok ()"
    "execute_verify ed (execute_sign ed sk h wit out now) = Ok ()"
  using assms
  by (simp_all add: propose_verify_def propose_sign_def propose_bytes_def accept_verify_def accept_sign_def
      accept_bytes_def reject_verify_def reject_sign_def reject_bytes_def execute_verify_def execute_sign_def
      execute_bytes_def verify_sig_def ed_correct_def Let_def)

lemma sign_fields [simp]:
  "pr_from (propose_sign ed sk program params to vf vu n) = ed_public ed sk"
  "pr_to (propose_sign ed sk program params to vf vu n) = to"
  "pr_program_hash (propose_sign ed sk program params to vf vu n) = program"
  "parameters (propose_sign ed sk program params to vf vu n) = params"
  "valid_until_unix (propose_sign ed sk program params to vf vu n) = vu"
  "ac_proposal_hash (accept_sign ed sk h now) = h"
  "ac_by (accept_sign ed sk h now) = ed_public ed sk"
  "accepted_at_unix (accept_sign ed sk h now) = now"
  "ex_proposal_hash (execute_sign ed sk h wit out now) = h"
  "ex_by (execute_sign ed sk h wit out now) = ed_public ed sk"
  "ex_witness (execute_sign ed sk h wit out now) = wit"
  "expected_output (execute_sign ed sk h wit out now) = out"
  by (simp_all add: propose_sign_def accept_sign_def execute_sign_def Let_def)

section \<open>One handler at a time\<close>

lemma op_simps [simp]:
  "op_bind (op_res (Ok a)) k w = k a w"
  "op_bind (op_res (Err e)) k w = (w, Err e)"
  "op_bind (op_res Panic) k w = (w, Panic)"
  by (simp_all add: op_bind_def op_res_def)

lemma op_bind_log:
  "op_bind (op_log f) k (s, t) =
     (case f (proposals s) of (lg, r) \<Rightarrow>
        case r of Ok a \<Rightarrow> k a (s\<lparr>proposals := lg\<rparr>, t) | Err e \<Rightarrow> ((s\<lparr>proposals := lg\<rparr>, t), Err (SdkProtocol e))
        | Panic \<Rightarrow> ((s\<lparr>proposals := lg\<rparr>, t), Panic))"
  by (simp add: op_bind_def op_log_def Let_def split: prod.splits res.splits)

lemma record_fresh:
  "propose_verify ed p = Ok () \<Longrightarrow> log_get lg (proposal_hash xof p) = None \<Longrightarrow>
     record_propose xof ed p lg = (log_insert (proposal_hash xof p) (Proposed p) lg, Ok (proposal_hash xof p))"
  by (simp add: record_propose_def guard_sig_def Let_def)

lemma accept_proposed:
  "accept_verify ed a = Ok () \<Longrightarrow> log_get lg (ac_proposal_hash a) = Some (Proposed p) \<Longrightarrow> ac_by a = pr_to p \<Longrightarrow>
     accepted_at_unix a \<le> valid_until_unix p \<Longrightarrow>
     apply_accept ed a lg =
       (log_insert (ac_proposal_hash a) (Accepted p a) (log_remove (ac_proposal_hash a) lg), Ok ())"
  by (simp add: apply_accept_def guard_sig_def Let_def not_less)

lemma execute_accepted:
  "execute_verify ed e = Ok () \<Longrightarrow> log_get lg (ex_proposal_hash e) = Some (Accepted p a) \<Longrightarrow> ex_by e = pr_from p \<Longrightarrow>
     apply_execute ed e lg =
       (log_insert (ex_proposal_hash e) (Executed p a e) (log_remove (ex_proposal_hash e) lg), Ok ())"
  by (simp add: apply_execute_def guard_sig_def Let_def)

text \<open>The state after a step, as far as the next one needs it.\<close>

definition log_at :: "hash \<Rightarrow> proposal_state \<Rightarrow> agent_sdk \<Rightarrow> agent_sdk \<Rightarrow> bool" where
  "log_at h st s s' \<longleftrightarrow> log_get (proposals s') h = Some st \<and> (\<exists>lg. s' = s\<lparr>proposals := lg\<rparr>)"

lemma log_at_fields:
  "log_at h st s s' \<Longrightarrow> log_get (proposals s') h = Some st \<and> identity s' = identity s \<and> contracts s' = contracts s"
  by (auto simp: log_at_def)

lemma sdk_propose_records:
  assumes "ed_correct ed" "p = propose_sign ed (child (identity s)) program params to vf vu n"
    and "log_get (proposals s) (proposal_hash xof p) = None"
  shows "\<exists>s'. sdk_propose xof ed program params to vf vu n s = (s', p) \<and>
    log_at (proposal_hash xof p) (Proposed p) s s'"
  using assms signed_verify(1) [OF assms(1)]
  by (auto simp: sdk_propose_def log_at_def record_fresh Let_def)

lemma handle_propose_accepts:
  assumes "ed_correct ed" "propose_verify ed p = Ok ()" "\<not> is_revoked (revocations s) (pr_from p)"
    and "log_get (proposals s) (proposal_hash xof p) = None" "decide p = Decide_Accept"
    and "pr_to p = id_pubkey ed (identity s)" "now \<le> valid_until_unix p"
    and "a = accept_sign ed (child (identity s)) (proposal_hash xof p) now"
    and "send tr (pr_from p) (Msg_Accept a) t = (t', Ok ())"
  shows "\<exists>s'. handle_propose xof ed tr p now decide (s, t) = ((s', t'), Ok ()) \<and>
    log_at (proposal_hash xof p) (Accepted p a) s s'"
  using assms signed_verify(2) [OF assms(1)]
  by (auto simp: handle_propose_def Let_def op_bind_log record_fresh accept_proposed id_pubkey_def op_send_def
      log_at_def)

lemma handle_accept_executes:
  assumes "ed_correct ed" "accept_verify ed a = Ok ()" "ac_proposal_hash a = h"
    and "log_get (proposals s) h = Some (Proposed p)" "ac_by a = pr_to p" "accepted_at_unix a \<le> valid_until_unix p"
    and "pr_from p = id_pubkey ed (identity s)" "map_of (contracts s) (pr_program_hash p) = Some c"
    and "tp_run c wit = Ok out" "e = execute_sign ed (child (identity s)) h wit out now"
    and "send tr (ac_by a) (Msg_Execute e) t = (t', Ok ())"
  shows "\<exists>s'. handle_accept ed tr a wit now (s, t) = ((s', t'), Ok ()) \<and> log_at h (Executed p a e) s s'"
  using assms signed_verify(4) [OF assms(1)]
  by (auto simp: handle_accept_def Let_def op_bind_log accept_proposed execute_accepted id_pubkey_def op_send_def
      log_at_def find_contract_def ok_or_def)

lemma handle_execute_agrees:
  assumes "execute_verify ed e = Ok ()" "ex_proposal_hash e = h"
    and "log_get (proposals s) h = Some (Accepted p a)" "ex_by e = pr_from p"
    and "map_of (contracts s) (pr_program_hash p) = Some c" "tp_run c (ex_witness e) = Ok out"
  shows "\<exists>s'. handle_execute ed e view (s, t) = ((s', t), Ok (out = expected_output e)) \<and>
    log_get (proposals s') h = Some (Executed p a e)"
  using assms
  by (auto simp: handle_execute_def Let_def op_bind_log execute_accepted find_contract_def ok_or_def bump_reputation_def)

section \<open>Transports\<close>

locale mailbox_transport =
  fixes tr :: "'t transport" and inbox :: "'t \<Rightarrow> bytes \<Rightarrow> protocol_message list option"
  assumes send_queues: "inbox t to = Some q \<Longrightarrow>
      \<exists>t'. send tr to m t = (t', Ok ()) \<and> inbox t' = (inbox t)(to \<mapsto> q @ [m])"
    and send_refused: "inbox t to = None \<Longrightarrow> \<exists>e. send tr to m t = (t, Err e)"
    and poll_empties: "inbox t me = Some q \<Longrightarrow> \<exists>t'. poll tr me t = (t', q) \<and> inbox t' = (inbox t)(me \<mapsto> [])"
begin

text \<open>A message sent to an empty mailbox is the next one read there, and no other mailbox changes.\<close>

lemma send_poll:
  assumes "inbox t to = Some []"
  shows "\<exists>t1 t2. send tr to m t = (t1, Ok ()) \<and> poll tr to t1 = (t2, [m]) \<and> inbox t2 = inbox t"
proof -
  obtain t1 where t1: "send tr to m t = (t1, Ok ())" "inbox t1 = (inbox t)(to \<mapsto> [m])"
    using send_queues [OF assms] by auto
  moreover obtain t2 where "poll tr to t1 = (t2, [m])" "inbox t2 = (inbox t1)(to \<mapsto> [])"
    using poll_empties [of t1 to "[m]"] t1(2) by auto
  ultimately show ?thesis using assms by (auto simp: fun_upd_idem)
qed

lemma negotiation:
  assumes ed: "ed_correct ed" and ready: "inbox t (id_pubkey ed (identity A)) = Some []" "inbox t (id_pubkey ed (identity B)) = Some []"
    and p: "p = propose_sign ed (child (identity A)) program params (id_pubkey ed (identity B)) vf vu n"
    and fresh: "log_get (proposals A) (proposal_hash xof p) = None" "log_get (proposals B) (proposal_hash xof p) = None"
    and known: "map_of (contracts A) program = Some c" "map_of (contracts B) program = Some c"
    and good: "\<not> is_revoked (revocations B) (id_pubkey ed (identity A))" "now1 \<le> vu" "tp_run c wit = Ok out"
    and decide: "decide p = Decide_Accept"
  shows "\<exists>a e A1 A2 B1 B2 t1 t2 t3 t4 t5 t6.
    sdk_propose xof ed program params (id_pubkey ed (identity B)) vf vu n A = (A1, p) \<and>
    send tr (id_pubkey ed (identity B)) (Msg_Propose p) t = (t1, Ok ()) \<and>
    poll tr (id_pubkey ed (identity B)) t1 = (t2, [Msg_Propose p]) \<and>
    handle_propose xof ed tr p now1 decide (B, t2) = ((B1, t3), Ok ()) \<and>
    poll tr (id_pubkey ed (identity A)) t3 = (t4, [Msg_Accept a]) \<and>
    handle_accept ed tr a wit now2 (A1, t4) = ((A2, t5), Ok ()) \<and>
    poll tr (id_pubkey ed (identity B)) t5 = (t6, [Msg_Execute e]) \<and>
    handle_execute ed e view (B1, t6) = ((B2, t6), Ok True) \<and>
    log_get (proposals A2) (proposal_hash xof p) = Some (Executed p a e) \<and>
    log_get (proposals B2) (proposal_hash xof p) = Some (Executed p a e) \<and>
    parameters p = params \<and> ex_witness e = wit \<and> expected_output e = out"
proof -
  let ?A = "id_pubkey ed (identity A)" and ?B = "id_pubkey ed (identity B)" and ?h = "proposal_hash xof p"
  define a where "a = accept_sign ed (child (identity B)) ?h now1"
  define e where "e = execute_sign ed (child (identity A)) ?h wit out now2"
  have msgs: "propose_verify ed p = Ok ()" "accept_verify ed a = Ok ()" "execute_verify ed e = Ok ()"
    using signed_verify [OF ed] by (simp_all add: p a_def e_def)
  have fields: "pr_from p = ?A" "pr_to p = ?B" "pr_program_hash p = program" "valid_until_unix p = vu"
    "ac_by a = ?B" "ac_proposal_hash a = ?h" "accepted_at_unix a = now1" "ex_by e = ?A" "ex_proposal_hash e = ?h"
    "ex_witness e = wit" "expected_output e = out"
    by (simp_all add: p a_def e_def id_pubkey_def)
  obtain A1 where A1: "sdk_propose xof ed program params ?B vf vu n A = (A1, p)" "log_at ?h (Proposed p) A A1"
    using sdk_propose_records [OF ed p fresh(1)] by blast
  obtain t1 t2 where t12: "send tr ?B (Msg_Propose p) t = (t1, Ok ())" "poll tr ?B t1 = (t2, [Msg_Propose p])"
      "inbox t2 = inbox t"
    using send_poll [OF ready(2)] by blast
  obtain t3 t4 where t34: "send tr ?A (Msg_Accept a) t2 = (t3, Ok ())" "poll tr ?A t3 = (t4, [Msg_Accept a])"
      "inbox t4 = inbox t"
    using send_poll [of t2 ?A "Msg_Accept a"] ready(1) t12(3) by auto
  obtain t5 t6 where t56: "send tr ?B (Msg_Execute e) t4 = (t5, Ok ())" "poll tr ?B t5 = (t6, [Msg_Execute e])"
    using send_poll [of t4 ?B "Msg_Execute e"] ready(2) t34(3) by auto
  obtain B1 where B1: "handle_propose xof ed tr p now1 decide (B, t2) = ((B1, t3), Ok ())"
      "log_at ?h (Accepted p a) B B1"
    using handle_propose_accepts [OF ed msgs(1), of B xof decide now1 a tr t2 t3] good fresh(2) t34(1) decide
    by (auto simp: fields a_def)
  obtain A2 where A2: "handle_accept ed tr a wit now2 (A1, t4) = ((A2, t5), Ok ())" "log_at ?h (Executed p a e) A1 A2"
    using handle_accept_executes [OF ed msgs(2) fields(6), of A1 p c wit out e now2 tr t4 t5]
      log_at_fields [OF A1(2)] known(1) good(2,3) t56(1)
    by (auto simp: fields e_def)
  obtain B2 where B2: "handle_execute ed e view (B1, t6) = ((B2, t6), Ok True)"
      "log_get (proposals B2) ?h = Some (Executed p a e)"
    using handle_execute_agrees [OF msgs(3) fields(9), of B1 p a c out view t6]
      log_at_fields [OF B1(2)] known(2) good(3)
    by (auto simp: fields)
  have "log_get (proposals A2) ?h = Some (Executed p a e)" "parameters p = params"
    using log_at_fields [OF A2(2)] by (simp_all add: p)
  then show ?thesis
    using A1(1) t12(1,2) B1(1) t34(2) A2(1) t56(2) B2 fields(10,11) by blast
qed

end

interpretation bus: mailbox_transport bus_transport inboxes
proof
  show "\<exists>t'. send bus_transport to m t = (t', Ok ()) \<and> inboxes t' = (inboxes t)(to \<mapsto> q @ [m])"
    if "inboxes t to = Some q" for t to q m
    using that by (simp add: bus_transport_def bus_send_def)
  show "\<exists>e. send bus_transport to m t = (t, Err e)" if "inboxes t to = None" for t to m
    using that by (simp add: bus_transport_def bus_send_def)
  show "\<exists>t'. poll bus_transport me t = (t', q) \<and> inboxes t' = (inboxes t)(me \<mapsto> [])"
    if "inboxes t me = Some q" for t me q
    using that by (simp add: bus_transport_def bus_poll_def)
qed

section \<open>The states of an agent\<close>

text \<open>Every operation of the runtime, with any decision function and any transport over the bus state.\<close>

inductive sdk_reach :: "xof \<Rightarrow> ed25519 \<Rightarrow> agent_identity \<Rightarrow> agent_sdk \<Rightarrow> bool" for xof ed i where
  start: "sdk_reach xof ed i (sdk_new i)"
| contract: "sdk_reach xof ed i (register_contract p s)" if "sdk_reach xof ed i s"
| propose: "sdk_reach xof ed i (fst (sdk_propose xof ed program params to vf vu n s))" if "sdk_reach xof ed i s"
| on_propose: "sdk_reach xof ed i (fst (fst (handle_propose xof ed tr p now decide (s, t :: in_process_bus))))"
    if "sdk_reach xof ed i s"
| on_accept: "sdk_reach xof ed i (fst (fst (handle_accept ed tr a wit now (s, t :: in_process_bus))))"
    if "sdk_reach xof ed i s"
| on_execute: "sdk_reach xof ed i (fst (fst (handle_execute ed e view (s, t :: in_process_bus))))"
    if "sdk_reach xof ed i s"
| spend: "sdk_reach xof ed i (fst (admit_outgoing name cp v now s))" if "sdk_reach xof ed i s"

definition sdk_inv :: "xof \<Rightarrow> ed25519 \<Rightarrow> agent_identity \<Rightarrow> agent_sdk \<Rightarrow> bool" where
  "sdk_inv xof ed i s \<longleftrightarrow>
     log_reach xof ed (proposals s) \<and> identity s = i \<and> revocations s = revocations_new \<and>
     (\<forall>a c. reputation s a = Some c \<longrightarrow> initiated c = 0 \<and> disputed c = 0) \<and>
     tr_policy (spending s) = env_policy (id_policy_envelope i)"

text \<open>An operation keeps the invariant whatever its result; the composition of such operations does.\<close>

definition keeps :: "(agent_sdk \<Rightarrow> bool) \<Rightarrow> ('t, 'a) sdk_op \<Rightarrow> bool" where
  "keeps P m \<longleftrightarrow> (\<forall>s t. P s \<longrightarrow> P (fst (fst (m (s, t)))))"

lemma keepsI: "(\<And>s t. P s \<Longrightarrow> P (fst (fst (m (s, t))))) \<Longrightarrow> keeps P m"
  by (simp add: keeps_def)

lemma keepsD: "keeps P m \<Longrightarrow> P s \<Longrightarrow> P (fst (fst (m (s, t))))"
  by (simp add: keeps_def)

lemma keeps_res: "keeps P (op_res r)"
  by (simp add: keeps_def op_res_def)

lemma keeps_send: "keeps P (op_send tr to m)"
  by (simp add: keeps_def op_send_def Let_def split: prod.splits)

lemma keeps_bind:
  assumes "keeps P m" "\<And>a. keeps P (k a)"
  shows "keeps P (op_bind m k)"
proof (rule keepsI)
  fix s t assume "P s"
  obtain s' t' r where m: "m (s, t) = ((s', t'), r)" by (metis prod.exhaust)
  then have "P s'" using keepsD [OF assms(1) \<open>P s\<close>, of t] by simp
  then show "P (fst (fst (op_bind m k (s, t))))"
    using m keepsD [OF assms(2)] by (cases r) (simp_all add: op_bind_def)
qed

lemma bindD:
  "keeps P m \<Longrightarrow> (\<And>a. keeps P (k a)) \<Longrightarrow> P s \<Longrightarrow> P (fst (fst (op_bind m k (s, t))))"
  by (rule keepsD [OF keeps_bind])

lemma sendD: "P s \<Longrightarrow> P (fst (fst (op_send tr to m (s, t))))"
  by (rule keepsD [OF keeps_send])

text \<open>
  What the message handlers keep: any property of the agent that recording a message in its log and
  bumping a reputation keep. The first interpretation is the invariant of reachable
  agents, the second says that no handler touches the spending tracker.
\<close>

locale handler_invariant =
  fixes xof :: xof and ed :: ed25519 and P :: "agent_sdk \<Rightarrow> bool"
  assumes logs: "keeps P (op_log (record_propose xof ed p) :: (in_process_bus, bytes) sdk_op)"
      "keeps P (op_log (apply_accept ed a) :: (in_process_bus, unit) sdk_op)"
      "keeps P (op_log (apply_reject ed r) :: (in_process_bus, unit) sdk_op)"
      "keeps P (op_log (apply_execute ed e) :: (in_process_bus, unit) sdk_op)"
    and bump: "P s \<Longrightarrow> P (bump_reputation who agreed s)"
begin

lemmas intros = bindD [of P] sendD [of P] keeps_bind [of P] keeps_res [of P] keeps_send [of P] logs

lemma handle_propose: "keeps P (handle_propose xof ed (tr :: in_process_bus transport) p now decide)"
  unfolding handle_propose_def
  by (rule keeps_bind [OF keeps_res], rule keepsI, cases "decide p") (simp_all add: Let_def intros)

lemma handle_accept: "keeps P (handle_accept ed (tr :: in_process_bus transport) a wit now)"
  unfolding handle_accept_def
  by (rule keeps_bind [OF keeps_res], rule keeps_bind [OF logs(2)], rule keepsI)
     (simp add: Let_def intros split: option.split proposal_state.split)

lemma handle_execute: "keeps P (handle_execute ed e view :: (in_process_bus, bool) sdk_op)"
  unfolding handle_execute_def
  by (rule keeps_bind [OF keeps_res], rule keeps_bind [OF logs(4)], rule keepsI)
     (simp add: Let_def intros keeps_def [of _ "case_prod _"] bump split: option.split proposal_state.split)

lemma propose: "P s \<Longrightarrow> P (fst (sdk_propose xof ed program params to vf vu n s))"
  using keepsD [OF logs(1), of s "propose_sign ed (child (identity s)) program params to vf vu n"]
  by (cases "record_propose xof ed (propose_sign ed (child (identity s)) program params to vf vu n) (proposals s)")
     (simp add: sdk_propose_def op_log_def Let_def)

end

lemma keeps_log:
  assumes "\<And>lg. log_reach xof ed lg \<Longrightarrow> log_reach xof ed (fst (f lg))"
  shows "keeps (sdk_inv xof ed i) (op_log f)"
proof (rule keepsI)
  fix s t assume "sdk_inv xof ed i s"
  moreover obtain lg r where "f (proposals s) = (lg, r)" by (metis prod.exhaust)
  ultimately show "sdk_inv xof ed i (fst (fst (op_log f (s, t))))"
    using assms [of "proposals s"] by (simp add: op_log_def sdk_inv_def)
qed

interpretation reached: handler_invariant xof ed "sdk_inv xof ed i"
proof
  show "sdk_inv xof ed i s \<Longrightarrow> sdk_inv xof ed i (bump_reputation who agreed s)" for s who agreed
    by (auto simp: sdk_inv_def bump_reputation_def counters_default_def Let_def split: option.split)
qed (rule keeps_log, metis handle.simps log_reach.step)+

interpretation tracker: handler_invariant xof ed "\<lambda>s. spending s = sp"
  by unfold_locales (auto simp: keeps_def op_log_def bump_reputation_def Let_def split: prod.splits)

lemma sdk_reach_inv: "sdk_reach xof ed i s \<Longrightarrow> sdk_inv xof ed i s"
proof (induction rule: sdk_reach.induct)
  case start
  then show ?case by (simp add: sdk_inv_def sdk_new_def log_reach.init tracker_new_def)
next
  case (contract s p)
  then show ?case by (simp add: sdk_inv_def register_contract_def)
next
  case (propose s program params to vf vu n)
  then show ?case by (simp add: reached.propose)
next
  case (spend s name cp v now)
  then show ?case
    by (auto simp: sdk_inv_def admit_outgoing_def admit_def try_spend_def current_window_total_def evict_expired_def
        Let_def split: option.split)
qed (auto intro: keepsD reached.handle_propose reached.handle_accept reached.handle_execute)

end
