(* ===== verification/Sdk_Properties.thy ===== *)
theory Sdk_Properties
  imports Sdk_Laws Protocol_Properties Wallet_Properties
begin

text \<open>
  The properties of the agent runtime: two honest agents reach agreement over the bus, and what the
  local view of an agent can and cannot contain.
\<close>

section \<open>Negotiation\<close>

text \<open>
  C27. A negotiation between two honest agents completes. When both agents know the contract and have
  mailboxes on the in-process bus, the proposer's message is delivered, the addressee, whose decision
  function accepts it, accepts in time, the proposer executes and the addressee agrees with the output; both logs
  end in the same executed state. The witness that is executed is any the contract accepts:
  nothing relates it to the parameters that were proposed and accepted.
\<close>

theorem negotiation_completes:
  assumes "ed_correct ed"
    and "inboxes t (id_pubkey ed (identity A)) = Some []" "inboxes t (id_pubkey ed (identity B)) = Some []"
    and "p = propose_sign ed (child (identity A)) program params (id_pubkey ed (identity B)) vf vu n"
    and "log_get (proposals A) (proposal_hash xof p) = None" "log_get (proposals B) (proposal_hash xof p) = None"
    and "map_of (contracts A) program = Some c" "map_of (contracts B) program = Some c"
    and "\<not> is_revoked (revocations B) (id_pubkey ed (identity A))" "now1 \<le> vu" "tp_run c wit = Ok out"
    and "decide p = Decide_Accept"
  shows "\<exists>a e A1 A2 B1 B2 t1 t2 t3 t4 t5 t6.
    sdk_propose xof ed program params (id_pubkey ed (identity B)) vf vu n A = (A1, p) \<and>
    send bus_transport (id_pubkey ed (identity B)) (Msg_Propose p) t = (t1, Ok ()) \<and>
    poll bus_transport (id_pubkey ed (identity B)) t1 = (t2, [Msg_Propose p]) \<and>
    handle_propose xof ed bus_transport p now1 decide (B, t2) = ((B1, t3), Ok ()) \<and>
    poll bus_transport (id_pubkey ed (identity A)) t3 = (t4, [Msg_Accept a]) \<and>
    handle_accept ed bus_transport a wit now2 (A1, t4) = ((A2, t5), Ok ()) \<and>
    poll bus_transport (id_pubkey ed (identity B)) t5 = (t6, [Msg_Execute e]) \<and>
    handle_execute ed e view (B1, t6) = ((B2, t6), Ok True) \<and>
    log_get (proposals A2) (proposal_hash xof p) = Some (Executed p a e) \<and>
    log_get (proposals B2) (proposal_hash xof p) = Some (Executed p a e) \<and>
    parameters p = params \<and> ex_witness e = wit \<and> expected_output e = out"
  using assms by (rule bus.negotiation)

definition sample_identity :: "bytes \<Rightarrow> agent_identity" where
  "sample_identity sk = \<lparr> parent = replicate 32 9, child = sk, id_policy_envelope = \<lparr> env_policy = sample_policy, env_sig = [] \<rparr> \<rparr>"

definition sample_agent :: "bytes \<Rightarrow> agent_sdk" where
  "sample_agent sk = register_contract std_transfer (sdk_new (sample_identity sk))"

definition sample_bus :: in_process_bus where
  "sample_bus = bus_register (replicate 32 4) (bus_register (replicate 32 1) bus_new)"

lemma sample_agent_facts:
  "proposals (sample_agent sk) = log_new" "map_of (contracts (sample_agent sk)) (tp_program_hash_v2 std_transfer) = Some std_transfer"
  "revocations (sample_agent sk) = revocations_new" "identity (sample_agent sk) = sample_identity sk"
  by (simp_all add: sample_agent_def register_contract_def sdk_new_def)

lemma sample_keys:
  "id_pubkey open_ed (sample_identity (replicate 32 1)) = replicate 32 1"
  "id_pubkey open_ed (sample_identity (replicate 32 4)) = replicate 32 4"
  by (simp_all add: id_pubkey_def sample_identity_def open_ed_def)

lemma sample_inboxes: "inboxes sample_bus (replicate 32 1) = Some []" "inboxes sample_bus (replicate 32 4) = Some []"
  by (simp_all add: sample_bus_def bus_register_def bus_new_def)

definition sample_offer :: propose where
  "sample_offer = propose_sign open_ed (replicate 32 1) (tp_program_hash_v2 std_transfer) [7] (replicate 32 4) 0 100 1"

theorem negotiation_completes_witness:
  "\<exists>a e A1 A2 B1 B2 t1 t2 t3 t4 t5 t6.
    sdk_propose zero_xof open_ed (tp_program_hash_v2 std_transfer) [7] (replicate 32 4) 0 100 1 (sample_agent (replicate 32 1)) = (A1, sample_offer) \<and>
    send bus_transport (replicate 32 4) (Msg_Propose sample_offer) sample_bus = (t1, Ok ()) \<and>
    poll bus_transport (replicate 32 4) t1 = (t2, [Msg_Propose sample_offer]) \<and>
    handle_propose zero_xof open_ed bus_transport sample_offer 50 (\<lambda>_. Decide_Accept) (sample_agent (replicate 32 4), t2) = ((B1, t3), Ok ()) \<and>
    poll bus_transport (replicate 32 1) t3 = (t4, [Msg_Accept a]) \<and>
    handle_accept open_ed bus_transport a pay_input 60 (A1, t4) = ((A2, t5), Ok ()) \<and>
    poll bus_transport (replicate 32 4) t5 = (t6, [Msg_Execute e]) \<and>
    handle_execute open_ed e (in_memory_view on_chain_new) (B1, t6) = ((B2, t6), Ok True) \<and>
    log_get (proposals A2) (proposal_hash zero_xof sample_offer) = Some (Executed sample_offer a e) \<and>
    log_get (proposals B2) (proposal_hash zero_xof sample_offer) = Some (Executed sample_offer a e) \<and>
    parameters sample_offer = [7] \<and> ex_witness e = pay_input \<and> expected_output e = transfer_spec 1000 5 300 7"
  by (rule negotiation_completes [where A = "sample_agent (replicate 32 1)" and B = "sample_agent (replicate 32 4)" and ed = open_ed and c = std_transfer
        and decide = "\<lambda>_. Decide_Accept",
        unfolded sample_agent_facts sample_keys])
     (simp_all add: open_ed_correct sample_inboxes sample_offer_def sample_identity_def pay_run revocations_new_def is_revoked_def
       sample_agent_facts [unfolded sample_identity_def])

section \<open>The local view\<close>

text \<open>
  C31. The local view of an agent, after any sequence of its operations: every state in its proposal
  log is justified by signatures and its spending tracker follows the policy it was created with; but
  the revocation cache that incoming proposals are checked against is always empty, and the
  score of every agent is always the neutral 500, because the runtime never records that an
  interaction was initiated or disputed.
\<close>

theorem agent_local_view:
  assumes "sdk_reach xof ed i s"
  shows "(log_get (proposals s) h = Some st \<longrightarrow> state_valid xof ed h st) \<and>
    tr_policy (spending s) = env_policy (id_policy_envelope i) \<and>
    \<not> is_revoked (revocations s) k \<and> score (local_reputation s a) = 500"
proof -
  have inv: "sdk_inv xof ed i s" using assms by (rule sdk_reach_inv)
  then have "log_valid xof ed (proposals s)" by (auto simp: sdk_inv_def intro: log_reach_valid)
  moreover have "initiated (local_reputation s a) = 0"
    using inv by (auto simp: sdk_inv_def local_reputation_def counters_default_def split: option.split)
  ultimately show ?thesis
    using inv by (auto simp: sdk_inv_def log_valid_def is_revoked_def revocations_new_def score_def)
qed

lemma sample_agent_reach: "sdk_reach zero_xof open_ed (sample_identity sk) (sample_agent sk)"
  by (simp add: sample_agent_def sdk_reach.start sdk_reach.contract)

definition after_execute :: agent_sdk where
  "after_execute = fst (fst (handle_execute open_ed honest_execute (in_memory_view on_chain_new)
     (fst (fst (handle_propose zero_xof open_ed bus_transport sample_propose 50 (\<lambda>_. Decide_Accept)
        (sample_agent (replicate 32 4), sample_bus))), sample_bus)))"

theorem agent_local_view_witness:
  "score (local_reputation after_execute (replicate 32 1)) = 500 \<and> \<not> is_revoked (revocations after_execute) (replicate 32 1)"
proof -
  have "sdk_reach zero_xof open_ed (sample_identity (replicate 32 4)) after_execute"
    unfolding after_execute_def by (intro sdk_reach.on_execute sdk_reach.on_propose sample_agent_reach)
  from agent_local_view [OF this] show ?thesis by blast
qed

end
