(* ===== verification/Agent_Examples.thy ===== *)
theory Agent_Examples
  imports Sdk_Properties
begin

text \<open>
  The three reference agents of \<open>agent_sdk/examples\<close>, as programs over the runtime: the trader
  (\<open>trader_agent.rs\<close>), the dispute over a false output (\<open>service_agent.rs\<close>) and the payment decided by the
  credit model with its dispute (\<open>inference_agent.rs\<close>). The seeded generator is a parameter, the
  \<open>k\<close>-th secret drawn after a seed; console output is left out, and each program returns the
  state in which it ends. The failed assertions and \<open>unwrap\<close> of the sources are \<open>Panic\<close>.
\<close>

section \<open>Shared steps\<close>

type_synonym seeded_rng = "u64 \<Rightarrow> nat \<Rightarrow> bytes"

text \<open>The boxed errors the programs return.\<close>

datatype boxed_error = Boxed_Sdk sdk_error | Boxed_Transport transport_error | Boxed_Contract contract_error

fun unwrap :: "('a, 'e) res \<Rightarrow> ('a, 'f) res" where
  "unwrap (Ok a) = Ok a"
| "unwrap (Err e) = Panic"
| "unwrap Panic = Panic"

definition make_identity :: "ed25519 \<Rightarrow> seeded_rng \<Rightarrow> u64 \<Rightarrow> rstring \<Rightarrow> (agent_identity, boxed_error) res" where
  "make_identity ed rng seed contract_name =
     (let psk = rng seed 0; csk = rng seed 1;
          policy = \<lparr> child_pubkey = ed_public ed csk, kp_parent_pubkey = ed_public ed psk, cap_per_window = - 1,
                     window_secs = 3600, allowed_contracts = [contract_name], allowed_counterparties = [],
                     expiry_unix = 0, kp_version = 1 \<rparr>
      in and_then (unwrap (envelope_sign ed psk policy)) (\<lambda>env.
         Ok \<lparr> parent = psk, child = csk, id_policy_envelope = env \<rparr>))"

text \<open>A handler called with the question mark, and the three loops over polled messages.\<close>

type_synonym side = "agent_sdk \<times> in_process_bus"

definition called :: "side \<times> ('a, sdk_error) res \<Rightarrow> (side \<times> 'a, boxed_error) res" where
  "called wr = (case wr of (w, r) \<Rightarrow> and_then (map_err Boxed_Sdk r) (\<lambda>a. Ok (w, a)))"

definition serve_proposes ::
  "xof \<Rightarrow> ed25519 \<Rightarrow> u64 \<Rightarrow> (propose \<Rightarrow> propose_decision) \<Rightarrow> protocol_message list \<Rightarrow> side \<Rightarrow> (side, boxed_error) res" where
  "serve_proposes xof ed now decide msgs =
     for_each msgs (\<lambda>msg w. case msg of
         Msg_Propose p \<Rightarrow> and_then (called (handle_propose xof ed bus_transport p now decide w)) (\<lambda>(w', _). Ok w')
       | _ \<Rightarrow> Ok w)"

definition serve_accepts ::
  "ed25519 \<Rightarrow> bytes \<Rightarrow> u64 \<Rightarrow> protocol_message list \<Rightarrow> side \<Rightarrow> (side, boxed_error) res" where
  "serve_accepts ed wit now msgs =
     for_each msgs (\<lambda>msg w. case msg of
         Msg_Accept a \<Rightarrow> and_then (called (handle_accept ed bus_transport a wit now w)) (\<lambda>(w', _). Ok w')
       | _ \<Rightarrow> Ok w)"

definition serve_executes ::
  "ed25519 \<Rightarrow> on_chain_view \<Rightarrow> protocol_message list \<Rightarrow> side \<Rightarrow> (side, boxed_error) res" where
  "serve_executes ed view msgs =
     for_each msgs (\<lambda>msg w. case msg of
         Msg_Execute e \<Rightarrow> and_then (called (handle_execute ed e view w)) (\<lambda>(w', agreed).
           if agreed then Ok w' else Panic)
       | _ \<Rightarrow> Ok w)"

text \<open>The exchange both settling programs run: propose, send, and one round of each loop.\<close>

type_synonym settled = "agent_sdk \<times> agent_sdk \<times> in_process_bus"

definition settle ::
  "xof \<Rightarrow> ed25519 \<Rightarrow> (propose \<Rightarrow> propose_decision) \<Rightarrow> on_chain_view \<Rightarrow> ternary_program \<Rightarrow> bytes \<Rightarrow>
   agent_sdk \<Rightarrow> agent_sdk \<Rightarrow> in_process_bus \<Rightarrow> (settled, boxed_error) res" where
  "settle xof ed decide view program wit a b bus =
     (let ka = id_pubkey ed (identity a); kb = id_pubkey ed (identity b);
          (a, p) = sdk_propose xof ed (tp_program_hash_v2 program) wit kb 0 (- 1) 1 a;
          (bus, sent) = send bus_transport kb (Msg_Propose p) bus
      in and_then (map_err Boxed_Transport sent) (\<lambda>_.
         let (bus, msgs) = poll bus_transport kb bus
         in and_then (serve_proposes xof ed 100 decide msgs (b, bus)) (\<lambda>(b, bus).
         let (bus, msgs) = poll bus_transport ka bus
         in and_then (serve_accepts ed wit 200 msgs (a, bus)) (\<lambda>(a, bus).
         let (bus, msgs) = poll bus_transport kb bus
         in and_then (serve_executes ed view msgs (b, bus)) (\<lambda>(b, bus).
         Ok (a, b, bus))))))"

section \<open>trader\_agent.rs\<close>

definition known_counterparty :: "on_chain_view \<Rightarrow> propose \<Rightarrow> propose_decision" where
  "known_counterparty view incoming =
     (if lookup_registration view (pr_from incoming) \<noteq> None then Decide_Accept
      else Decide_Reject (ascii ''counterparty unknown''))"

definition trader_main :: "xof \<Rightarrow> ed25519 \<Rightarrow> seeded_rng \<Rightarrow> (settled, boxed_error) res" where
  "trader_main xof ed rng =
     and_then (make_identity ed rng 11 (ascii ''transfer'')) (\<lambda>ia.
     and_then (make_identity ed rng 22 (ascii ''transfer'')) (\<lambda>ib.
     and_then (unwrap (transfer_build xof)) (\<lambda>c.
     let program = transfer_program c;
         alice = register_contract program (sdk_new ia);
         bob = register_contract program (sdk_new ib);
         bus = bus_register (id_pubkey ed (identity bob)) (bus_register (id_pubkey ed (identity alice)) bus_new);
         chain = on_chain_register (registration ed (ascii ''https://bob.example/v1'') (ascii ''Bob'') (ascii ''0.1% swap fee'') 1000 1 bob)
                   (on_chain_register (registration ed (ascii ''https://alice.example/v1'') (ascii ''Alice'') (ascii ''0.1% swap fee'') 1000 1 alice)
                      on_chain_new);
         wit = u128_le 1000 @ u128_le 500 @ u128_le 250 @ u64_le 7
     in settle xof ed (known_counterparty (in_memory_view chain)) (in_memory_view chain) program wit alice bob bus)))"

section \<open>service\_agent.rs\<close>

definition pack_transfer :: "u128 \<Rightarrow> u128 \<Rightarrow> u128 \<Rightarrow> u64 \<Rightarrow> bytes" where
  "pack_transfer from to amt nnc = u128_le from @ u128_le to @ u128_le amt @ u64_le nnc"

text \<open>The match on the outcome: anything but slashing the given executor stops the program.\<close>

definition expect_slash :: "bytes \<Rightarrow> dispute_outcome \<Rightarrow> (dispute_outcome, boxed_error) res" where
  "expect_slash executor outcome =
     (case outcome of
        SlashExecutor who _ \<Rightarrow> if who = executor then Ok outcome else Panic
      | DismissDispute _ _ \<Rightarrow> Panic)"

definition service_main ::
  "xof \<Rightarrow> ed25519 \<Rightarrow> seeded_rng \<Rightarrow> (in_process_bus \<times> in_memory_on_chain \<times> dispute_outcome, boxed_error) res" where
  "service_main xof ed rng =
     and_then (make_identity ed rng 31 (ascii ''transfer'')) (\<lambda>ia.
     and_then (make_identity ed rng 32 (ascii ''transfer'')) (\<lambda>ib.
     and_then (make_identity ed rng 33 (ascii ''transfer'')) (\<lambda>ij.
     and_then (unwrap (transfer_build xof)) (\<lambda>c.
     let program = transfer_program c;
         alice = register_contract program (sdk_new ia);
         bob = register_contract program (sdk_new ib);
         judge = register_contract program (sdk_new ij);
         bus = bus_register (id_pubkey ed (identity judge)) (bus_register (id_pubkey ed (identity bob))
                 (bus_register (id_pubkey ed (identity alice)) bus_new));
         chain = on_chain_register (registration ed (ascii ''https://bob.example/v1'') (ascii ''Bob'') (ascii ''0'') 1000 1 bob)
                   (on_chain_register (registration ed (ascii ''https://alice.example/v1'') (ascii ''Alice'') (ascii ''0'') 1000 1 alice)
                      on_chain_new);
         wit = pack_transfer 1000 500 250 7
     in and_then (map_err Boxed_Contract (tp_run program wit)) (\<lambda>actual.
        let (alice, p) = sdk_propose xof ed (tp_program_hash_v2 program) wit (id_pubkey ed (identity bob)) 0 (- 1) 1 alice;
            h = proposal_hash xof p;
            lied = replicate (length actual) 0;
            lied_execute = execute_sign ed (child (identity bob)) h wit lied 100;
            d = dispute_sign ed (child (identity alice)) h wit actual 200
        in and_then (map_err Boxed_Sdk (resolve_dispute_for ed p lied_execute d judge)) (\<lambda>outcome.
           and_then (expect_slash (id_pubkey ed (identity bob)) outcome) (\<lambda>outcome.
           Ok (bus, chain, outcome))))))))"

section \<open>inference\_agent.rs\<close>

definition happy_path :: "xof \<Rightarrow> ed25519 \<Rightarrow> seeded_rng \<Rightarrow> (settled, boxed_error) res" where
  "happy_path xof ed rng =
     and_then (make_identity ed rng 41 (ascii ''risk_gated_transfer'')) (\<lambda>il.
     and_then (make_identity ed rng 42 (ascii ''risk_gated_transfer'')) (\<lambda>id.
     and_then (unwrap (risk_gated_transfer_build xof)) (\<lambda>c.
     let program = risk_gated_transfer_program c;
         lender = register_contract program (sdk_new il);
         disburser = register_contract program (sdk_new id);
         bus = bus_register (id_pubkey ed (identity disburser)) (bus_register (id_pubkey ed (identity lender)) bus_new);
         features = [900, 300, 200, 5]
     in and_then (map_err Boxed_Contract (model_decision c features)) (\<lambda>_.
        settle xof ed (\<lambda>_. Decide_Accept) (in_memory_view on_chain_new) program
          (pack_input 1000 500 250 7 features) lender disburser bus))))"

definition dispute_path :: "xof \<Rightarrow> ed25519 \<Rightarrow> seeded_rng \<Rightarrow> (dispute_outcome, boxed_error) res" where
  "dispute_path xof ed rng =
     and_then (make_identity ed rng 51 (ascii ''risk_gated_transfer'')) (\<lambda>il.
     and_then (make_identity ed rng 52 (ascii ''risk_gated_transfer'')) (\<lambda>ib.
     and_then (make_identity ed rng 53 (ascii ''risk_gated_transfer'')) (\<lambda>ij.
     and_then (unwrap (risk_gated_transfer_build xof)) (\<lambda>c.
     let program = risk_gated_transfer_program c;
         lender = sdk_new il; bob = sdk_new ib; judge = register_contract program (sdk_new ij);
         denied_features = [900, 300, 200, 40]
     in and_then (map_err Boxed_Contract (model_decision c denied_features)) (\<lambda>approved.
        if approved then Panic
        else let wit = pack_input 1000 500 250 7 denied_features
        in and_then (map_err Boxed_Contract (tp_run program wit)) (\<lambda>true_output.
        let (lender, p) = sdk_propose xof ed (tp_program_hash_v2 program) wit (id_pubkey ed (identity bob)) 0 (- 1) 1 lender;
            h = proposal_hash xof p
        in and_then (map_err Boxed_Contract (tp_run program (pack_input 1000 500 250 7 [900, 300, 200, 5]))) (\<lambda>approved_output.
        let lied_execute = execute_sign ed (child (identity bob)) h wit approved_output 100;
            d = dispute_sign ed (child (identity lender)) h wit true_output 200
        in and_then (map_err Boxed_Sdk (resolve_dispute_for ed p lied_execute d judge))
             (expect_slash (id_pubkey ed (identity bob))))))))))"

definition inference_main :: "xof \<Rightarrow> ed25519 \<Rightarrow> seeded_rng \<Rightarrow> (settled \<times> dispute_outcome, boxed_error) res" where
  "inference_main xof ed rng =
     and_then (happy_path xof ed rng) (\<lambda>st.
     and_then (dispute_path xof ed rng) (\<lambda>outcome. Ok (st, outcome)))"

section \<open>How the steps run\<close>

lemma make_identity_ok:
  "make_identity ed rng seed name =
     Ok \<lparr> parent = rng seed 0, child = rng seed 1,
          id_policy_envelope =
            (let policy = \<lparr> child_pubkey = ed_public ed (rng seed 1), kp_parent_pubkey = ed_public ed (rng seed 0),
                            cap_per_window = - 1, window_secs = 3600, allowed_contracts = [name],
                            allowed_counterparties = [], expiry_unix = 0, kp_version = 1 \<rparr>
             in \<lparr> env_policy = policy, env_sig = ed_sign ed (rng seed 0) (policy_bytes policy) \<rparr>) \<rparr>"
  by (simp add: make_identity_def envelope_sign_def Let_def)

lemma make_identity_child:
  "\<exists>i. make_identity ed rng seed name = Ok i \<and> child i = rng seed 1 \<and> envelope_verify ed (id_policy_envelope i) = Ok ()"
  if "ed_correct ed"
  using that by (simp add: make_identity_ok Let_def envelope_verify_def ed_correct_def)

lemma fresh_agent [simp]:
  "proposals (register_contract p (sdk_new i)) = log_new" "identity (register_contract p (sdk_new i)) = i"
  "revocations (register_contract p (sdk_new i)) = revocations_new" "identity (sdk_new i) = i"
  "proposals (sdk_new i) = log_new" "log_get log_new h = None"
  "map_of (contracts (register_contract p (sdk_new i))) (tp_program_hash_v2 p) = Some p"
  by (simp_all add: register_contract_def sdk_new_def log_new_def log_get_def)

lemma registered_pair:
  "inboxes (bus_register kb (bus_register ka bus_new)) ka = Some []"
  "inboxes (bus_register kb (bus_register ka bus_new)) kb = Some []"
  by (simp_all add: bus_register_def bus_new_def)

lemma not_revoked_fresh: "\<not> is_revoked revocations_new k"
  by (simp add: is_revoked_def revocations_new_def)

text \<open>What \<open>settle\<close> leaves behind: both logs hold the executed proposal with the given output.\<close>

definition settled_with :: "xof \<Rightarrow> bytes \<Rightarrow> bytes \<Rightarrow> bytes \<Rightarrow> bytes \<Rightarrow> settled \<Rightarrow> bool" where
  "settled_with xof ka kb wit out st \<longleftrightarrow> (case st of (a, b, _) \<Rightarrow>
     \<exists>p ac ex. log_get (proposals a) (proposal_hash xof p) = Some (Executed p ac ex) \<and>
       log_get (proposals b) (proposal_hash xof p) = Some (Executed p ac ex) \<and>
       pr_from p = ka \<and> pr_to p = kb \<and> parameters p = wit \<and> ex_witness ex = wit \<and> expected_output ex = out)"

lemma settle_completes:
  assumes "ed_correct ed" "id_pubkey ed ia = ka" "id_pubkey ed ib = kb"
    and "\<And>p. pr_from p = ka \<Longrightarrow> decide p = Decide_Accept" "tp_run program wit = Ok out"
  shows "\<exists>st. settle xof ed decide view program wit (register_contract program (sdk_new ia)) (register_contract program (sdk_new ib))
      (bus_register kb (bus_register ka bus_new)) = Ok st \<and> settled_with xof ka kb wit out st"
proof -
  let ?A = "register_contract program (sdk_new ia)" and ?B = "register_contract program (sdk_new ib)"
    and ?t = "bus_register kb (bus_register ka bus_new)"
  define p where "p = propose_sign ed (child (identity ?A)) (tp_program_hash_v2 program) wit (id_pubkey ed (identity ?B)) 0 (- 1) 1"
  have p: "pr_from p = ka" "pr_to p = kb"
    using assms(2,3) by (simp_all add: p_def id_pubkey_def)
  obtain a e A1 A2 B1 B2 t1 t2 t3 t4 t5 t6 where run:
    "sdk_propose xof ed (tp_program_hash_v2 program) wit kb 0 (- 1) 1 ?A = (A1, p)"
    "send bus_transport kb (Msg_Propose p) ?t = (t1, Ok ())"
    "poll bus_transport kb t1 = (t2, [Msg_Propose p])"
    "handle_propose xof ed bus_transport p 100 decide (?B, t2) = ((B1, t3), Ok ())"
    "poll bus_transport ka t3 = (t4, [Msg_Accept a])"
    "handle_accept ed bus_transport a wit 200 (A1, t4) = ((A2, t5), Ok ())"
    "poll bus_transport kb t5 = (t6, [Msg_Execute e])"
    "handle_execute ed e view (B1, t6) = ((B2, t6), Ok True)"
    and ends: "log_get (proposals A2) (proposal_hash xof p) = Some (Executed p a e)"
      "log_get (proposals B2) (proposal_hash xof p) = Some (Executed p a e)"
      "parameters p = wit" "ex_witness e = wit" "expected_output e = out"
    using bus.negotiation [where A = ?A and B = ?B and t = ?t and c = program and ?now1.0 = 100 and ?now2.0 = 200
        and decide = decide and view = view and xof = xof, OF assms(1) _ _ p_def _ _ _ _ _ _ assms(5)]
      assms(2-4) p registered_pair not_revoked_fresh
    by auto
  have "settle xof ed decide view program wit ?A ?B ?t = Ok (A2, B2, t6)"
    using run assms(2,3) by (simp add: settle_def serve_proposes_def serve_accepts_def serve_executes_def called_def Let_def)
  moreover have "settled_with xof ka kb wit out (A2, B2, t6)"
    using ends p by (auto simp: settled_with_def)
  ultimately show ?thesis by blast
qed

section \<open>What the contracts return on packed inputs\<close>

lemma pack_transfer_run:
  "tp_run (transfer_program (std_contract xof (ascii ''transfer''))) (pack_transfer f t a n) =
     Ok (transfer_spec (unat f) (unat t) (unat a) (unat n))"
  using unat_bound [of f] unat_bound [of t] unat_bound [of a] unat_bound [of n]
  by (simp add: transfer_program_def program_of_def transfer.right_length pack_transfer_def num_field_simps
      u128_le_def u64_le_def)

lemma pack_input_fields:
  "num_field (pack_input f t a n [w, x, y, z]) 0 16 = unat f" "num_field (pack_input f t a n [w, x, y, z]) 16 32 = unat t"
  "num_field (pack_input f t a n [w, x, y, z]) 32 48 = unat a" "num_field (pack_input f t a n [w, x, y, z]) 48 56 = unat n"
  "length (pack_input f t a n [w, x, y, z]) = 64"
  using unat_bound [of f] unat_bound [of t] unat_bound [of a] unat_bound [of n]
  by (simp_all add: pack_input_def num_field_simps u128_le_def u64_le_def u16_le_def)

lemma pack_input_features:
  "feature (pack_input f t a n [w, x, y, z]) 0 = uint w" "feature (pack_input f t a n [w, x, y, z]) 1 = uint x"
  "feature (pack_input f t a n [w, x, y, z]) 2 = uint y" "feature (pack_input f t a n [w, x, y, z]) 3 = uint z"
  using unat_bound [of w] unat_bound [of x] unat_bound [of y] unat_bound [of z]
  by (simp_all add: feature_def pack_input_def num_field_simps u128_le_def u64_le_def u16_le_def)

lemma uint_u16: "0 \<le> uint (w :: u16)" "uint (w :: u16) \<le> 65535"
  using uint_bounded [of w] by simp_all

lemma model_decision_std:
  "model_decision (std_risk_contract xof) [w, x, y, z] = Ok (approves (uint w) (uint x) (uint y) (uint z))"
  by (simp add: model_decision_def credit_model_forward uint_u16 first_or_0_def)

lemma risk_program_run:
  "tp_run (risk_gated_transfer_program (std_risk_contract xof)) (pack_input f t a n [w, x, y, z]) =
     Ok (if approves (uint w) (uint x) (uint y) (uint z) then transfer_spec (unat f) (unat t) (unat a) (unat n)
         else no_op_output 40)"
  using pack_input_features [of f t a n w x y z]
  by (simp add: risk_gated_transfer_program_def program_of_def risk_gated.right_length pack_input_fields credit_guard_def)

lemma transfer_250: "transfer_spec 1000 500 250 7 = le_bytes 16 750 @ le_bytes 16 750 @ le_bytes 8 8"
  by (simp add: transfer_spec_def)

lemma transfer_250_not_zero: "transfer_spec 1000 500 250 7 \<noteq> replicate 40 0"
proof
  assume "transfer_spec 1000 500 250 7 = replicate 40 0"
  moreover have "num_field (transfer_spec 1000 500 250 7) 0 16 = 750" by (simp add: transfer_spec_fields)
  moreover have "num_field (replicate 40 0) 0 16 = 0" by (simp add: num_field_def subslice_def)
  ultimately show False by simp
qed

section \<open>The judge\<close>

text \<open>A judge who knows the contract slashes the signer of an output the contract does not give.\<close>

lemma dispute_signed: "ed_correct ed \<Longrightarrow> dispute_verify ed (dispute_sign ed sk h w out at) = Ok ()"
  by (simp add: dispute_verify_def dispute_sign_def dispute_bytes_def ed_correct_def Let_def)

lemma dispute_sign_fields [simp]:
  "di_proposal_hash (dispute_sign ed sk h w out at) = h" "di_witness (dispute_sign ed sk h w out at) = w"
  by (simp_all add: dispute_sign_def Let_def)

lemma judge_slashes:
  assumes "ed_correct ed" "tp_run program wit = Ok out" "lie \<noteq> out"
  shows "resolve_dispute_for ed (propose_sign ed sk (tp_program_hash_v2 program) params to vf vu n)
      (execute_sign ed bsk h wit' lie at1) (dispute_sign ed dsk h wit claim at2) (register_contract program (sdk_new ij)) =
    Ok (SlashExecutor (ed_public ed bsk) out)"
  using assms signed_verify [OF assms(1)] dispute_signed [OF assms(1)]
  by (simp add: resolve_dispute_for_def find_contract_def resolve_dispute_def)

lemma sdk_propose_signs: "snd (sdk_propose xof ed program params to vf vu n s) = propose_sign ed (child (identity s)) program params to vf vu n"
  "identity (fst (sdk_propose xof ed program params to vf vu n s)) = identity s"
  by (simp_all add: sdk_propose_def Let_def split: prod.split)

section \<open>The programs\<close>

text \<open>
  The trader example runs to its end for every key generator: with a correct signature scheme no
  step fails and no assertion fires, Bob accepts because Alice is registered, and both logs
  hold the same executed proposal from Alice to Bob, on the packed balances 1000 and 500,
  amount 250 and nonce 7, with the output balances 750 and 750 and nonce 8.
\<close>

theorem trader_main_settles:
  assumes "ed_correct ed"
  shows "\<exists>st. trader_main xof ed rng = Ok st \<and>
    settled_with xof (ed_public ed (rng 11 1)) (ed_public ed (rng 22 1)) (pack_transfer 1000 500 250 7)
      (le_bytes 16 750 @ le_bytes 16 750 @ le_bytes 8 8) st"
proof -
  obtain ia ib where ids: "make_identity ed rng 11 (ascii ''transfer'') = Ok ia" "child ia = rng 11 1"
      "make_identity ed rng 22 (ascii ''transfer'') = Ok ib" "child ib = rng 22 1"
    using make_identity_child [OF assms] by metis
  let ?program = "transfer_program (std_contract xof (ascii ''transfer''))"
  have "tp_run ?program (pack_transfer 1000 500 250 7) = Ok (le_bytes 16 750 @ le_bytes 16 750 @ le_bytes 8 8)"
    using pack_transfer_run [of xof 1000 500 250 7] transfer_250 by simp
  from settle_completes [OF assms _ _ _ this, of ia "ed_public ed (rng 11 1)" ib "ed_public ed (rng 22 1)"] ids
  show ?thesis
    by (simp add: trader_main_def contract_builds id_pubkey_def Let_def known_counterparty_def in_memory_view_def
        on_chain_register_def registration_def registration_sign_def pack_transfer_def)
qed

theorem trader_main_settles_witness:
  "\<exists>st. trader_main zero_xof open_ed (\<lambda>seed k. replicate 32 (ucast seed)) = Ok st \<and>
    settled_with zero_xof (ed_public open_ed (replicate 32 11)) (ed_public open_ed (replicate 32 22)) (pack_transfer 1000 500 250 7)
      (le_bytes 16 750 @ le_bytes 16 750 @ le_bytes 8 8) st"
  using trader_main_settles [OF open_ed_correct, of zero_xof "\<lambda>seed k. replicate 32 (ucast seed)"] by simp

text \<open>
  The service example ends with Bob slashed: the all-zero output he signed is not what the transfer
  contract gives on the witness of the dispute.
\<close>

theorem service_main_slashes:
  assumes "ed_correct ed"
  shows "\<exists>bus chain. service_main xof ed rng =
    Ok (bus, chain, SlashExecutor (ed_public ed (rng 32 1)) (le_bytes 16 750 @ le_bytes 16 750 @ le_bytes 8 8))"
proof -
  obtain ia ib ij where ids: "make_identity ed rng 31 (ascii ''transfer'') = Ok ia" "child ia = rng 31 1"
      "make_identity ed rng 32 (ascii ''transfer'') = Ok ib" "child ib = rng 32 1"
      "make_identity ed rng 33 (ascii ''transfer'') = Ok ij"
    using make_identity_child [OF assms] by metis
  have run: "tp_run (transfer_program (std_contract xof (ascii ''transfer''))) (pack_transfer 1000 500 250 7) =
      Ok (transfer_spec 1000 500 250 7)"
    using pack_transfer_run [of xof 1000 500 250 7] by simp
  show ?thesis
    using ids transfer_250_not_zero [symmetric]
    by (simp add: service_main_def contract_builds Let_def split_beta sdk_propose_signs id_pubkey_def run
        judge_slashes [OF assms run] expect_slash_def transfer_250)
qed

text \<open>
  The inference example runs to its end for every key generator: the model approves the first
  applicant and the payment settles between the two agents with the balances 750 and 750 and
  nonce 8; it denies the second applicant, on whom the contract returns forty zero bytes,
  so the judge slashes Bob, who signed the output of an approved payment.
\<close>

theorem inference_main_adjudicates:
  assumes "ed_correct ed"
  shows "\<exists>st. inference_main xof ed rng = Ok (st, SlashExecutor (ed_public ed (rng 52 1)) (replicate 40 0)) \<and>
    settled_with xof (ed_public ed (rng 41 1)) (ed_public ed (rng 42 1)) (pack_input 1000 500 250 7 [900, 300, 200, 5])
      (le_bytes 16 750 @ le_bytes 16 750 @ le_bytes 8 8) st"
proof -
  let ?name = "ascii ''risk_gated_transfer''" and ?c = "std_risk_contract xof"
  obtain il id' i1 ib ij where ids: "make_identity ed rng 41 ?name = Ok il" "child il = rng 41 1"
      "make_identity ed rng 42 ?name = Ok id'" "child id' = rng 42 1" "make_identity ed rng 51 ?name = Ok i1"
      "make_identity ed rng 52 ?name = Ok ib" "child ib = rng 52 1" "make_identity ed rng 53 ?name = Ok ij"
    using make_identity_child [OF assms] by metis
  have runs: "tp_run (risk_gated_transfer_program ?c) (pack_input 1000 500 250 7 [900, 300, 200, 5]) =
      Ok (le_bytes 16 750 @ le_bytes 16 750 @ le_bytes 8 8)"
    "tp_run (risk_gated_transfer_program ?c) (pack_input 1000 500 250 7 [900, 300, 200, 40]) = Ok (replicate 40 0)"
    using transfer_250 by (simp_all add: risk_program_run approves_def no_op_output_def)
  have differ: "le_bytes 16 750 @ le_bytes 16 750 @ le_bytes 8 8 \<noteq> replicate 40 0"
    using transfer_250_not_zero transfer_250 by simp
  obtain st where "happy_path xof ed rng = Ok st" and st: "settled_with xof (ed_public ed (rng 41 1)) (ed_public ed (rng 42 1))
      (pack_input 1000 500 250 7 [900, 300, 200, 5]) (le_bytes 16 750 @ le_bytes 16 750 @ le_bytes 8 8) st"
    using settle_completes [OF assms _ _ _ runs(1), of il "ed_public ed (rng 41 1)" id' "ed_public ed (rng 42 1)"
        "\<lambda>_. Decide_Accept" xof "in_memory_view on_chain_new"] ids
    by (auto simp: happy_path_def risk_build_ok id_pubkey_def model_decision_std Let_def)
  moreover have "dispute_path xof ed rng = Ok (SlashExecutor (ed_public ed (rng 52 1)) (replicate 40 0))"
    using ids by (simp add: dispute_path_def risk_build_ok model_decision_std approves_def Let_def split_beta
        sdk_propose_signs id_pubkey_def runs judge_slashes [OF assms runs(2) differ] expect_slash_def)
  ultimately show ?thesis by (simp add: inference_main_def)
qed

theorem inference_main_adjudicates_witness:
  "\<exists>st. inference_main zero_xof open_ed (\<lambda>seed k. replicate 32 (ucast seed)) =
      Ok (st, SlashExecutor (ed_public open_ed (replicate 32 52)) (replicate 40 0)) \<and>
    settled_with zero_xof (ed_public open_ed (replicate 32 41)) (ed_public open_ed (replicate 32 42))
      (pack_input 1000 500 250 7 [900, 300, 200, 5]) (le_bytes 16 750 @ le_bytes 16 750 @ le_bytes 8 8) st"
  using inference_main_adjudicates [OF open_ed_correct, of zero_xof "\<lambda>seed k. replicate 32 (ucast seed)"] by simp

text \<open>
  The verdict the model reports and the payment the contract makes agree on every applicant: the
  contract run on a packed input pays exactly when \<open>model_decision\<close> approves the same features.
\<close>

theorem verdict_gates_payment:
  "\<exists>ok. model_decision (std_risk_contract xof) [w, x, y, z] = Ok ok \<and>
     risk_gated_transfer_run (std_risk_contract xof) (pack_input f t a n [w, x, y, z]) =
       Ok (if ok then transfer_spec (unat f) (unat t) (unat a) (unat n) else no_op_output 40)"
  using risk_program_run [of xof f t a n w x y z]
  by (simp add: model_decision_std risk_gated_transfer_program_def program_of_def)

end
