(* ===== verification/Agility.thy ===== *)
theory Agility
  imports Crypto
begin

text \<open>
  The signature and hash half of the agility layer, \<open>crypto_agility/src\<close>: the varint prefix (\<open>codec.rs\<close>),
  scheme identifiers (\<open>scheme.rs\<close>), errors (\<open>errors.rs\<close>), hash blobs (\<open>hash.rs\<close>), signers, verifiers
  and policies (\<open>signer.rs\<close>), and the hybrid of ed25519 and ML-DSA-65 (\<open>hybrid.rs\<close>). ML-DSA-65 is the
  record \<open>mldsa65\<close> of the operations the code calls; the randomness a signature draws is an argument.
\<close>

section \<open>codec.rs\<close>

datatype varint_error = VarintTruncated | VarintTooLong | VarintOverflow

definition MAX_VARINT_LEN :: usize where "MAX_VARINT_LEN = 5"

text \<open>The bytes that the loop of \<open>encode_varint\<close> pushes.\<close>

function varint_bytes :: "u32 \<Rightarrow> bytes" where
  "varint_bytes v =
     (let byte = ucast (v AND 0x7f); v' = drop_bit 7 v
      in if v' \<noteq> 0 then (byte OR 0x80) # varint_bytes v' else [byte])"
  by pat_completeness auto
termination
proof (relation "measure unat")
  fix v v' :: u32 and byte :: u8
  assume "v' = drop_bit 7 v" "v' \<noteq> 0"
  then have u: "unat v' = unat v div 2 ^ 7" by (simp add: drop_bit_eq_div unat_div)
  have "unat v' \<noteq> 0" using \<open>v' \<noteq> 0\<close> by (simp add: unat_eq_0)
  then have "0 < unat v" using u by (cases "unat v = 0") auto
  then show "(v', v) \<in> measure unat" using u by simp
qed simp

declare varint_bytes.simps [simp del]

definition encode_varint :: "u32 \<Rightarrow> bytes \<Rightarrow> bytes \<times> usize" where
  "encode_varint value out = (out @ varint_bytes value, length (out @ varint_bytes value) - length out)"

definition checked_shl :: "u32 \<Rightarrow> u32 \<Rightarrow> u32 option" where
  "checked_shl x n = (if n < 32 then Some (push_bit (unat n) x) else None)"

fun decode_loop :: "usize \<Rightarrow> u32 \<Rightarrow> u32 \<Rightarrow> bytes \<Rightarrow> (u32 \<times> usize, varint_error) res" where
  "decode_loop i result shift [] = Err VarintTruncated"
| "decode_loop i result shift (byte # bytes) =
     (if i \<ge> MAX_VARINT_LEN then Err VarintTooLong
      else and_then (ok_or VarintOverflow (checked_shl (ucast (byte AND 0x7f)) shift)) (\<lambda>c.
           and_then (ok_or VarintOverflow (checked_add result c)) (\<lambda>result'.
           if byte AND 0x80 = 0 then Ok (result', i + 1)
           else and_then (ok_or VarintOverflow (checked_add shift 7)) (\<lambda>shift'.
                decode_loop (i + 1) result' shift' bytes))))"

definition decode_varint :: "bytes \<Rightarrow> (u32 \<times> usize, varint_error) res" where
  "decode_varint bytes = decode_loop 0 0 0 bytes"

section \<open>errors.rs\<close>

text \<open>The formatted messages of failing primitives, one constructor each.\<close>

datatype primitive_msg = MlDsaSecretKey | MlDsaSigLength usize usize

datatype signer_error =
    SchemeNotImplemented u32
  | SignerMalformedKey u32 string
  | SignerPrimitive primitive_msg

datatype verifier_error =
    UnknownScheme u32
  | SchemeNotAccepted u32
  | MalformedSignature u32 string
  | MalformedPublicKey u32 string
  | BadSignature u32
  | HybridSignatureInvalid

datatype hybrid_failure = ClassicalComponent | PqComponent

fun hybrid_failure_str :: "hybrid_failure \<Rightarrow> string" where
  "hybrid_failure_str ClassicalComponent = ''classical''"
| "hybrid_failure_str PqComponent = ''pq''"

datatype kem_error =
    KemSchemeNotSupported u32
  | KemMalformedPublicKey u32 string
  | KemMalformedCiphertext u32 string
  | TruncatedBlob u32 usize usize
  | AuthenticationFailed

datatype hash_error = HashUnknownScheme u32 | HashWrongLength u32 usize usize

section \<open>scheme.rs\<close>

datatype signature_scheme = Ed25519 | HybridEd25519MlDsa65 | SlhDsa128s

definition scheme_from_u32 :: "u32 \<Rightarrow> (signature_scheme, verifier_error) res" where
  "scheme_from_u32 v =
     (if v = 1 then Ok Ed25519 else if v = 2 then Ok HybridEd25519MlDsa65 else if v = 3 then Ok SlhDsa128s
      else Err (UnknownScheme v))"

fun scheme_as_u32 :: "signature_scheme \<Rightarrow> u32" where
  "scheme_as_u32 Ed25519 = 1"
| "scheme_as_u32 HybridEd25519MlDsa65 = 2"
| "scheme_as_u32 SlhDsa128s = 3"

fun scheme_is_implemented :: "signature_scheme \<Rightarrow> bool" where
  "scheme_is_implemented Ed25519 = True"
| "scheme_is_implemented HybridEd25519MlDsa65 = True"
| "scheme_is_implemented SlhDsa128s = False"

definition signer_error_of_scheme :: "signature_scheme \<Rightarrow> signer_error" where
  "signer_error_of_scheme s = SchemeNotImplemented (scheme_as_u32 s)"

datatype kem_scheme_id = X25519 | HybridX25519MlKem768

definition kem_from_u32 :: "u32 \<Rightarrow> (kem_scheme_id, verifier_error) res" where
  "kem_from_u32 v = (if v = 1 then Ok X25519 else if v = 2 then Ok HybridX25519MlKem768 else Err (UnknownScheme v))"

fun kem_as_u32 :: "kem_scheme_id \<Rightarrow> u32" where
  "kem_as_u32 X25519 = 1"
| "kem_as_u32 HybridX25519MlKem768 = 2"

definition kem_is_implemented :: "kem_scheme_id \<Rightarrow> bool" where
  "kem_is_implemented k = False"

section \<open>hash.rs\<close>

datatype hash_scheme = Blake3_256 | Blake3_512

fun hash_scheme_as_u32 :: "hash_scheme \<Rightarrow> u32" where
  "hash_scheme_as_u32 Blake3_256 = 1"
| "hash_scheme_as_u32 Blake3_512 = 2"

definition hash_scheme_from_u32 :: "u32 \<Rightarrow> (hash_scheme, hash_error) res" where
  "hash_scheme_from_u32 v = (if v = 1 then Ok Blake3_256 else if v = 2 then Ok Blake3_512 else Err (HashUnknownScheme v))"

fun output_len :: "hash_scheme \<Rightarrow> usize" where
  "output_len Blake3_256 = 32"
| "output_len Blake3_512 = 64"

text \<open>The two implementations of the hasher trait.\<close>

fun scheme_hash :: "xof \<Rightarrow> hash_scheme \<Rightarrow> bytes \<Rightarrow> bytes" where
  "scheme_hash xof Blake3_256 data = xof data 32"
| "scheme_hash xof Blake3_512 data = xof data 64"

definition encode_hash_blob :: "xof \<Rightarrow> hash_scheme \<Rightarrow> bytes \<Rightarrow> bytes" where
  "encode_hash_blob xof h data = fst (encode_varint (hash_scheme_as_u32 h) []) @ scheme_hash xof h data"

definition decode_hash_blob :: "bytes \<Rightarrow> (hash_scheme \<times> bytes, hash_error) res" where
  "decode_hash_blob blob =
     and_then (map_err (\<lambda>_. HashUnknownScheme 0) (decode_varint blob)) (\<lambda>(scheme_u32, off).
     and_then (hash_scheme_from_u32 scheme_u32) (\<lambda>scheme.
     let body = drop off blob
     in if length body \<noteq> output_len scheme
        then Err (HashWrongLength scheme_u32 (output_len scheme) (length body))
        else Ok (scheme, body)))"

section \<open>signer.rs\<close>

text \<open>The signer trait: scheme, public key, and signing with the randomness it draws.\<close>

record signer =
  sg_scheme :: signature_scheme
  sg_public_key :: bytes
  sg_sign :: "bytes \<Rightarrow> bytes \<Rightarrow> (bytes, signer_error) res"

type_synonym verifier = "signature_scheme \<Rightarrow> bytes \<Rightarrow> bytes \<Rightarrow> bytes \<Rightarrow> (unit, verifier_error) res"

definition sign_with_prefix :: "signer \<Rightarrow> bytes \<Rightarrow> bytes \<Rightarrow> (bytes, signer_error) res" where
  "sign_with_prefix s rnd message =
     and_then (sg_sign s rnd message) (\<lambda>sig.
     Ok (fst (encode_varint (scheme_as_u32 (sg_scheme s)) []) @ sig))"

definition verify_prefixed :: "verifier \<Rightarrow> bytes \<Rightarrow> bytes \<Rightarrow> bytes \<Rightarrow> (unit, verifier_error) res" where
  "verify_prefixed v message prefixed_sig prefixed_pubkey =
     and_then (map_err (\<lambda>_. MalformedSignature 0 ''varint scheme prefix on signature is malformed'')
                 (decode_varint prefixed_sig)) (\<lambda>(sig_scheme, sig_off).
     and_then (map_err (\<lambda>_. MalformedPublicKey 0 ''varint scheme prefix on public key is malformed'')
                 (decode_varint prefixed_pubkey)) (\<lambda>(pk_scheme, pk_off).
     if sig_scheme \<noteq> pk_scheme then Err (SchemeNotAccepted sig_scheme)
     else and_then (scheme_from_u32 sig_scheme) (\<lambda>scheme.
          v scheme message (drop sig_off prefixed_sig) (drop pk_off prefixed_pubkey))))"

record verifier_policy =
  accepted :: "signature_scheme set"

definition policy_empty :: verifier_policy where "policy_empty = \<lparr> accepted = {} \<rparr>"
definition ed25519_only :: verifier_policy where "ed25519_only = \<lparr> accepted = {Ed25519} \<rparr>"
definition ed25519_or_hybrid :: verifier_policy where
  "ed25519_or_hybrid = \<lparr> accepted = {Ed25519, HybridEd25519MlDsa65} \<rparr>"
definition hybrid_only :: verifier_policy where "hybrid_only = \<lparr> accepted = {HybridEd25519MlDsa65} \<rparr>"

definition policy_allow :: "signature_scheme \<Rightarrow> verifier_policy \<Rightarrow> verifier_policy" where
  "policy_allow s p = p\<lparr>accepted := insert s (accepted p)\<rparr>"

definition accepts :: "verifier_policy \<Rightarrow> signature_scheme \<Rightarrow> bool" where
  "accepts p s \<longleftrightarrow> s \<in> accepted p"

definition policy_default :: verifier_policy where "policy_default = ed25519_or_hybrid"

definition ed25519_signer :: "ed25519 \<Rightarrow> bytes \<Rightarrow> signer" where
  "ed25519_signer ed sk =
     \<lparr> sg_scheme = Ed25519, sg_public_key = ed_public ed sk, sg_sign = (\<lambda>_ m. Ok (ed_sign ed sk m)) \<rparr>"

definition ed25519_verifier :: "ed25519 \<Rightarrow> verifier_policy \<Rightarrow> verifier" where
  "ed25519_verifier ed policy scheme message signature public_key =
     (if \<not> accepts policy scheme then Err (SchemeNotAccepted (scheme_as_u32 scheme))
      else case scheme of
        Ed25519 \<Rightarrow>
          if length public_key \<noteq> 32
          then Err (MalformedPublicKey (scheme_as_u32 scheme) ''ed25519 pubkey must be 32 bytes'')
          else if \<not> ed_key_ok ed public_key
          then Err (MalformedPublicKey (scheme_as_u32 scheme) ''ed25519 pubkey is not a valid point'')
          else if length signature \<noteq> 64
          then Err (MalformedSignature (scheme_as_u32 scheme) ''ed25519 signature must be 64 bytes'')
          else if ed_check ed public_key message signature then Ok () else Err (BadSignature (scheme_as_u32 scheme))
      | _ \<Rightarrow> Err (SchemeNotAccepted (scheme_as_u32 scheme)))"

definition ed25519_verifier_new :: "ed25519 \<Rightarrow> verifier" where
  "ed25519_verifier_new ed = ed25519_verifier ed ed25519_only"

section \<open>hybrid.rs\<close>

definition ED25519_PUBKEY_BYTES :: usize where "ED25519_PUBKEY_BYTES = 32"
definition ED25519_SIG_BYTES :: usize where "ED25519_SIG_BYTES = 64"
definition MLDSA65_PUBKEY_BYTES :: usize where "MLDSA65_PUBKEY_BYTES = 1952"
definition MLDSA65_SIG_BYTES :: usize where "MLDSA65_SIG_BYTES = 3309"
definition HYBRID_PUBKEY_BYTES :: usize where "HYBRID_PUBKEY_BYTES = ED25519_PUBKEY_BYTES + MLDSA65_PUBKEY_BYTES"
definition HYBRID_SIG_BYTES :: usize where "HYBRID_SIG_BYTES = ED25519_SIG_BYTES + MLDSA65_SIG_BYTES"

text \<open>
  The operations of \<open>pqcrypto_mldsa::mldsa65\<close>: a key pair (public, secret) from fresh randomness, whether
  bytes are accepted as a secret key, public key or signature, signing and verification.
\<close>

record mldsa65 =
  md_keypair :: "bytes \<Rightarrow> bytes \<times> bytes"
  md_sk_ok :: "bytes \<Rightarrow> bool"
  md_pk_ok :: "bytes \<Rightarrow> bool"
  md_sig_ok :: "bytes \<Rightarrow> bool"
  md_sign :: "bytes \<Rightarrow> bytes \<Rightarrow> bytes \<Rightarrow> bytes"
  md_check :: "bytes \<Rightarrow> bytes \<Rightarrow> bytes \<Rightarrow> bool"

text \<open>What FIPS 204 and the library document: lengths, and that honest signatures verify.\<close>

definition mldsa_correct :: "mldsa65 \<Rightarrow> bool" where
  "mldsa_correct md \<longleftrightarrow>
     (\<forall>seed pk sk. md_keypair md seed = (pk, sk) \<longrightarrow>
        length pk = 1952 \<and> md_pk_ok md pk \<and> md_sk_ok md sk \<and>
        (\<forall>rnd m. length (md_sign md rnd sk m) = 3309 \<and> md_sig_ok md (md_sign md rnd sk m) \<and>
                 md_check md pk m (md_sign md rnd sk m)))"

record hybrid_signer =
  hs_ed25519 :: bytes
  mldsa_sk_bytes :: bytes
  mldsa_pk_bytes :: bytes

definition hybrid_generate :: "mldsa65 \<Rightarrow> bytes \<Rightarrow> bytes \<Rightarrow> hybrid_signer" where
  "hybrid_generate md ed_bytes seed =
     (let (pk, sk) = md_keypair md seed
      in \<lparr> hs_ed25519 = ed_bytes, mldsa_sk_bytes = sk, mldsa_pk_bytes = pk \<rparr>)"

definition hybrid_signer_public_key :: "ed25519 \<Rightarrow> hybrid_signer \<Rightarrow> bytes" where
  "hybrid_signer_public_key ed h = ed_public ed (hs_ed25519 h) @ mldsa_pk_bytes h"

definition mldsa_sk :: "mldsa65 \<Rightarrow> hybrid_signer \<Rightarrow> (bytes, signer_error) res" where
  "mldsa_sk md h = (if md_sk_ok md (mldsa_sk_bytes h) then Ok (mldsa_sk_bytes h) else Err (SignerPrimitive MlDsaSecretKey))"

definition hybrid_sign :: "ed25519 \<Rightarrow> mldsa65 \<Rightarrow> hybrid_signer \<Rightarrow> bytes \<Rightarrow> bytes \<Rightarrow> (bytes, signer_error) res" where
  "hybrid_sign ed md h rnd message =
     (let ed_sig = ed_sign ed (hs_ed25519 h) message
      in and_then (mldsa_sk md h) (\<lambda>sk.
         let sig = md_sign md rnd sk message
         in if length sig \<noteq> MLDSA65_SIG_BYTES
            then Err (SignerPrimitive (MlDsaSigLength (length sig) MLDSA65_SIG_BYTES))
            else Ok (ed_sig @ sig)))"

definition the_hybrid_signer :: "ed25519 \<Rightarrow> mldsa65 \<Rightarrow> hybrid_signer \<Rightarrow> signer" where
  "the_hybrid_signer ed md h =
     \<lparr> sg_scheme = HybridEd25519MlDsa65, sg_public_key = hybrid_signer_public_key ed h, sg_sign = hybrid_sign ed md h \<rparr>"

definition hybrid_verifier :: "ed25519 \<Rightarrow> mldsa65 \<Rightarrow> verifier" where
  "hybrid_verifier ed md scheme message signature public_key =
     (if scheme \<noteq> HybridEd25519MlDsa65 then Err (SchemeNotAccepted (scheme_as_u32 scheme))
      else if length signature \<noteq> HYBRID_SIG_BYTES
      then Err (MalformedSignature (scheme_as_u32 scheme)
                  ''hybrid signature must be exactly 3373 bytes (ed25519 || ML-DSA-65)'')
      else if length public_key \<noteq> HYBRID_PUBKEY_BYTES
      then Err (MalformedPublicKey (scheme_as_u32 scheme)
                  ''hybrid pubkey must be exactly 1984 bytes (ed25519 || ML-DSA-65)'')
      else let ed_pk = take ED25519_PUBKEY_BYTES public_key; pq_pk = drop ED25519_PUBKEY_BYTES public_key;
               ed_sig = take ED25519_SIG_BYTES signature; pq_sig = drop ED25519_SIG_BYTES signature
           in if length ed_pk \<noteq> ED25519_PUBKEY_BYTES
              then Err (MalformedPublicKey (scheme_as_u32 scheme) ''ed25519 pubkey slice length mismatch (internal bug)'')
              else if \<not> ed_key_ok ed ed_pk
              then Err (MalformedPublicKey (scheme_as_u32 scheme) ''ed25519 component pubkey is not a valid point'')
              else if length ed_sig \<noteq> ED25519_SIG_BYTES
              then Err (MalformedSignature (scheme_as_u32 scheme) ''ed25519 sig slice length mismatch (internal bug)'')
              else if \<not> ed_check ed ed_pk message ed_sig then Err HybridSignatureInvalid
              else if \<not> md_pk_ok md pq_pk
              then Err (MalformedPublicKey (scheme_as_u32 scheme) ''ML-DSA-65 component pubkey rejected by primitive'')
              else if \<not> md_sig_ok md pq_sig
              then Err (MalformedSignature (scheme_as_u32 scheme) ''ML-DSA-65 component sig rejected by primitive'')
              else if \<not> md_check md pq_pk message pq_sig then Err HybridSignatureInvalid
              else Ok ())"

definition encode_hybrid_pubkey_blob :: "bytes \<Rightarrow> bytes" where
  "encode_hybrid_pubkey_blob pk = fst (encode_varint (scheme_as_u32 HybridEd25519MlDsa65) []) @ pk"

definition encode_hybrid_sig_blob :: "bytes \<Rightarrow> bytes" where
  "encode_hybrid_sig_blob sig = fst (encode_varint (scheme_as_u32 HybridEd25519MlDsa65) []) @ sig"

definition decode_hybrid_blob :: "bytes \<Rightarrow> usize \<Rightarrow> (bytes, verifier_error) res" where
  "decode_hybrid_blob blob expected_body_len =
     and_then (map_err (\<lambda>_. MalformedSignature 0 ''hybrid blob: malformed varint scheme prefix'')
                 (decode_varint blob)) (\<lambda>(scheme_u32, off).
     if scheme_u32 \<noteq> scheme_as_u32 HybridEd25519MlDsa65 then Err (UnknownScheme scheme_u32)
     else let body = drop off blob
          in if length body \<noteq> expected_body_len
             then Err (MalformedSignature scheme_u32 ''hybrid blob: body length mismatch (no silent truncation)'')
             else Ok body)"

end
