(* ===== verification/Witness_Encryption.thy ===== *)
theory Witness_Encryption
  imports Agility
begin

text \<open>
  The encryption half of the agility layer: the hybrid key encapsulation of \<open>crypto_agility/src/kem.rs\<close> and
  the witness encryption of \<open>witness_enc.rs\<close>. X25519, ML-KEM-768, HKDF-SHA-512 and AES-256-GCM are records of
  the operations the code calls, with what their standards document as the predicates ending in
  \<open>_correct\<close>; the randomness that the code draws from the operating system is an argument. Wiping
  memory is not modelled.
\<close>

section \<open>The libraries\<close>

record x25519 =
  xd_public :: "bytes \<Rightarrow> bytes"
  xd_dh :: "bytes \<Rightarrow> bytes \<Rightarrow> bytes"

text \<open>RFC 7748: both sides compute the same 32 bytes.\<close>

definition x25519_correct :: "x25519 \<Rightarrow> bool" where
  "x25519_correct xd \<longleftrightarrow>
     (\<forall>a b. xd_dh xd a (xd_public xd b) = xd_dh xd b (xd_public xd a)) \<and>
     (\<forall>a p. length (xd_dh xd a p) = 32) \<and> (\<forall>a. length (xd_public xd a) = 32)"

record mlkem768 =
  mk_keypair :: "bytes \<Rightarrow> bytes \<times> bytes"
  mk_pk_ok :: "bytes \<Rightarrow> bool"
  mk_sk_ok :: "bytes \<Rightarrow> bool"
  mk_ct_ok :: "bytes \<Rightarrow> bool"
  mk_encap :: "bytes \<Rightarrow> bytes \<Rightarrow> bytes \<times> bytes"
  mk_decap :: "bytes \<Rightarrow> bytes \<Rightarrow> bytes"

text \<open>
  FIPS 203 and the library: the constructors check the length, keys and ciphertexts have their lengths
  and shared secrets 32 bytes. Decapsulation with the matching key returns the secret that was
  encapsulated for all but a negligible share of the randomness, so that it does is a
  predicate of the key pair's seed and the encapsulation's randomness.
\<close>

definition mlkem_correct :: "mlkem768 \<Rightarrow> bool" where
  "mlkem_correct mk \<longleftrightarrow>
     (\<forall>b. mk_pk_ok mk b \<longleftrightarrow> length b = 1184) \<and> (\<forall>b. mk_sk_ok mk b \<longleftrightarrow> length b = 2400) \<and>
     (\<forall>b. mk_ct_ok mk b \<longleftrightarrow> length b = 1088) \<and> (\<forall>ct sk. length (mk_decap mk ct sk) = 32) \<and>
     (\<forall>seed pk sk. mk_keypair mk seed = (pk, sk) \<longrightarrow> length pk = 1184 \<and> length sk = 2400 \<and>
        (\<forall>rnd ss ct. mk_encap mk rnd pk = (ss, ct) \<longrightarrow> length ss = 32 \<and> length ct = 1088))"

definition mlkem_agrees :: "mlkem768 \<Rightarrow> bytes \<Rightarrow> bytes \<Rightarrow> bool" where
  "mlkem_agrees mk seed rnd \<longleftrightarrow>
     (let (pk, sk) = mk_keypair mk seed; (ss, ct) = mk_encap mk rnd pk in mk_decap mk ct sk = ss)"

type_synonym hkdf_sha512 = "bytes \<Rightarrow> bytes \<Rightarrow> bytes \<Rightarrow> nat \<Rightarrow> bytes option"

record aes256_gcm =
  gcm_encrypt :: "bytes \<Rightarrow> bytes \<Rightarrow> bytes \<Rightarrow> bytes \<Rightarrow> bytes option"
  gcm_decrypt :: "bytes \<Rightarrow> bytes \<Rightarrow> bytes \<Rightarrow> bytes \<Rightarrow> bytes option"

text \<open>
  RFC 5869: expansion to 32 bytes succeeds. NIST SP 800-38D and the library: a message of at most
  \<open>2^36 - 32\<close> bytes with at most \<open>2^36\<close> bytes of associated data is encrypted, what was encrypted decrypts
  under the same key, nonce and associated data, and every ciphertext that decrypts carries
  a tag of 16 bytes. Longer messages and data may be refused.
\<close>

definition gcm_fits :: "bytes \<Rightarrow> bytes \<Rightarrow> bool" where
  "gcm_fits msg aad \<longleftrightarrow> length msg \<le> 2 ^ 36 - 32 \<and> length aad \<le> 2 ^ 36"

definition hkdf_correct :: "hkdf_sha512 \<Rightarrow> bool" where
  "hkdf_correct hkdf \<longleftrightarrow> (\<forall>salt ikm info. \<exists>okm. hkdf salt ikm info 32 = Some okm \<and> length okm = 32)"

definition gcm_correct :: "aes256_gcm \<Rightarrow> bool" where
  "gcm_correct gcm \<longleftrightarrow>
     (\<forall>key nonce msg aad. length key = 32 \<and> length nonce = 12 \<and> gcm_fits msg aad \<longrightarrow>
        (\<exists>c. gcm_encrypt gcm key nonce msg aad = Some c \<and> length c = length msg + 16 \<and>
             gcm_decrypt gcm key nonce c aad = Some msg)) \<and>
     (\<forall>key nonce c aad msg. gcm_decrypt gcm key nonce c aad = Some msg \<longrightarrow> length c = length msg + 16)"

section \<open>kem.rs\<close>

datatype shared_secret = SharedSecret (ss_bytes: bytes)

definition ss_len :: "shared_secret \<Rightarrow> usize" where "ss_len s = length (ss_bytes s)"
definition ss_is_empty :: "shared_secret \<Rightarrow> bool" where "ss_is_empty s \<longleftrightarrow> ss_bytes s = []"

datatype x25519_public_key = X25519PublicKey (x25519_pk_bytes: bytes)

definition x25519_public_from_bytes :: "bytes \<Rightarrow> (x25519_public_key, kem_error) res" where
  "x25519_public_from_bytes b =
     (if length b \<noteq> 32
      then Err (KemMalformedPublicKey (kem_as_u32 HybridX25519MlKem768) ''X25519 public key must be exactly 32 bytes'')
      else Ok (X25519PublicKey b))"

definition MLKEM_PUBLIC_BYTES :: usize where "MLKEM_PUBLIC_BYTES = 1184"

datatype mlkem_public_key = MlKemPublicKey (mlkem_pk_bytes: bytes)

definition mlkem_public_from_bytes :: "bytes \<Rightarrow> (mlkem_public_key, kem_error) res" where
  "mlkem_public_from_bytes b =
     (if length b \<noteq> MLKEM_PUBLIC_BYTES
      then Err (KemMalformedPublicKey (kem_as_u32 HybridX25519MlKem768) ''ML-KEM-768 public key must be exactly 1184 bytes'')
      else Ok (MlKemPublicKey b))"

datatype ephemeral_x25519_secret_key = EphemeralX25519SecretKey bytes
datatype ephemeral_mlkem_secret_key = EphemeralMlKemSecretKey bytes
datatype recipient_x25519_secret_key = RecipientX25519SecretKey (x25519_sk_bytes: bytes)
datatype recipient_mlkem_secret_key = RecipientMlKemSecretKey (mlkem_sk_bytes: bytes)

datatype x25519_ciphertext = X25519Ciphertext (x25519_ct_bytes: bytes)

definition x25519_ciphertext_from_bytes :: "bytes \<Rightarrow> (x25519_ciphertext, kem_error) res" where
  "x25519_ciphertext_from_bytes b =
     (if length b \<noteq> 32
      then Err (KemMalformedCiphertext (kem_as_u32 HybridX25519MlKem768) ''X25519 ciphertext must be exactly 32 bytes'')
      else Ok (X25519Ciphertext b))"

definition MLKEM_CIPHERTEXT_BYTES :: usize where "MLKEM_CIPHERTEXT_BYTES = 1088"

datatype mlkem_ciphertext = MlKemCiphertext (mlkem_ct_bytes: bytes)

definition mlkem_ciphertext_from_bytes :: "bytes \<Rightarrow> (mlkem_ciphertext, kem_error) res" where
  "mlkem_ciphertext_from_bytes b =
     (if length b \<noteq> MLKEM_CIPHERTEXT_BYTES
      then Err (KemMalformedCiphertext (kem_as_u32 HybridX25519MlKem768) ''ML-KEM-768 ciphertext must be exactly 1088 bytes'')
      else Ok (MlKemCiphertext b))"

record hybrid_public_key =
  pub_x25519 :: x25519_public_key
  pub_ml_kem :: mlkem_public_key

record hybrid_recipient_secret_key =
  sec_x25519 :: recipient_x25519_secret_key
  sec_ml_kem :: recipient_mlkem_secret_key

record hybrid_kem_keypair =
  kem_public :: hybrid_public_key
  kem_secret :: hybrid_recipient_secret_key

record hybrid_ciphertext =
  ct_x25519 :: x25519_ciphertext
  ct_ml_kem :: mlkem_ciphertext

definition kem_generate :: "x25519 \<Rightarrow> mlkem768 \<Rightarrow> bytes \<Rightarrow> bytes \<Rightarrow> hybrid_kem_keypair" where
  "kem_generate xd mk x25519_sk seed =
     (let (pk, sk) = mk_keypair mk seed
      in \<lparr> kem_public = \<lparr> pub_x25519 = X25519PublicKey (xd_public xd x25519_sk), pub_ml_kem = MlKemPublicKey pk \<rparr>,
           kem_secret = \<lparr> sec_x25519 = RecipientX25519SecretKey x25519_sk, sec_ml_kem = RecipientMlKemSecretKey sk \<rparr> \<rparr>)"

definition hybrid_kem_scheme :: kem_scheme_id where "hybrid_kem_scheme = HybridX25519MlKem768"

text \<open>The two \<open>expect\<close>s of the code are panics.\<close>

definition encapsulate ::
  "x25519 \<Rightarrow> mlkem768 \<Rightarrow> bytes \<Rightarrow> bytes \<Rightarrow> hybrid_public_key \<Rightarrow> (hybrid_ciphertext \<times> shared_secret, kem_error) res" where
  "encapsulate xd mk eph rnd pk =
     (let eph_pk = xd_public xd eph; x25519_ss = xd_dh xd eph (x25519_pk_bytes (pub_x25519 pk))
      in if \<not> mk_pk_ok mk (mlkem_pk_bytes (pub_ml_kem pk)) then Panic
         else let (ss, ct) = mk_encap mk rnd (mlkem_pk_bytes (pub_ml_kem pk))
              in Ok (\<lparr> ct_x25519 = X25519Ciphertext eph_pk, ct_ml_kem = MlKemCiphertext ct \<rparr>,
                     SharedSecret (x25519_ss @ ss)))"

definition decapsulate ::
  "x25519 \<Rightarrow> mlkem768 \<Rightarrow> hybrid_ciphertext \<Rightarrow> hybrid_recipient_secret_key \<Rightarrow> (shared_secret, kem_error) res" where
  "decapsulate xd mk ct sk =
     (if \<not> mk_sk_ok mk (mlkem_sk_bytes (sec_ml_kem sk)) then Panic
      else if \<not> mk_ct_ok mk (mlkem_ct_bytes (ct_ml_kem ct)) then Panic
      else let ss = mk_decap mk (mlkem_ct_bytes (ct_ml_kem ct)) (mlkem_sk_bytes (sec_ml_kem sk));
               x25519_ss = xd_dh xd (x25519_sk_bytes (sec_x25519 sk)) (x25519_ct_bytes (ct_x25519 ct))
           in Ok (SharedSecret (x25519_ss @ ss)))"

section \<open>witness\_enc.rs\<close>

datatype context_string = WitnessEncV1 | ViewKeyV1 | TravelRuleV1

fun context_bytes :: "context_string \<Rightarrow> bytes" where
  "context_bytes WitnessEncV1 = ascii ''PSL-WitnessEnc-v1''"
| "context_bytes ViewKeyV1 = ascii ''PSL-ViewKey-v1''"
| "context_bytes TravelRuleV1 = ascii ''PSL-TravelRule-v1''"

definition HKDF_SALT :: bytes where "HKDF_SALT = ascii ''PSL-hybrid-kem-salt-v1''"
definition EPH_X25519_PUBKEY_BYTES :: usize where "EPH_X25519_PUBKEY_BYTES = 32"
definition MLKEM768_CIPHERTEXT_BYTES :: usize where "MLKEM768_CIPHERTEXT_BYTES = 1088"
definition AEAD_NONCE_BYTES :: usize where "AEAD_NONCE_BYTES = 12"
definition AEAD_TAG_BYTES :: usize where "AEAD_TAG_BYTES = 16"
definition AES256_KEY_BYTES :: usize where "AES256_KEY_BYTES = 32"
definition MIN_BLOB_BYTES :: usize where
  "MIN_BLOB_BYTES = 1 + EPH_X25519_PUBKEY_BYTES + MLKEM768_CIPHERTEXT_BYTES + AEAD_NONCE_BYTES + AEAD_TAG_BYTES"

definition build_kem_transcript :: "bytes \<Rightarrow> bytes \<Rightarrow> bytes \<Rightarrow> bytes \<Rightarrow> bytes" where
  "build_kem_transcript x25519_ss ml_kem_ss x25519_eph_pk ml_kem_ct =
     fst (encode_varint (kem_as_u32 HybridX25519MlKem768) []) @ x25519_ss @ ml_kem_ss @ x25519_eph_pk @ ml_kem_ct"

definition derive_aead_key :: "hkdf_sha512 \<Rightarrow> bytes \<Rightarrow> context_string \<Rightarrow> (bytes, kem_error) res" where
  "derive_aead_key hkdf transcript ctx = expect (hkdf HKDF_SALT transcript (context_bytes ctx) AES256_KEY_BYTES)"

text \<open>Copying the two halves of the combined secret into 32-byte arrays panics at any other length.\<close>

definition split_secret :: "shared_secret \<Rightarrow> (bytes \<times> bytes, kem_error) res" where
  "split_secret s = (if ss_len s = 64 then Ok (take 32 (ss_bytes s), drop 32 (ss_bytes s)) else Panic)"

definition encrypt ::
  "x25519 \<Rightarrow> mlkem768 \<Rightarrow> hkdf_sha512 \<Rightarrow> aes256_gcm \<Rightarrow> bytes \<Rightarrow> bytes \<Rightarrow> bytes \<Rightarrow>
   x25519_public_key \<Rightarrow> mlkem_public_key \<Rightarrow> bytes \<Rightarrow> bytes \<Rightarrow> context_string \<Rightarrow> (bytes, kem_error) res" where
  "encrypt xd mk hkdf gcm eph rnd nonce x_pk m_pk plaintext aad ctx =
     and_then (encapsulate xd mk eph rnd \<lparr> pub_x25519 = x_pk, pub_ml_kem = m_pk \<rparr>) (\<lambda>(ct, raw).
     and_then (split_secret raw) (\<lambda>(x25519_ss, ml_kem_ss).
     let transcript = build_kem_transcript x25519_ss ml_kem_ss (x25519_ct_bytes (ct_x25519 ct)) (mlkem_ct_bytes (ct_ml_kem ct))
     in and_then (derive_aead_key hkdf transcript ctx) (\<lambda>key.
        and_then (expect (gcm_encrypt gcm key nonce plaintext aad)) (\<lambda>aead_ct.
        Ok (fst (encode_varint (kem_as_u32 HybridX25519MlKem768) []) @ x25519_ct_bytes (ct_x25519 ct)
            @ mlkem_ct_bytes (ct_ml_kem ct) @ nonce @ aead_ct)))))"

text \<open>A slice of the blob, with the panic of an index out of range.\<close>

definition blob_slice :: "bytes \<Rightarrow> usize \<Rightarrow> usize \<Rightarrow> (bytes, kem_error) res" where
  "blob_slice b lo hi = (if lo \<le> hi \<and> hi \<le> length b then Ok (subslice b lo hi) else Panic)"

definition decrypt ::
  "x25519 \<Rightarrow> mlkem768 \<Rightarrow> hkdf_sha512 \<Rightarrow> aes256_gcm \<Rightarrow> recipient_x25519_secret_key \<Rightarrow> recipient_mlkem_secret_key \<Rightarrow>
   bytes \<Rightarrow> bytes \<Rightarrow> context_string \<Rightarrow> (bytes, kem_error) res" where
  "decrypt xd mk hkdf gcm x_sk m_sk blob aad ctx =
     and_then (map_err (\<lambda>_. TruncatedBlob 0 (length blob) MIN_BLOB_BYTES) (decode_varint blob)) (\<lambda>(scheme_id, off).
     if scheme_id \<noteq> kem_as_u32 HybridX25519MlKem768 then Err (KemSchemeNotSupported scheme_id)
     else if length blob < MIN_BLOB_BYTES then Err (TruncatedBlob scheme_id (length blob) MIN_BLOB_BYTES)
     else let c1 = off + EPH_X25519_PUBKEY_BYTES; c2 = c1 + MLKEM768_CIPHERTEXT_BYTES; c3 = c2 + AEAD_NONCE_BYTES
     in and_then (blob_slice blob off c1) (\<lambda>eph_pk.
        and_then (blob_slice blob c1 c2) (\<lambda>mlkem_ct.
        and_then (blob_slice blob c2 c3) (\<lambda>nonce.
        and_then (blob_slice blob c3 (length blob)) (\<lambda>aead_ct.
        and_then (x25519_ciphertext_from_bytes eph_pk) (\<lambda>x_ct.
        and_then (mlkem_ciphertext_from_bytes mlkem_ct) (\<lambda>m_ct.
        and_then (decapsulate xd mk \<lparr> ct_x25519 = x_ct, ct_ml_kem = m_ct \<rparr>
                    \<lparr> sec_x25519 = x_sk, sec_ml_kem = m_sk \<rparr>) (\<lambda>raw.
        and_then (split_secret raw) (\<lambda>(x25519_ss, ml_kem_ss).
        and_then (derive_aead_key hkdf
                    (build_kem_transcript x25519_ss ml_kem_ss (x25519_ct_bytes x_ct) (mlkem_ct_bytes m_ct)) ctx) (\<lambda>key.
        ok_or AuthenticationFailed (gcm_decrypt gcm key nonce aead_ct aad)))))))))))"

definition generate_recipient_keypair :: "x25519 \<Rightarrow> mlkem768 \<Rightarrow> bytes \<Rightarrow> bytes \<Rightarrow> hybrid_kem_keypair" where
  "generate_recipient_keypair xd mk x25519_sk seed = kem_generate xd mk x25519_sk seed"

end
