(* ===== verification/Agility_Laws.thy ===== *)
theory Agility_Laws
  imports Agility
begin

text \<open>
  The varint prefix against a reference decoder of unbounded width, and the contract between a signer
  and a verifier (the locale \<open>signature_scheme\<close>, interpreted for ed25519 and for the hybrid),
  from which prefixed signatures are accepted.
\<close>

section \<open>The reference decoder\<close>

fun leb :: "bytes \<Rightarrow> (nat \<times> nat) option" where
  "leb [] = None"
| "leb (b # bs) =
     (if unat b < 128 then Some (unat b, 1)
      else map_option (\<lambda>(v, n). (unat b mod 128 + 128 * v, n + 1)) (leb bs))"

lemma leb_positive: "leb bs = Some (v, n) \<Longrightarrow> 0 < n \<and> n \<le> length bs"
  by (induction bs arbitrary: v n) (auto split: if_splits)

lemma byte_top: "b AND 0x80 = 0 \<longleftrightarrow> unat b < 128" for b :: u8
  using top_bit [of b] by auto

lemma chunk_value: "(ucast (b AND 0x7f) :: u32) = of_nat (unat b mod 128)" for b :: u8
  by (simp add: word_unat_eq_iff unsigned_ucast_eq low7 [symmetric] unat_of_nat take_bit_nat_def)

lemma shift_word:
  assumes "i < 5"
  shows "checked_shl x (of_nat (7 * i)) = Some (x * 2 ^ (7 * i))" "checked_add (of_nat (7 * i)) 7 = Some (of_nat (7 * Suc i) :: u32)"
proof -
  have "7 * i < 2 ^ 32" using assms by simp
  then have u: "unat (of_nat (7 * i) :: u32) = 7 * i" by (simp add: unat_of_nat del: of_nat_mult)
  show "checked_shl x (of_nat (7 * i)) = Some (x * 2 ^ (7 * i))"
    using assms by (simp add: checked_shl_def word_less_nat_alt u push_bit_eq_mult del: of_nat_mult)
  show "checked_add (of_nat (7 * i)) 7 = Some (of_nat (7 * Suc i) :: u32)"
  proof -
    have "(of_nat (7 * Suc i) :: u32) = of_nat (7 * i) + 7" by simp
    moreover have "unat (of_nat (7 * i) :: u32) + unat (7 :: u32) < 2 ^ LENGTH(32)" unfolding u using assms by simp
    ultimately show ?thesis unfolding checked_add_def by presburger
  qed
qed

lemma chunk_fits:
  fixes r :: u32
  assumes "i < 5" "unat r < 2 ^ (7 * i)" "c < 128"
  shows "checked_add r (of_nat c * 2 ^ (7 * i)) = Some (r + of_nat c * 2 ^ (7 * i))"
    "Suc i < 5 \<Longrightarrow> unat (r + of_nat c * 2 ^ (7 * i)) < 2 ^ (7 * Suc i)"
proof -
  have w: "(of_nat c * 2 ^ (7 * i) :: u32) = of_nat (c * 2 ^ (7 * i))" by simp
  have le: "unat (of_nat (c * 2 ^ (7 * i)) :: u32) \<le> c * 2 ^ (7 * i)"
    by (simp add: unat_of_nat del: of_nat_mult)
  have sum: "unat r + unat (of_nat (c * 2 ^ (7 * i)) :: u32) < 2 ^ 32"
  proof (cases "i = 4")
    case True
    have "unat (of_nat (c * 2 ^ 28) :: u32) = (c mod 16) * 2 ^ 28"
      by (simp add: unat_of_nat mult_mod_left del: of_nat_mult)
    then show ?thesis using assms(2) True by (simp del: of_nat_mult)
  next
    case False
    have "c * 2 ^ (7 * i) + 2 ^ (7 * i) \<le> 128 * 2 ^ (7 * i)"
      using assms(3) by (metis Suc_leI add.commute mult_Suc mult_le_mono1)
    also have "\<dots> \<le> 128 * 2 ^ 21" using False assms(1) by (intro mult_left_mono power_increasing) auto
    finally show ?thesis using le assms(2) by simp
  qed
  then show "checked_add r (of_nat c * 2 ^ (7 * i)) = Some (r + of_nat c * 2 ^ (7 * i))"
    unfolding w by (simp add: checked_add_def del: of_nat_mult)
  have "unat (r + of_nat (c * 2 ^ (7 * i))) \<le> unat r + c * 2 ^ (7 * i)"
    using sum le by (simp add: unat_plus_no_overflow del: of_nat_mult)
  also have "\<dots> < 2 ^ (7 * i) + 127 * 2 ^ (7 * i)"
    using assms(2,3) by (intro add_less_le_mono mult_right_mono) auto
  also have "\<dots> = 2 ^ (7 * Suc i)" by (simp add: power_add)
  finally show "unat (r + of_nat c * 2 ^ (7 * i)) < 2 ^ (7 * Suc i)" unfolding w .
qed

lemma decode_loop_exact:
  assumes "i \<le> 5" "i < 5 \<Longrightarrow> unat r < 2 ^ (7 * i)"
  shows "decode_loop i r (of_nat (7 * i)) bs =
    (case leb bs of
       None \<Rightarrow> Err (if 5 < i + length bs then VarintTooLong else VarintTruncated)
     | Some (v, n) \<Rightarrow> if 5 < i + n then Err VarintTooLong else Ok (r + of_nat v * 2 ^ (7 * i), i + n))"
  using assms
proof (induction bs arbitrary: i r)
  case (Cons b bs)
  show ?case
  proof (cases "i = 5")
    case True
    then show ?thesis
      using leb_positive [of "b # bs"] by (auto simp: MAX_VARINT_LEN_def simp del: leb.simps split: option.splits)
  next
    case False
    then have i: "i < 5" "unat r < 2 ^ (7 * i)" using Cons.prems by auto
    let ?c = "unat b mod 128"
    let ?r = "r + of_nat ?c * 2 ^ (7 * i)"
    note step = chunk_fits [OF i, of ?c]
    have loop: "decode_loop i r (of_nat (7 * i)) (b # bs) =
        (if unat b < 128 then Ok (?r, i + 1) else decode_loop (Suc i) ?r (of_nat (7 * Suc i)) bs)"
      using i step(1) shift_word [OF i(1)]
      by (simp add: MAX_VARINT_LEN_def chunk_value byte_top ok_or_def del: of_nat_mult)
    show ?thesis
    proof (cases "unat b < 128")
      case True
      then show ?thesis using i loop by simp
    next
      case False
      have "decode_loop (Suc i) ?r (of_nat (7 * Suc i)) bs =
        (case leb bs of
           None \<Rightarrow> Err (if 5 < Suc i + length bs then VarintTooLong else VarintTruncated)
         | Some (v, n) \<Rightarrow> if 5 < Suc i + n then Err VarintTooLong else Ok (?r + of_nat v * 2 ^ (7 * Suc i), Suc i + n))"
        using i step(2) by (intro Cons.IH) auto
      then show ?thesis
        using False loop by (auto simp: power_add algebra_simps split: option.split)
    qed
  qed
qed simp

lemma decode_varint_leb:
  "decode_varint bs =
    (case leb bs of
       None \<Rightarrow> Err (if 5 < length bs then VarintTooLong else VarintTruncated)
     | Some (v, n) \<Rightarrow> if 5 < n then Err VarintTooLong else Ok (of_nat v, n))"
  using decode_loop_exact [of 0 0 bs] by (simp add: decode_varint_def split: option.split)

section \<open>The encoder\<close>

lemma varint_step:
  "varint_bytes v = (if unat v < 128 then [ucast v] else (ucast (v AND 0x7f) OR 0x80) # varint_bytes (drop_bit 7 v))"
  "unat (drop_bit 7 v) = unat v div 128"
proof -
  show u: "unat (drop_bit 7 v) = unat v div 128" by (simp add: drop_bit_eq_div unat_div)
  have "drop_bit 7 v = 0 \<longleftrightarrow> unat v < 128"
    using u by (metis div_eq_0_iff unat_eq_0 zero_neq_numeral)
  moreover have "v AND 0x7f = v" if "unat v < 128"
  proof -
    have "v AND 0x7f = take_bit 7 v" by (simp add: take_bit_eq_mask mask_eq_exp_minus_1)
    moreover have "unat (take_bit 7 v) = unat v" using that by (simp add: unsigned_take_bit_eq take_bit_nat_def)
    ultimately show ?thesis by (simp add: word_unat_eq_iff)
  qed
  ultimately show "varint_bytes v = (if unat v < 128 then [ucast v] else (ucast (v AND 0x7f) OR 0x80) # varint_bytes (drop_bit 7 v))"
    by (subst varint_bytes.simps) (auto simp: Let_def)
qed

lemma low_byte: "unat (ucast (v AND 0x7f) :: u8) = unat v mod 128" for v :: u32
proof -
  have "v AND 0x7f = take_bit 7 v" by (simp add: take_bit_eq_mask mask_eq_exp_minus_1)
  then show ?thesis by (simp add: unsigned_ucast_eq unsigned_take_bit_eq take_bit_nat_def mod_mod_cancel)
qed

lemma leb_varint: "leb (varint_bytes v @ rest) = Some (unat v, length (varint_bytes v))"
proof (induction "unat v" arbitrary: v rule: less_induct)
  case less
  show ?case
  proof (cases "unat v < 128")
    case True
    then have "unat (ucast v :: u8) = unat v" by (simp add: unsigned_ucast_eq take_bit_nat_eq_self)
    then show ?thesis using True by (simp add: varint_step(1) [of v])
  next
    case False
    let ?v = "drop_bit 7 v"
    have b: "unat ((ucast (v AND 0x7f) :: u8) OR 0x80) = unat v mod 128 + 128"
      by (simp add: set_top low_byte)
    have "leb (varint_bytes ?v @ rest) = Some (unat v div 128, length (varint_bytes ?v))"
      using less [of ?v] False varint_step(2) [of v] by simp
    moreover have "varint_bytes v = (ucast (v AND 0x7f) OR 0x80) # varint_bytes ?v"
      using False by (simp add: varint_step(1) [of v])
    ultimately show ?thesis using b by simp
  qed
qed

lemma varint_length: "unat v < 128 ^ Suc n \<Longrightarrow> length (varint_bytes v) \<le> Suc n"
proof (induction n arbitrary: v)
  case (Suc n)
  have "unat (drop_bit 7 v) < 128 ^ Suc n"
    using Suc.prems by (simp add: varint_step(2) less_mult_imp_div_less mult.commute)
  then show ?case using Suc.IH [of "drop_bit 7 v"] varint_step(1) [of v] by simp
qed (simp add: varint_step(1))

lemma varint_at_most_5: "length (varint_bytes v) \<le> 5"
  using varint_length [of v 4] unat_bound [of v] by simp

lemma decode_encode [simp]: "decode_varint (varint_bytes v @ rest) = Ok (v, length (varint_bytes v))"
  using varint_at_most_5 [of v] by (simp add: decode_varint_leb leb_varint)

lemma encode_bytes [simp]: "fst (encode_varint v []) = varint_bytes v"
  by (simp add: encode_varint_def)

lemma varint_small: "unat v < 128 \<Longrightarrow> varint_bytes v = [ucast v]"
  by (simp add: varint_step(1))

section \<open>Signers and verifiers\<close>

lemma scheme_round_trip [simp]: "scheme_from_u32 (scheme_as_u32 s) = Ok s"
  by (cases s) (simp_all add: scheme_from_u32_def)

lemma scheme_from_u32_Ok: "scheme_from_u32 v = Ok s \<longleftrightarrow> v = scheme_as_u32 s"
  by (cases s) (auto simp: scheme_from_u32_def)

text \<open>
  What a client of the traits relies on: given correct primitives, signing succeeds and the verifier
  accepts the result under the signer's scheme and public key.
\<close>

locale signature_scheme =
  fixes primitives_correct :: bool and sg :: signer and v :: verifier
  assumes signs: "primitives_correct \<Longrightarrow> \<exists>sig. sg_sign sg rnd m = Ok sig"
    and honest: "primitives_correct \<Longrightarrow> sg_sign sg rnd m = Ok sig \<Longrightarrow>
      v (sg_scheme sg) m sig (sg_public_key sg) = Ok ()"
begin

lemma prefixed_accepted:
  assumes "primitives_correct"
  shows "\<exists>blob. sign_with_prefix sg rnd m = Ok blob \<and>
    verify_prefixed v m blob (varint_bytes (scheme_as_u32 (sg_scheme sg)) @ sg_public_key sg) = Ok ()"
proof -
  obtain sig where sig: "sg_sign sg rnd m = Ok sig" using signs [OF assms] by blast
  then show ?thesis
    using honest [OF assms sig] by (simp add: sign_with_prefix_def verify_prefixed_def)
qed

end

interpretation ed_scheme: signature_scheme "ed_correct ed" "ed25519_signer ed sk" "ed25519_verifier_new ed" for ed sk
  by unfold_locales
     (auto simp: ed25519_signer_def ed25519_verifier_new_def ed25519_verifier_def ed25519_only_def accepts_def ed_correct_def)

lemmas hybrid_sizes = ED25519_PUBKEY_BYTES_def ED25519_SIG_BYTES_def MLDSA65_PUBKEY_BYTES_def MLDSA65_SIG_BYTES_def
  HYBRID_PUBKEY_BYTES_def HYBRID_SIG_BYTES_def

lemma hybrid_verifier_split:
  "length ed_pk = 32 \<Longrightarrow> length pq_pk = 1952 \<Longrightarrow> length ed_sig = 64 \<Longrightarrow> length pq_sig = 3309 \<Longrightarrow>
     hybrid_verifier ed md HybridEd25519MlDsa65 m (ed_sig @ pq_sig) (ed_pk @ pq_pk) = Ok () \<longleftrightarrow>
       ed_key_ok ed ed_pk \<and> ed_check ed ed_pk m ed_sig \<and> md_pk_ok md pq_pk \<and> md_sig_ok md pq_sig \<and> md_check md pq_pk m pq_sig"
  by (simp add: hybrid_verifier_def hybrid_sizes)

lemma hybrid_verifier_lengths:
  "hybrid_verifier ed md s m sig pk = Ok () \<Longrightarrow> s = HybridEd25519MlDsa65 \<and> length sig = 3373 \<and> length pk = 1984"
  by (auto simp: hybrid_verifier_def hybrid_sizes split: if_splits)

interpretation hybrid_scheme: signature_scheme "ed_correct ed \<and> mldsa_correct md"
  "the_hybrid_signer ed md (hybrid_generate md ed_bytes seed)" "hybrid_verifier ed md" for ed md ed_bytes seed
proof
  obtain pk sk where kp: "md_keypair md seed = (pk, sk)" by (cases "md_keypair md seed")
  fix rnd m assume correct: "ed_correct ed \<and> mldsa_correct md"
  then have md: "length pk = 1952" "md_pk_ok md pk" "md_sk_ok md sk" "length (md_sign md rnd sk m) = 3309"
      "md_sig_ok md (md_sign md rnd sk m)" "md_check md pk m (md_sign md rnd sk m)" for rnd m
    using kp by (auto simp: mldsa_correct_def)
  let ?s = "the_hybrid_signer ed md (hybrid_generate md ed_bytes seed)"
  have sign: "sg_sign ?s rnd m = Ok (ed_sign ed ed_bytes m @ md_sign md rnd sk m)"
    using md by (simp add: the_hybrid_signer_def hybrid_generate_def kp hybrid_sign_def mldsa_sk_def hybrid_sizes)
  then show "\<exists>sig. sg_sign ?s rnd m = Ok sig" by blast
  fix sig assume "sg_sign ?s rnd m = Ok sig"
  then have sig: "sig = ed_sign ed ed_bytes m @ md_sign md rnd sk m" using sign by simp
  have "hybrid_verifier ed md HybridEd25519MlDsa65 m sig (ed_public ed ed_bytes @ pk) = Ok ()"
    unfolding sig using md correct by (subst hybrid_verifier_split) (simp_all add: ed_correct_def)
  then show "hybrid_verifier ed md (sg_scheme ?s) m sig (sg_public_key ?s) = Ok ()"
    by (simp add: the_hybrid_signer_def hybrid_signer_public_key_def hybrid_generate_def kp)
qed

section \<open>Blobs have several spellings\<close>

text \<open>A one-byte prefix can also be written in two bytes, with an empty second digit.\<close>

lemma decode_long_prefix: "unat v < 128 \<Longrightarrow> decode_varint ((ucast v OR 0x80) # 0 # rest) = Ok (v, 2)"
proof -
  assume "unat v < 128"
  then have "unat (ucast v :: u8) = unat v" by (simp add: unsigned_ucast_eq take_bit_nat_eq_self)
  then have "unat ((ucast v :: u8) OR 0x80) = unat v + 128" using \<open>unat v < 128\<close> by (simp add: set_top)
  then show ?thesis by (simp add: decode_varint_leb \<open>unat v < 128\<close>)
qed

lemma decode_short_prefix: "unat v < 128 \<Longrightarrow> decode_varint (ucast v # rest) = Ok (v, 1)"
  using decode_encode [of v rest] by (simp add: varint_small)

lemma scheme_small: "unat (scheme_as_u32 s) < 128"
  by (cases s) simp_all

lemma other_spelling:
  assumes "decode_varint blob = Ok (v, off)" "unat v < 128"
  shows "\<exists>blob' off'. blob' \<noteq> blob \<and> decode_varint blob' = Ok (v, off') \<and> drop off' blob' = drop off blob"
proof -
  let ?short = "ucast v # drop off blob" and ?long = "(ucast v OR 0x80) # 0 # drop off blob"
  have "length ?short \<noteq> length ?long" by simp
  then have "?short \<noteq> blob \<or> ?long \<noteq> blob" by metis
  then show ?thesis
    using decode_short_prefix [OF assms(2)] decode_long_prefix [OF assms(2)]
    by (elim disjE; intro exI conjI) (assumption | simp)+
qed

end
