(* ===== verification/Witness_Laws.thy ===== *)
theory Witness_Laws
  imports Witness_Encryption Agility_Laws
begin

text \<open>
  The contract of a key-encapsulation mechanism (the locale \<open>key_encapsulation\<close>, interpreted for the
  hybrid), and the decryption of a blob reduced to its parts: which blobs parse, and what is
  computed from the parts.
\<close>

section \<open>Key encapsulation\<close>

locale key_encapsulation =
  fixes primitives_correct :: bool and agrees :: "'r \<Rightarrow> bool" and encap :: "'r \<Rightarrow> 'pk \<Rightarrow> ('ct \<times> shared_secret, 'e) res"
    and decap :: "'ct \<Rightarrow> 'sk \<Rightarrow> (shared_secret, 'e) res" and pk :: 'pk and sk :: 'sk
  assumes encap_succeeds: "primitives_correct \<Longrightarrow> \<exists>ct ss. encap r pk = Ok (ct, ss)"
    and decap_agrees: "primitives_correct \<Longrightarrow> agrees r \<Longrightarrow> encap r pk = Ok (ct, ss) \<Longrightarrow> decap ct sk = Ok ss"
    and secret_length: "primitives_correct \<Longrightarrow> encap r pk = Ok (ct, ss) \<Longrightarrow> ss_len ss = 64"
begin

lemma shared:
  assumes primitives_correct "agrees r"
  obtains ct x y where "encap r pk = Ok (ct, SharedSecret (x @ y))" "decap ct sk = Ok (SharedSecret (x @ y))"
    "length x = 32" "length y = 32"
proof -
  obtain ct ss where e: "encap r pk = Ok (ct, ss)" using encap_succeeds [OF assms(1)] by blast
  moreover have "length (ss_bytes ss) = 64" using secret_length [OF assms(1) e] by (simp add: ss_len_def)
  ultimately show ?thesis
    using that [of ct "take 32 (ss_bytes ss)" "drop 32 (ss_bytes ss)"] decap_agrees [OF assms e] by simp
qed

end

interpretation hybrid_kem: key_encapsulation "x25519_correct xd \<and> mlkem_correct mk" "\<lambda>(eph, rnd). mlkem_agrees mk seed rnd"
  "\<lambda>(eph, rnd). encapsulate xd mk eph rnd" "decapsulate xd mk"
  "kem_public (kem_generate xd mk x_sk seed)" "kem_secret (kem_generate xd mk x_sk seed)" for xd mk x_sk seed
proof
  obtain pk sk where kp: "mk_keypair mk seed = (pk, sk)" by (cases "mk_keypair mk seed")
  fix r :: "bytes \<times> bytes" assume correct: "x25519_correct xd \<and> mlkem_correct mk"
  obtain eph rnd where r: "r = (eph, rnd)" by (cases r)
  obtain ss0 ct0 where enc: "mk_encap mk rnd pk = (ss0, ct0)" by (cases "mk_encap mk rnd pk")
  let ?k = "kem_generate xd mk x_sk seed"
  have m: "mk_pk_ok mk pk" "mk_sk_ok mk sk" "mk_ct_ok mk ct0" "length ss0 = 32"
    using correct kp enc unfolding mlkem_correct_def by metis+
  have x: "xd_dh xd eph (xd_public xd x_sk) = xd_dh xd x_sk (xd_public xd eph)" "length (xd_dh xd x_sk (xd_public xd eph)) = 32"
    using correct unfolding x25519_correct_def by metis+
  have run: "(case r of (eph, rnd) \<Rightarrow> encapsulate xd mk eph rnd) (kem_public ?k) =
      Ok (\<lparr> ct_x25519 = X25519Ciphertext (xd_public xd eph), ct_ml_kem = MlKemCiphertext ct0 \<rparr>,
          SharedSecret (xd_dh xd x_sk (xd_public xd eph) @ ss0))"
    using m x by (simp add: r encapsulate_def kem_generate_def kp enc)
  then show "\<exists>ct ss. (case r of (eph, rnd) \<Rightarrow> encapsulate xd mk eph rnd) (kem_public ?k) = Ok (ct, ss)" by blast
  fix ct ss assume "(case r of (eph, rnd) \<Rightarrow> encapsulate xd mk eph rnd) (kem_public ?k) = Ok (ct, ss)"
  with run have ct: "ct = \<lparr> ct_x25519 = X25519Ciphertext (xd_public xd eph), ct_ml_kem = MlKemCiphertext ct0 \<rparr>"
    and ss: "ss = SharedSecret (xd_dh xd x_sk (xd_public xd eph) @ ss0)" by auto
  show "ss_len ss = 64" using m x by (simp add: ss ss_len_def)
  assume "case r of (eph, rnd) \<Rightarrow> mlkem_agrees mk seed rnd"
  then have "mk_decap mk ct0 sk = ss0" by (simp add: r mlkem_agrees_def kp enc)
  then show "decapsulate xd mk ct (kem_secret ?k) = Ok ss"
    using m by (simp add: ct ss decapsulate_def kem_generate_def kp)
qed

lemma encapsulated_lengths:
  assumes "x25519_correct xd" "mlkem_correct mk" "encapsulate xd mk eph rnd (kem_public (kem_generate xd mk x_sk seed)) = Ok (ct, ss)"
  obtains e c where "ct = \<lparr> ct_x25519 = X25519Ciphertext e, ct_ml_kem = MlKemCiphertext c \<rparr>" "length e = 32" "length c = 1088"
proof -
  obtain pk sk where kp: "mk_keypair mk seed = (pk, sk)" by (cases "mk_keypair mk seed")
  obtain s c where enc: "mk_encap mk rnd pk = (s, c)" by (cases "mk_encap mk rnd pk")
  have "length c = 1088" using assms(2) kp enc unfolding mlkem_correct_def by metis
  moreover have "length (xd_public xd eph) = 32" using assms(1) by (simp add: x25519_correct_def)
  moreover have "ct = \<lparr> ct_x25519 = X25519Ciphertext (xd_public xd eph), ct_ml_kem = MlKemCiphertext c \<rparr>"
    using assms(3) by (auto simp: encapsulate_def kem_generate_def kp enc split: if_splits)
  ultimately show ?thesis using that by blast
qed

section \<open>Parsing a blob\<close>

lemmas blob_sizes = EPH_X25519_PUBKEY_BYTES_def MLKEM768_CIPHERTEXT_BYTES_def AEAD_NONCE_BYTES_def AEAD_TAG_BYTES_def
  MIN_BLOB_BYTES_def AES256_KEY_BYTES_def MLKEM_CIPHERTEXT_BYTES_def

lemma varint_kem: "varint_bytes (kem_as_u32 HybridX25519MlKem768) = [2]"
  by (simp add: varint_small)

lemma decode_offset: "decode_varint b = Ok (v, off) \<Longrightarrow> off \<le> 5 \<and> off \<le> length b"
  using leb_positive [of b] by (auto simp: decode_varint_leb split: option.splits if_splits)

definition open_parts ::
  "x25519 \<Rightarrow> mlkem768 \<Rightarrow> hkdf_sha512 \<Rightarrow> aes256_gcm \<Rightarrow> recipient_x25519_secret_key \<Rightarrow> recipient_mlkem_secret_key \<Rightarrow>
   bytes \<Rightarrow> bytes \<Rightarrow> bytes \<Rightarrow> bytes \<Rightarrow> bytes \<Rightarrow> context_string \<Rightarrow> (bytes, kem_error) res" where
  "open_parts xd mk hkdf gcm x_sk m_sk e c n a aad ctx =
     and_then (decapsulate xd mk \<lparr> ct_x25519 = X25519Ciphertext e, ct_ml_kem = MlKemCiphertext c \<rparr>
                 \<lparr> sec_x25519 = x_sk, sec_ml_kem = m_sk \<rparr>) (\<lambda>raw.
     and_then (split_secret raw) (\<lambda>(x, y).
     and_then (derive_aead_key hkdf (build_kem_transcript x y e c) ctx) (\<lambda>key.
     ok_or AuthenticationFailed (gcm_decrypt gcm key n a aad))))"

definition blob_parts :: "bytes \<Rightarrow> bytes \<Rightarrow> bytes \<Rightarrow> bytes \<Rightarrow> bytes \<Rightarrow> bool" where
  "blob_parts blob e c n a \<longleftrightarrow>
     (\<exists>off. decode_varint blob = Ok (2, off) \<and> drop off blob = e @ c @ n @ a) \<and>
     1149 \<le> length blob \<and> length e = 32 \<and> length c = 1088 \<and> length n = 12"

lemma slice_at:
  assumes "drop off b = xs @ ys @ zs" "off \<le> length b" "lo = off + length xs" "hi = lo + length ys"
  shows "blob_slice b lo hi = Ok ys"
proof -
  have "length b = off + length xs + length ys + length zs"
    using arg_cong [OF assms(1), of length] assms(2) by simp
  moreover have "drop (off + length xs) b = ys @ zs"
    using arg_cong [OF assms(1), of "drop (length xs)"] by (simp add: add.commute)
  ultimately show ?thesis using assms(3,4) by (simp add: blob_slice_def subslice_def)
qed

lemma decrypt_parts:
  assumes "blob_parts blob e c n a"
  shows "decrypt xd mk hkdf gcm x_sk m_sk blob aad ctx = open_parts xd mk hkdf gcm x_sk m_sk e c n a aad ctx"
proof -
  obtain off where off: "decode_varint blob = Ok (2, off)" "drop off blob = e @ c @ n @ a"
    and len: "1149 \<le> length blob" "length e = 32" "length c = 1088" "length n = 12"
    using assms by (auto simp: blob_parts_def)
  have le: "off \<le> length blob" using decode_offset [OF off(1)] by simp
  have total: "length blob = off + 1132 + length a" using arg_cong [OF off(2), of length] le len by simp
  have slices: "blob_slice blob off (off + 32) = Ok e" "blob_slice blob (off + 32) (off + 1120) = Ok c"
    "blob_slice blob (off + 1120) (off + 1132) = Ok n" "blob_slice blob (off + 1132) (length blob) = Ok a"
  proof -
    show "blob_slice blob off (off + 32) = Ok e"
      by (rule slice_at [of off blob "[]" e "c @ n @ a"]) (simp_all add: off(2) le len)
    show "blob_slice blob (off + 32) (off + 1120) = Ok c"
      by (rule slice_at [of off blob e c "n @ a"]) (simp_all add: off(2) le len)
    show "blob_slice blob (off + 1120) (off + 1132) = Ok n"
      by (rule slice_at [of off blob "e @ c" n a]) (simp_all add: off(2) le len)
    show "blob_slice blob (off + 1132) (length blob) = Ok a"
      by (rule slice_at [of off blob "e @ c @ n" a "[]"]) (simp_all add: off(2) le len total)
  qed
  show ?thesis
    using slices [unfolded add.commute [of off 1120] add.commute [of off 1132]] len off(1)
    by (simp add: decrypt_def open_parts_def blob_sizes Let_def x25519_ciphertext_from_bytes_def
        mlkem_ciphertext_from_bytes_def)
qed

text \<open>Every blob is refused with a typed error or has its four parts.\<close>

lemma decrypt_cases:
  "(\<exists>err. decrypt xd mk hkdf gcm x_sk m_sk blob aad ctx = Err err \<and>
      (\<forall>e c n a. \<not> blob_parts blob e c n a)) \<or> (\<exists>e c n a. blob_parts blob e c n a)"
proof (cases "decode_varint blob")
  case (Ok p)
  then obtain v off where dec: "decode_varint blob = Ok (v, off)" by (cases p) auto
  show ?thesis
  proof (cases "v = 2 \<and> 1149 \<le> length blob")
    case True
    let ?r = "drop off blob"
    have "1144 \<le> length ?r" using decode_offset [OF dec] True by auto
    moreover have "?r = take 32 ?r @ take 1088 (drop 32 ?r) @ take 12 (drop 1120 ?r) @ drop 1132 ?r"
    proof -
      have "take 32 ?r @ take 1088 (drop 32 ?r) @ take 12 (drop 1088 (drop 32 ?r)) @ drop 12 (drop 1088 (drop 32 ?r)) = ?r"
        by (simp only: append_take_drop_id)
      then show ?thesis by simp
    qed
    ultimately have "blob_parts blob (take 32 ?r) (take 1088 (drop 32 ?r)) (take 12 (drop 1120 ?r)) (drop 1132 ?r)"
      using dec True unfolding blob_parts_def by auto
    then show ?thesis by blast
  next
    case False
    then show ?thesis using dec by (auto simp: decrypt_def blob_sizes blob_parts_def)
  qed
next
  case (Err x)
  then show ?thesis by (simp add: decrypt_def blob_parts_def)
next
  case Panic
  then show ?thesis by (auto simp: decode_varint_leb split: option.splits if_splits)
qed

end
