(* ===== verification/Agility_Properties.thy ===== *)
theory Agility_Properties
  imports Witness_Laws Ledger_Properties
begin

text \<open>
  The properties of the agility layer: the varint prefix, prefixed and hybrid signatures, and witness
  encryption with its failure behaviour. The witnesses use libraries that satisfy the documented
  contracts and are otherwise trivial.
\<close>

section \<open>Scheme prefixes\<close>

text \<open>
  C30. Scheme prefixes round-trip: encoding any 32-bit value terminates after one to five bytes, appends
  exactly them, and decoding returns the value and stops behind them whatever follows.
\<close>

theorem varint_roundtrip:
  "\<exists>bs. encode_varint v out = (out @ bs, length bs) \<and> 1 \<le> length bs \<and> length bs \<le> MAX_VARINT_LEN \<and>
     decode_varint (bs @ rest) = Ok (v, length bs)"
proof (intro exI conjI)
  show "encode_varint v out = (out @ varint_bytes v, length (varint_bytes v))" by (simp add: encode_varint_def)
  show "1 \<le> length (varint_bytes v)" by (subst varint_step(1)) simp
  show "length (varint_bytes v) \<le> MAX_VARINT_LEN" using varint_at_most_5 by (simp add: MAX_VARINT_LEN_def)
qed simp

text \<open>
  The decoder against the reference of unbounded width: an input without terminator is truncated or, past
  five bytes, too long; every other input of at most five bytes is accepted, with its
  value reduced modulo \<open>2^32\<close>. The overflow error is never returned, so a five-byte prefix
  whose value does not fit, and a prefix padded with empty digits, pass as another scheme's.
\<close>

theorem varint_decode_exact:
  "decode_varint bs =
    (case leb bs of
       None \<Rightarrow> Err (if 5 < length bs then VarintTooLong else VarintTruncated)
     | Some (value, n) \<Rightarrow> if 5 < n then Err VarintTooLong else Ok (of_nat value, n)) \<and>
   decode_varint ([0x82, 0x80, 0x80, 0x80, 0x10] @ rest) = Ok (2, 5)"
  by (simp add: decode_varint_leb)

section \<open>Signatures\<close>

text \<open>
  C29. A hybrid signature is accepted exactly when both components verify: scheme and both lengths are
  as fixed, the first 64 bytes are an ed25519 signature and the rest an ML-DSA-65
  signature of the message under the corresponding parts of the public key.
\<close>

theorem hybrid_accepts_iff_both:
  "hybrid_verifier ed md scheme m sig pk = Ok () \<longleftrightarrow>
     scheme = HybridEd25519MlDsa65 \<and> length sig = 64 + 3309 \<and> length pk = 32 + 1952 \<and>
     ed_key_ok ed (take 32 pk) \<and> ed_check ed (take 32 pk) m (take 64 sig) \<and>
     md_pk_ok md (drop 32 pk) \<and> md_sig_ok md (drop 64 sig) \<and> md_check md (drop 32 pk) m (drop 64 sig)"
proof (cases "scheme = HybridEd25519MlDsa65 \<and> length sig = 64 + 3309 \<and> length pk = 32 + 1952")
  case True
  then show ?thesis
    using hybrid_verifier_split [of "take 32 pk" "drop 32 pk" "take 64 sig" "drop 64 sig" ed md m] by simp
next
  case False
  then show ?thesis using hybrid_verifier_lengths [of ed md scheme m sig pk] by auto
qed

text \<open>
  Honest prefixed signatures are accepted, under both implemented schemes: signing succeeds, and the
  blob verifies against the signer's prefixed public key with the verifier of its scheme.
\<close>

theorem prefixed_signatures_accepted:
  assumes "ed_correct ed" "mldsa_correct md"
  shows "(\<exists>blob. sign_with_prefix (ed25519_signer ed sk) rnd m = Ok blob \<and>
      verify_prefixed (ed25519_verifier_new ed) m blob (fst (encode_varint 1 []) @ ed_public ed sk) = Ok ()) \<and>
    (\<exists>blob. sign_with_prefix (the_hybrid_signer ed md (hybrid_generate md sk seed)) rnd m = Ok blob \<and>
      verify_prefixed (hybrid_verifier ed md) m blob
        (encode_hybrid_pubkey_blob (hybrid_signer_public_key ed (hybrid_generate md sk seed))) = Ok ())"
  using ed_scheme.prefixed_accepted [of ed sk rnd m] hybrid_scheme.prefixed_accepted [of ed md sk seed rnd m] assms
  by (simp add: ed25519_signer_def the_hybrid_signer_def encode_hybrid_pubkey_blob_def)

definition plain_mldsa :: mldsa65 where
  "plain_mldsa = \<lparr> md_keypair = (\<lambda>_. (replicate 1952 0, [])), md_sk_ok = (\<lambda>_. True), md_pk_ok = (\<lambda>_. True),
     md_sig_ok = (\<lambda>_. True), md_sign = (\<lambda>_ _ _. replicate 3309 0), md_check = (\<lambda>_ _ _. True) \<rparr>"

lemma plain_mldsa_correct: "mldsa_correct plain_mldsa"
  by (simp add: mldsa_correct_def plain_mldsa_def)

theorem prefixed_signatures_accepted_witness:
  "\<exists>blob. sign_with_prefix (the_hybrid_signer open_ed plain_mldsa (hybrid_generate plain_mldsa [1] [2])) [] [3] = Ok blob \<and>
     verify_prefixed (hybrid_verifier open_ed plain_mldsa) [3] blob
       (encode_hybrid_pubkey_blob (hybrid_signer_public_key open_ed (hybrid_generate plain_mldsa [1] [2]))) = Ok ()"
  using prefixed_signatures_accepted [OF open_ed_correct plain_mldsa_correct] by blast

text \<open>
  Signature blobs are malleable: for every blob that a verifier accepts there is a different one that it
  accepts for the same message and key, because the prefix has several spellings and is not
  part of what is signed.
\<close>

theorem signature_blob_malleable:
  assumes "verify_prefixed v m blob pk = Ok ()"
  shows "\<exists>blob'. blob' \<noteq> blob \<and> verify_prefixed v m blob' pk = Ok ()"
proof -
  obtain s off where dec: "decode_varint blob = Ok (scheme_as_u32 s, off)"
    using assms by (auto simp: verify_prefixed_def and_then_Ok_iff map_err_Ok_iff scheme_from_u32_Ok split: if_splits)
  obtain blob' off' where "blob' \<noteq> blob" "decode_varint blob' = Ok (scheme_as_u32 s, off')" "drop off' blob' = drop off blob"
    using other_spelling [OF dec scheme_small] by blast
  then show ?thesis using assms dec by (intro exI [of _ blob']) (simp add: verify_prefixed_def cong: if_cong)
qed

theorem signature_blob_malleable_witness:
  "\<exists>blob'. blob' \<noteq> 1 # replicate 64 0 \<and>
     verify_prefixed (ed25519_verifier_new open_ed) [3] blob' (1 # replicate 32 0) = Ok ()"
proof (rule signature_blob_malleable)
  have "decode_varint (1 # r) = Ok (1, 1)" for r using decode_short_prefix [of 1 r] by simp
  then show "verify_prefixed (ed25519_verifier_new open_ed) [3] (1 # replicate 64 0) (1 # replicate 32 0) = Ok ()"
    by (simp add: verify_prefixed_def scheme_from_u32_def ed25519_verifier_new_def ed25519_verifier_def ed25519_only_def
        accepts_def open_ed_def)
qed

section \<open>Witness encryption\<close>

lemma encrypt_blob:
  assumes "encapsulate xd mk eph rnd \<lparr> pub_x25519 = x_pk, pub_ml_kem = m_pk \<rparr> =
      Ok (\<lparr> ct_x25519 = X25519Ciphertext e, ct_ml_kem = MlKemCiphertext c \<rparr>, SharedSecret (x @ y))"
    and "length x = 32" "length y = 32" "length e = 32" "length c = 1088"
    and "hkdf_correct hkdf" "gcm_correct gcm" "length iv = 12" "gcm_fits plaintext aad"
  obtains key a where "hkdf HKDF_SALT (build_kem_transcript x y e c) (context_bytes ctx) 32 = Some key"
    "encrypt xd mk hkdf gcm eph rnd iv x_pk m_pk plaintext aad ctx = Ok (2 # e @ c @ iv @ a)"
    "length a = length plaintext + 16" "gcm_decrypt gcm key iv a aad = Some plaintext"
proof -
  obtain key where key: "hkdf HKDF_SALT (build_kem_transcript x y e c) (context_bytes ctx) 32 = Some key" "length key = 32"
    using assms(6) unfolding hkdf_correct_def by blast
  obtain a where a: "gcm_encrypt gcm key iv plaintext aad = Some a" "length a = length plaintext + 16"
      "gcm_decrypt gcm key iv a aad = Some plaintext"
    using assms(7-9) key(2) unfolding gcm_correct_def by blast
  have "encrypt xd mk hkdf gcm eph rnd iv x_pk m_pk plaintext aad ctx = Ok (2 # e @ c @ iv @ a)"
    using assms(1-5) key(1) a(1) varint_kem
    by (simp add: encrypt_def split_secret_def ss_len_def derive_aead_key_def AES256_KEY_BYTES_def expect_def)
  then show ?thesis using that key(1) a by blast
qed

lemma short_blob_parts:
  "length e = 32 \<Longrightarrow> length c = 1088 \<Longrightarrow> length n = 12 \<Longrightarrow> 16 \<le> length a \<Longrightarrow> blob_parts (2 # e @ c @ n @ a) e c n a"
  using decode_short_prefix [of 2 "e @ c @ n @ a"] by (simp add: blob_parts_def)

text \<open>
  C19. What is encrypted to a recipient is decrypted by the recipient: for a generated key pair, encryption
  succeeds for every context and every plaintext and associated data within the limits of the
  AEAD, and decryption of the blob with the secret key, the same associated data and
  context returns the plaintext, for all randomness on which the lattice scheme decapsulates
  what it encapsulated.
\<close>

theorem witness_roundtrip:
  assumes "x25519_correct xd" "mlkem_correct mk" "hkdf_correct hkdf" "gcm_correct gcm" "length iv = 12"
    and "kp = kem_generate xd mk x_sk seed" "mlkem_agrees mk seed rnd" "gcm_fits plaintext aad"
  shows "\<exists>blob. encrypt xd mk hkdf gcm eph rnd iv (pub_x25519 (kem_public kp)) (pub_ml_kem (kem_public kp))
      plaintext aad ctx = Ok blob \<and>
    decrypt xd mk hkdf gcm (sec_x25519 (kem_secret kp)) (sec_ml_kem (kem_secret kp)) blob aad ctx = Ok plaintext"
proof -
  obtain ct x y where enc: "encapsulate xd mk eph rnd (kem_public kp) = Ok (ct, SharedSecret (x @ y))"
    and dec: "decapsulate xd mk ct (kem_secret kp) = Ok (SharedSecret (x @ y))" and xy: "length x = 32" "length y = 32"
    using hybrid_kem.shared [of xd mk seed "(eph, rnd)" x_sk] assms(1,2,6,7) by auto
  obtain e c where ct: "ct = \<lparr> ct_x25519 = X25519Ciphertext e, ct_ml_kem = MlKemCiphertext c \<rparr>"
    and len: "length e = 32" "length c = 1088"
    using encapsulated_lengths [OF assms(1,2)] enc assms(6) by blast
  have "encapsulate xd mk eph rnd \<lparr> pub_x25519 = pub_x25519 (kem_public kp), pub_ml_kem = pub_ml_kem (kem_public kp) \<rparr> =
      Ok (\<lparr> ct_x25519 = X25519Ciphertext e, ct_ml_kem = MlKemCiphertext c \<rparr>, SharedSecret (x @ y))"
    using enc ct by (cases "kem_public kp") simp
  then obtain key a where key: "hkdf HKDF_SALT (build_kem_transcript x y e c) (context_bytes ctx) 32 = Some key"
    and blob: "encrypt xd mk hkdf gcm eph rnd iv (pub_x25519 (kem_public kp)) (pub_ml_kem (kem_public kp))
      plaintext aad ctx = Ok (2 # e @ c @ iv @ a)"
    and a: "length a = length plaintext + 16" "gcm_decrypt gcm key iv a aad = Some plaintext"
    by (rule encrypt_blob [OF _ xy len assms(3-5,8)])
  have "decrypt xd mk hkdf gcm (sec_x25519 (kem_secret kp)) (sec_ml_kem (kem_secret kp)) (2 # e @ c @ iv @ a) aad ctx = Ok plaintext"
    using len assms(5) a dec ct xy key
    by (cases "kem_secret kp") (simp add: decrypt_parts [OF short_blob_parts] open_parts_def split_secret_def ss_len_def derive_aead_key_def AES256_KEY_BYTES_def expect_def ok_or_def)
  then show ?thesis using blob by blast
qed

definition plain_x25519 :: x25519 where
  "plain_x25519 = \<lparr> xd_public = (\<lambda>_. replicate 32 0), xd_dh = (\<lambda>_ _. replicate 32 0) \<rparr>"

definition plain_mlkem :: mlkem768 where
  "plain_mlkem = \<lparr> mk_keypair = (\<lambda>_. (replicate 1184 0, replicate 2400 0)), mk_pk_ok = (\<lambda>b. length b = 1184),
     mk_sk_ok = (\<lambda>b. length b = 2400), mk_ct_ok = (\<lambda>b. length b = 1088),
     mk_encap = (\<lambda>_ _. (replicate 32 0, replicate 1088 0)), mk_decap = (\<lambda>_ _. replicate 32 0) \<rparr>"

definition plain_hkdf :: hkdf_sha512 where
  "plain_hkdf salt ikm info n = Some (replicate n 0)"

definition plain_gcm :: aes256_gcm where
  "plain_gcm = \<lparr> gcm_encrypt = (\<lambda>_ _ msg aad. if gcm_fits msg aad then Some (msg @ replicate 16 0) else None),
     gcm_decrypt = (\<lambda>_ _ c _. if length c < 16 then None else Some (take (length c - 16) c)) \<rparr>"

lemma plain_correct: "x25519_correct plain_x25519" "mlkem_correct plain_mlkem" "hkdf_correct plain_hkdf" "gcm_correct plain_gcm"
  by (simp_all add: x25519_correct_def plain_x25519_def mlkem_correct_def plain_mlkem_def hkdf_correct_def plain_hkdf_def
      gcm_correct_def plain_gcm_def)

definition plain_keys :: hybrid_kem_keypair where
  "plain_keys = kem_generate plain_x25519 plain_mlkem [1] [2]"

theorem witness_roundtrip_witness:
  "\<exists>blob. encrypt plain_x25519 plain_mlkem plain_hkdf plain_gcm [] [] (replicate 12 7)
      (pub_x25519 (kem_public plain_keys)) (pub_ml_kem (kem_public plain_keys)) [1, 2, 3] [4] ViewKeyV1 = Ok blob \<and>
    decrypt plain_x25519 plain_mlkem plain_hkdf plain_gcm (sec_x25519 (kem_secret plain_keys)) (sec_ml_kem (kem_secret plain_keys))
      blob [4] ViewKeyV1 = Ok [1, 2, 3]"
  by (rule witness_roundtrip [OF plain_correct _ plain_keys_def])
     (simp_all add: mlkem_agrees_def plain_mlkem_def gcm_fits_def)

lemma transcript_bytes: "build_kem_transcript x y e c = [2] @ x @ y @ e @ c"
  using varint_kem by (simp add: build_kem_transcript_def)

lemma context_text:
  "context_bytes ctx = ascii (case ctx of WitnessEncV1 \<Rightarrow> ''PSL-WitnessEnc-v1'' | ViewKeyV1 \<Rightarrow> ''PSL-ViewKey-v1''
     | TravelRuleV1 \<Rightarrow> ''PSL-TravelRule-v1'')"
  by (cases ctx) simp_all

lemma open_parts_Ok:
  assumes "x25519_correct xd" "mlkem_correct mk" "hkdf_correct hkdf" "length c = 1088"
  shows "open_parts xd mk hkdf gcm x_sk m_sk e c n a aad ctx =
    (if length (mlkem_sk_bytes m_sk) \<noteq> 2400 then Panic
     else ok_or AuthenticationFailed (gcm_decrypt gcm
       (the (hkdf HKDF_SALT (build_kem_transcript (xd_dh xd (x25519_sk_bytes x_sk) e) (mk_decap mk c (mlkem_sk_bytes m_sk)) e c)
          (context_bytes ctx) 32)) n a aad))"
proof -
  have x: "length (xd_dh xd (x25519_sk_bytes x_sk) e) = 32" using assms(1) by (simp add: x25519_correct_def)
  have m: "mk_sk_ok mk b \<longleftrightarrow> length b = 2400" "mk_ct_ok mk c" "length (mk_decap mk c b) = 32" for b
    using assms(2,4) by (auto simp: mlkem_correct_def)
  obtain key where "hkdf HKDF_SALT (build_kem_transcript (xd_dh xd (x25519_sk_bytes x_sk) e)
      (mk_decap mk c (mlkem_sk_bytes m_sk)) e c) (context_bytes ctx) 32 = Some key"
    using assms(3) unfolding hkdf_correct_def by blast
  then show ?thesis
    using x m by (simp add: open_parts_def decapsulate_def split_secret_def ss_len_def derive_aead_key_def
        AES256_KEY_BYTES_def expect_def)
qed

text \<open>
  C28. What acceptance of a blob means: decryption returns a plaintext exactly when the blob has all its
  parts and the AEAD opens them under the key that HKDF derives, with the fixed salt and the given
  context, from the scheme's number, both shared secrets and both ciphertext components, in
  this order. So the key depends on every component of the blob before the nonce.
\<close>

theorem decrypt_exact:
  assumes "x25519_correct xd" "mlkem_correct mk" "hkdf_correct hkdf" "length (mlkem_sk_bytes m_sk) = 2400"
  shows "decrypt xd mk hkdf gcm x_sk m_sk blob aad ctx = Ok m \<longleftrightarrow>
    (\<exists>e c n a. blob_parts blob e c n a \<and>
       gcm_decrypt gcm
         (the (hkdf (ascii ''PSL-hybrid-kem-salt-v1'')
            ([2] @ xd_dh xd (x25519_sk_bytes x_sk) e @ mk_decap mk c (mlkem_sk_bytes m_sk) @ e @ c)
            (ascii (case ctx of WitnessEncV1 \<Rightarrow> ''PSL-WitnessEnc-v1'' | ViewKeyV1 \<Rightarrow> ''PSL-ViewKey-v1''
               | TravelRuleV1 \<Rightarrow> ''PSL-TravelRule-v1'')) 32)) n a aad = Some m)"
    (is "_ \<longleftrightarrow> (\<exists>e c n a. blob_parts blob e c n a \<and> ?opens e c n a)")
proof -
  have parts: "decrypt xd mk hkdf gcm x_sk m_sk blob aad ctx = Ok m \<longleftrightarrow> ?opens e c n a"
    if "blob_parts blob e c n a" for e c n a
  proof -
    have "length c = 1088" using that by (simp add: blob_parts_def)
    from open_parts_Ok [OF assms(1-3) this] show ?thesis
      by (simp add: decrypt_parts [OF that] assms(4) ok_or_def transcript_bytes HKDF_SALT_def context_text split: option.split)
  qed
  show ?thesis
    using decrypt_cases [of xd mk hkdf gcm x_sk m_sk blob aad ctx] parts by (metis res.distinct(1))
qed

lemma plain_blob_parts: "blob_parts (2 # replicate 32 0 @ replicate 1088 0 @ replicate 12 7 @ replicate 16 0)
    (replicate 32 0) (replicate 1088 0) (replicate 12 7) (replicate 16 0)"
  by (rule short_blob_parts) simp_all

theorem decrypt_exact_witness:
  "decrypt plain_x25519 plain_mlkem plain_hkdf plain_gcm (RecipientX25519SecretKey [1]) (RecipientMlKemSecretKey (replicate 2400 0))
     (2 # replicate 32 0 @ replicate 1088 0 @ replicate 12 7 @ replicate 16 0) [] TravelRuleV1 = Ok []"
  using plain_blob_parts
  by (subst decrypt_exact [OF plain_correct(1-3)]) (simp, intro exI conjI, assumption, simp add: plain_gcm_def)

text \<open>
  C38. Decryption panics exactly on a secret key of the wrong length: on every byte string it returns a
  plaintext or a typed error when the ML-KEM secret key has its 2400 bytes; the
  constructor of that key does not check the length, and with any other length every blob
  that has its parts makes the decapsulation panic.
\<close>

theorem decrypt_panics_iff:
  assumes "x25519_correct xd" "mlkem_correct mk" "hkdf_correct hkdf"
  shows "decrypt xd mk hkdf gcm x_sk m_sk blob aad ctx = Panic \<longleftrightarrow>
    length (mlkem_sk_bytes m_sk) \<noteq> 2400 \<and> (\<exists>e c n a. blob_parts blob e c n a)"
proof -
  have parts: "decrypt xd mk hkdf gcm x_sk m_sk blob aad ctx = Panic \<longleftrightarrow> length (mlkem_sk_bytes m_sk) \<noteq> 2400"
    if "blob_parts blob e c n a" for e c n a
  proof -
    have "length c = 1088" using that by (simp add: blob_parts_def)
    from open_parts_Ok [OF assms this] show ?thesis
      by (simp add: decrypt_parts [OF that] ok_or_def split: option.split)
  qed
  show ?thesis
    using decrypt_cases [of xd mk hkdf gcm x_sk m_sk blob aad ctx] parts by (metis res.distinct(5))
qed

theorem decrypt_panics_iff_witness:
  "decrypt plain_x25519 plain_mlkem plain_hkdf plain_gcm (RecipientX25519SecretKey [1]) (RecipientMlKemSecretKey [])
     (2 # replicate 32 0 @ replicate 1088 0 @ replicate 12 7 @ replicate 16 0) [] TravelRuleV1 = Panic"
  using plain_blob_parts by (subst decrypt_panics_iff [OF plain_correct(1-3)]) (simp, blast)

end
