(* ===== verification/Authority_Properties.thy ===== *)
theory Authority_Properties
  imports Service_Properties
begin

text \<open>
  Who may have caused what a running service puts into its blocks: every transaction in a block
  passed validation against the registry as it was when the transaction was submitted, so it
  is signed and, for minting, burning and freezing, comes from the authority of a
  registered issuer.
\<close>

section \<open>The registry holds what was registered\<close>

definition registry_of :: "xof \<Rightarrow> json \<Rightarrow> issuer_record set \<Rightarrow> state \<Rightarrow> bool" where
  "registry_of xof js R s \<longleftrightarrow>
     (\<forall>k v. smt_get (registry s) k = Some v \<longrightarrow> (\<exists>r\<in>R. k = issuer_key xof r \<and> v = to_vec js r))"

lemma registry_of_new: "registry_of xof js {} (state_new xof)"
  by (simp add: registry_of_def state_new_def smt_new_def smt_get_def Let_def)

lemma registry_of_register:
  "registry_of xof js R (node_state nd) \<Longrightarrow> registry_of xof js (insert r R) (node_state (register_issuer xof js r nd))"
  by (auto simp: registry_of_def register_issuer_def smt_get_def Let_def split: if_splits)

lemma process_registry: "registry (fst (process_txs xof exec ep s txs)) = registry s"
proof (induction txs arbitrary: s)
  case (Cons tx txs)
  have "registry (fold (put_account xof) accs st) = registry st" for accs st
    by (induction accs arbitrary: st) simp_all
  then show ?case using Cons.IH by (simp add: Let_def split_beta split: res.split)
qed simp

lemma produce_block_registry:
  assumes "produce_block xof ed exec n1 n2 nd = (nd', r)"
  shows "registry (node_state nd') = registry (node_state nd)"
  using assms process_registry [of xof exec "ucast (of_nat (unat n1 div 1000) :: u64)" "node_state nd"]
  by (auto simp: produce_block_def Let_def drain_def split_beta split: if_splits res.splits option.splits)

section \<open>Authorised transactions\<close>

text \<open>
  A transaction is authorised by a set of issuers when its signature verifies and one of them,
  registered for its asset, has the rights it needs. The serialiser reads a set of records
  when each comes back from the bytes it is stored as.
\<close>

definition asset_key :: "xof \<Rightarrow> u32 \<Rightarrow> hash" where
  "asset_key xof aid = hash_bytes xof (ascii ''issuer:'' @ u32_le aid)"

definition issued_by :: "signed_tx \<Rightarrow> issuer_record \<Rightarrow> bool" where
  "issued_by tx r \<longleftrightarrow>
     (kind tx \<in> {Mint, Burn, Freeze} \<longrightarrow> signer tx = authority_pubkey r) \<and>
     (kind tx = Mint \<longrightarrow> mint_enabled r) \<and> (kind tx = Burn \<longrightarrow> burn_enabled r) \<and>
     (kind tx = Freeze \<longrightarrow> freeze_enabled r \<and> court_order_hash tx \<noteq> None) \<and>
     (kind tx \<in> {Transfer, MultiAsset} \<longrightarrow> originator_metadata tx \<noteq> None \<or>
        u128_from_le (travel_rule_threshold r) \<noteq> 0 \<and> u128_from_le (amount tx) \<le> u128_from_le (travel_rule_threshold r))"

definition reads :: "json \<Rightarrow> issuer_record set \<Rightarrow> bool" where
  "reads js R \<longleftrightarrow> (\<forall>r\<in>R. from_slice js (to_vec js r) = Some r)"

definition authorised :: "xof \<Rightarrow> ed25519 \<Rightarrow> issuer_record set \<Rightarrow> signed_tx \<Rightarrow> bool" where
  "authorised xof ed R tx \<longleftrightarrow>
     verify ed (signer tx) (canonical tx) (signature tx) = Ok () \<and>
     (\<exists>r\<in>R. asset_key xof (ir_asset_id r) = asset_key xof (asset_id tx) \<and> issued_by tx r)"

lemma authorised_mono: "authorised xof ed R tx \<Longrightarrow> R \<subseteq> R' \<Longrightarrow> authorised xof ed R' tx"
  by (auto simp: authorised_def)

lemma validate_authorised:
  assumes "validate ed tx (node_state nd) (lookup_issuer xof js nd) = Ok ()" "reads js R"
    and "registry_of xof js R (node_state nd)"
  shows "authorised xof ed R tx"
proof -
  obtain r where r: "verify ed (signer tx) (canonical tx) (signature tx) = Ok ()"
      "lookup_issuer xof js nd (asset_id tx) = Some r" "issued_by tx r"
    using assms(1) unfolding validate_Ok validate_checks(2,3) issued_by_def not_less by blast
  from r(2) obtain v where v: "smt_get (registry (node_state nd)) (asset_key xof (asset_id tx)) = Some v" "from_slice js v = Some r"
    by (auto simp: lookup_issuer_def asset_key_def Let_def split: option.splits)
  from v(1) assms(3) obtain r' where "r' \<in> R" "asset_key xof (asset_id tx) = issuer_key xof r'" "v = to_vec js r'"
    unfolding registry_of_def by blast
  then show ?thesis
    using r v(2) assms(2) by (auto simp: authorised_def reads_def asset_key_def issuer_key_def)
qed

definition authority_inv :: "xof \<Rightarrow> ed25519 \<Rightarrow> json \<Rightarrow> issuer_record set \<Rightarrow> service \<Rightarrow> bool" where
  "authority_inv xof ed js R srv \<longleftrightarrow>
     registry_of xof js R (node_state (live srv)) \<and>
     (\<forall>tx \<in> set (queue (node_mempool (live srv))). authorised xof ed R tx) \<and>
     (\<forall>b \<in> set (produced srv). \<forall>tx \<in> set (blk_txs b). authorised xof ed R tx)"

lemma service_authority:
  assumes "service_run xof ed js os cfg R srv" "reads js R"
  shows "authority_inv xof ed js R srv"
  using assms
proof (induction rule: service_run.induct)
  case start
  then show ?case
    by (simp add: authority_inv_def service_start_def sequencer_node_new_def node_new_def mempool_new_def registry_of_new)
next
  case (turn R srv t1 t2 srv')
  obtain nd r where p: "produce_block xof ed (execute_trace xof os (sn_trace (srv_node srv))) (chrono_now_ms t1) (chrono_now_ms t2) (live srv) = (nd, r)"
    by (metis prod.exhaust)
  have live: "set (queue (node_mempool nd)) \<subseteq> set (queue (node_mempool (live srv)))"
    "registry (node_state nd) = registry (node_state (live srv))"
    using produce_block_drains [OF p] produce_block_registry [OF p] by (simp_all add: set_drop_subset)
  from p show ?case
  proof (cases rule: tick_cases)
    case (block b)
    have "set (blk_txs b) \<subseteq> set (queue (node_mempool (live srv)))"
      using produce_block_Some(3) [OF p [unfolded block(1)]] by (simp add: set_take_subset)
    then have "\<forall>tx \<in> set (blk_txs b). authorised xof ed R tx"
      using turn.IH [OF turn.prems] unfolding authority_inv_def by blast
    then show ?thesis
      using turn block(2) live by (auto simp: authority_inv_def registry_of_def)
  qed (use turn live in \<open>auto simp: authority_inv_def registry_of_def\<close>)
next
  case (submit R srv tx)
  obtain nd r where sub: "sovereign_submit_tx xof ed js tx (live srv) = (nd, r)" by (metis prod.exhaust)
  have "nd = live srv \<or> nd = enqueue [tx] (live srv) \<and> validate ed tx (node_state (live srv)) (lookup_issuer xof js (live srv)) = Ok ()"
    using sovereign_submit_cases [OF sub] sub
      ingress_Ok [of ed "node_mempool (live srv)" tx "node_state (live srv)" "lookup_issuer xof js (live srv)"]
    by (auto simp: sovereign_submit_tx_def Let_def split: prod.splits)
  then show ?case
    using submit sub validate_authorised [of ed tx "live srv" xof js R] by (auto simp: authority_inv_def)
next
  case (register R srv r)
  have mono: "authorised xof ed R tx \<Longrightarrow> authorised xof ed (insert r R) tx" for tx
    by (erule authorised_mono) auto
  have "authority_inv xof ed js R srv" using register by (simp add: reads_def)
  then show ?case
    using registry_of_register [of xof js R "live srv" r] mono
    by (auto simp: authority_inv_def) (auto simp: register_issuer_def Let_def)
qed

section \<open>The property\<close>

text \<open>
  C3. Nothing enters a block without authority: after any interleaving of turns, submissions and
  registrations, every transaction in a produced block carries a valid signature of its
  signer over all its fields, and an issuer registered for its asset backs it: minting,
  burning and freezing are signed by that issuer's authority key with the operation
  enabled, a freeze also names a court order, and a transfer or multi-asset transaction
  carries originator metadata unless the issuer has a travel-rule threshold and the amount does not
  exceed it. The registry keys of different assets must not collide, and the registered
  records must survive serialisation.
\<close>

theorem blocks_are_authorised:
  assumes "service_run xof ed js os cfg R srv" "\<forall>r\<in>R. from_slice js (to_vec js r) = Some r" "inj (asset_key xof)"
    and "b \<in> set (produced srv)" "tx \<in> set (blk_txs b)"
  shows "verify ed (signer tx) (canonical tx) (signature tx) = Ok () \<and>
    (\<exists>r\<in>R. ir_asset_id r = asset_id tx \<and>
       (kind tx \<in> {Mint, Burn, Freeze} \<longrightarrow> signer tx = authority_pubkey r) \<and>
       (kind tx = Mint \<longrightarrow> mint_enabled r) \<and> (kind tx = Burn \<longrightarrow> burn_enabled r) \<and>
       (kind tx = Freeze \<longrightarrow> freeze_enabled r \<and> court_order_hash tx \<noteq> None) \<and>
       (kind tx \<in> {Transfer, MultiAsset} \<longrightarrow> originator_metadata tx \<noteq> None \<or>
          u128_from_le (travel_rule_threshold r) \<noteq> 0 \<and> u128_from_le (amount tx) \<le> u128_from_le (travel_rule_threshold r)))"
proof -
  have "authorised xof ed R tx"
    using service_authority [OF assms(1) assms(2) [folded reads_def]] assms(4,5) by (auto simp: authority_inv_def)
  then obtain r where "verify ed (signer tx) (canonical tx) (signature tx) = Ok ()" "r \<in> R" "issued_by tx r"
      "asset_key xof (ir_asset_id r) = asset_key xof (asset_id tx)"
    by (auto simp: authorised_def)
  then show ?thesis using injD [OF assms(3)] unfolding issued_by_def by (intro conjI bexI [of _ r]) auto
qed

text \<open>
  The service of one registered issuer that has produced the block with the freeze, under a
  hash that keeps its input.
\<close>

theorem blocks_are_authorised_witness:
  "\<exists>srv b. service_run (\<lambda>m n. m) open_ed sample_json bare_host sample_config {sample_issuer} srv \<and> produced srv = [b] \<and>
     blk_txs b = [sample_tx] \<and> verify open_ed (signer sample_tx) (canonical sample_tx) (signature sample_tx) = Ok () \<and>
     kind sample_tx = Freeze \<and> signer sample_tx = authority_pubkey sample_issuer \<and> freeze_enabled sample_issuer"
proof -
  let ?xof = "\<lambda>m n. m"
  obtain srv b where run: "service_run ?xof open_ed sample_json bare_host sample_config {sample_issuer} srv"
    and b: "produced srv = [b]" and txs: "blk_txs b = [sample_tx]"
    by (rule sample_turn [OF reads_sample_json])
  have inj: "inj (asset_key ?xof)"
    by (auto simp: inj_def asset_key_def hash_bytes_def)
  have kind: "kind sample_tx = Freeze" by (simp add: sample_tx_def)
  have "\<forall>r\<in>{sample_issuer}. from_slice sample_json (to_vec sample_json r) = Some r"
    using reads_sample_json by (simp add: reads_sample_def)
  from blocks_are_authorised [OF run this inj, of b sample_tx] b txs kind
  have "verify open_ed (signer sample_tx) (canonical sample_tx) (signature sample_tx) = Ok ()"
    "signer sample_tx = authority_pubkey sample_issuer" "freeze_enabled sample_issuer"
    by auto
  then show ?thesis using run b txs kind by blast
qed

end
