(* ===== verification/Agent_Spending.thy ===== *)
theory Agent_Spending
  imports Sdk_Properties
begin

text \<open>
  The wallet inside the agent runtime: the spends an agent admits over its whole life, between the
  messages it handles, follow the policy its parent key signed.
\<close>

text \<open>
  A life of an agent with the time of the last admission request and the spends admitted so far.
  Requests come with a clock that does not go back; everything else may happen between them.
\<close>

inductive spending_run :: "xof \<Rightarrow> ed25519 \<Rightarrow> agent_identity \<Rightarrow> u64 \<Rightarrow> history \<Rightarrow> agent_sdk \<Rightarrow> bool" for xof ed i where
  start: "spending_run xof ed i 0 [] (sdk_new i)"
| contract: "spending_run xof ed i t H (register_contract p s)" if "spending_run xof ed i t H s"
| propose: "spending_run xof ed i t H (fst (sdk_propose xof ed program params to vf vu n s))" if "spending_run xof ed i t H s"
| on_propose: "spending_run xof ed i t H (fst (fst (handle_propose xof ed tr p now decide (s, b :: in_process_bus))))"
    if "spending_run xof ed i t H s"
| on_accept: "spending_run xof ed i t H (fst (fst (handle_accept ed tr a wit now (s, b :: in_process_bus))))"
    if "spending_run xof ed i t H s"
| on_execute: "spending_run xof ed i t H (fst (fst (handle_execute ed e view (s, b :: in_process_bus))))"
    if "spending_run xof ed i t H s"
| admitted: "spending_run xof ed i now (H @ [(now, v)]) s'"
    if "spending_run xof ed i t H s" "t \<le> now" "admit_outgoing name cp v now s = (s', Ok ())"
| refused: "spending_run xof ed i now H s'"
    if "spending_run xof ed i t H s" "t \<le> now" "admit_outgoing name cp v now s = (s', Err e)"

lemma admit_outgoing_step:
  "snd (admit_outgoing name cp v now s) = Ok () \<longleftrightarrow> snd (admit now name cp v (spending s)) = Ok ()"
  "spending (fst (admit_outgoing name cp v now s)) = fst (admit now name cp v (spending s))"
proof -
  obtain tr r where "admit now name cp v (spending s) = (tr, r)" by (metis prod.exhaust)
  then show "snd (admit_outgoing name cp v now s) = Ok () \<longleftrightarrow> snd (admit now name cp v (spending s)) = Ok ()"
    "spending (fst (admit_outgoing name cp v now s)) = fst (admit now name cp v (spending s))"
    by (cases r; simp add: admit_outgoing_def)+
qed

lemma spending_run_tracks:
  "spending_run xof ed i t H s \<Longrightarrow> tracks (env_policy (id_policy_envelope i)) t (spending s, H)"
proof (induction rule: spending_run.induct)
  case start
  then show ?case using tracks_new by (simp add: sdk_new_def)
next
  case (contract t H s p)
  then show ?case by (simp add: register_contract_def)
next
  case (propose t H s program params to vf vu n)
  then show ?case using tracker.propose [of s "spending s" xof ed] by simp
next
  case (on_propose t H s tr p now decide b)
  then show ?case using keepsD [OF tracker.handle_propose, of s "spending s"] by simp
next
  case (on_accept t H s tr a wit now b)
  then show ?case using keepsD [OF tracker.handle_accept, of s "spending s"] by simp
next
  case (on_execute t H s e view b)
  then show ?case using keepsD [OF tracker.handle_execute, of s "spending s"] by simp
next
  case (admitted t H s now name cp v s')
  then show ?case
    using tracks_step [OF admitted.IH, of "Admit now name cp v"] admit_outgoing_step [of name cp v now s]
    by (simp add: Let_def split: prod.splits)
next
  case (refused t H s now name cp v s' e)
  then show ?case
    using tracks_step [OF refused.IH, of "Admit now name cp v"] admit_outgoing_step [of name cp v now s]
    by (auto simp: Let_def split: prod.splits if_splits)
qed

text \<open>
  C12. The runtime enforces the signed spending policy over the life of an agent: whatever messages it
  proposes and handles in between, the amounts \<open>admit_outgoing\<close> has admitted within any
  interval of the window's length never exceed the cap, and its next answer is positive if
  and only if the policy allows the contract and the counterparty, has not expired, and
  the spends of the last window together with the new one stay within the cap.
\<close>

theorem agent_spending_exact:
  assumes "spending_run xof ed i t H s" "t \<le> now" "p = env_policy (id_policy_envelope i)"
  shows "range_sum a (a + unat (window_secs p)) H \<le> unat (cap_per_window p) \<and>
    (snd (admit_outgoing name cp v now s) = Ok () \<longleftrightarrow> permitted p H now name cp v)"
proof -
  have t: "tracks p t (spending s, H)" using spending_run_tracks [OF assms(1)] assms(3) by simp
  from admit_spec [OF this assms(2)] t show ?thesis
    by (simp add: admit_outgoing_step tracks_def capped_def)
qed

text \<open>An agent with a cap of 1000 an hour that asks twice for 600: the second request is refused.\<close>

definition spending_agent :: agent_sdk where
  "spending_agent = fst (admit_outgoing (ascii ''transfer'') [] 600 1000 (sample_agent (replicate 32 4)))"

lemma first_spend:
  "admit_outgoing (ascii ''transfer'') [] 600 1000 (sample_agent (replicate 32 4)) = (spending_agent, Ok ())"
  by (simp add: spending_agent_def admit_outgoing_def sample_agent_def register_contract_def sdk_new_def sample_identity_def
      tracker_new_def sample_policy_def admit_def try_spend_def allows_contract_def allows_counterparty_def
      current_window_total_def evict_expired_def saturating_sub_def saturating_add_def checked_add_def Let_def)

theorem agent_spending_exact_witness:
  "snd (admit_outgoing (ascii ''transfer'') [] 600 1100 spending_agent) \<noteq> Ok () \<and>
   snd (admit_outgoing (ascii ''transfer'') [] 400 1100 spending_agent) = Ok ()"
proof -
  have "spending_run zero_xof open_ed (sample_identity (replicate 32 4)) 0 [] (sample_agent (replicate 32 4))"
    unfolding sample_agent_def by (intro spending_run.contract spending_run.start)
  then have "spending_run zero_xof open_ed (sample_identity (replicate 32 4)) 1000 ([] @ [(1000, 600)]) spending_agent"
    by (rule spending_run.admitted [OF _ _ first_spend]) simp
  from agent_spending_exact [OF this, of 1100 _ _ "ascii ''transfer''" "[]"] show ?thesis
    by (simp add: sample_identity_def sample_policy_def permitted_def range_sum_def expired_def allows_contract_def
        allows_counterparty_def)
qed

end
