(* ===== verification/Spec2Isabelle.thy ===== *)
theory Spec2Isabelle
  imports Kernel_Properties Replay_Properties Pilot Legacy_Binaries_Laws Protocol_Properties Wallet_Properties Agent_Examples Agility_Properties
    Authority_Properties Agent_Spending
begin

text \<open>
  A verification library for the Transformer-VM-Bank repository: a ledger whose transaction
  programs are ternary neural networks evaluated in integer arithmetic, with a sequencer, a light
  client, and a stack for autonomous agents that negotiate and execute contracts on it.

  \<^bold>\<open>The program and the theories that model it.\<close> Each group of definitions follows its source file
  in order and keeps its names, with a prefix where two files use the same one.

  \<^item> \<open>ternary_vm/src\<close>, the integer kernel. \<open>Ternary_Network\<close> has \<open>error.rs\<close>, \<open>thermo.rs\<close> and
    \<open>network.rs\<close> (sparse layers, checked accumulation, ReLU, argmax); \<open>Weights\<close> has \<open>weights.rs\<close> and
    \<open>trace_hash.rs\<close> (the packed weight format and the hashes); \<open>Byte_Primitives\<close> and
    \<open>Record_Primitives\<close> have \<open>primitives/\<close> (byte addition and subtraction, freezing, record
    emission); \<open>Byte_Chains\<close> has the programs that chain byte networks over 64 and 128 bits.
  \<^item> \<open>agent_contracts/src\<close>, the contract library: \<open>Contracts\<close> (transfer, swap, escrow, conditional
    and risk-gated payments, program hashes), with their shared contract in \<open>Contract_Laws\<close>.
  \<^item> \<open>crypto/src\<close>: \<open>Account\<close> (the 64-byte record), \<open>Crypto\<close> (hashes and signatures), \<open>Smt\<close> (the sparse
    Merkle tree over a content-addressed node store).
  \<^item> \<open>sequencer/src\<close> and \<open>consensus/src\<close>: \<open>Tx_Block\<close> (\<open>tx.rs\<close>, \<open>block.rs\<close>), \<open>Trace_Executor\<close> and
    \<open>Subprocess_Executor\<close> (\<open>trace.rs\<close>: the native executor and the one that runs the external program and
    reads its output), \<open>Sequencer\<close> (\<open>state.rs\<close>, \<open>issuer_registry.rs\<close>, \<open>mempool.rs\<close>, block production in \<open>node.rs\<close>),
    with the effects of the operations in \<open>Sequencer_Laws\<close>; \<open>Sequencer_Service\<close> (\<open>config.rs\<close>, \<open>main.rs\<close>, \<open>rpc.rs\<close>,
    \<open>compliance.rs\<close>, the loop of \<open>node.rs\<close>, the consensus interface with \<open>sovereign.rs\<close> and \<open>abci.rs\<close>), with its
    runs in \<open>Service_Laws\<close>. \<open>Ledger_Spec\<close> is the specification: a ledger of balances, nonces and
    frozen flags, which execution on the stored records is related to by an abstraction function.
  \<^item> \<open>light_client/src\<close>: \<open>Light_Client\<close>. \<open>Ledger_Run\<close> runs a sequencer and a light client together.
  \<^item> \<open>agent_protocol/src\<close>: \<open>Protocol\<close> (messages, proposal log, disputes, registrations, reputation)
    and \<open>Protocol_Laws\<close>. \<open>agent_wallet/src\<close>: \<open>Wallet\<close> (policies, spending tracker, revocations,
    rotations, key derivation) and \<open>Wallet_Laws\<close>. \<open>agent_sdk/src\<close>: \<open>Sdk\<close> (transport, chain view, the
    agent runtime that composes wallet, protocol and contracts) and \<open>Sdk_Laws\<close>; \<open>agent_sdk/examples\<close>:
    \<open>Agent_Examples\<close> (the trader, service and inference agents, as programs over the runtime).
  \<^item> \<open>crypto_agility/src\<close>: \<open>Agility\<close> (varint prefixes, schemes, hash blobs, signers, verifiers and
    policies, the hybrid signature) with \<open>Agility_Laws\<close>, and \<open>Witness_Encryption\<close> (the hybrid key
    encapsulation and the encrypted blobs) with \<open>Witness_Laws\<close>.

  \<^item> \<open>legacy/rust_runner/src\<close>, the floating-point transformer the integer kernel replaced: \<open>Binary64\<close>
    (IEEE 754 arithmetic), \<open>Legacy_Sparse\<close> (\<open>sparse.rs\<close>), \<open>Legacy_Attention\<close> (\<open>attention.rs\<close>),
    \<open>Legacy_Runner\<close> (\<open>weights.rs\<close>, \<open>transformer.rs\<close>, \<open>generate.rs\<close>), each with its \<open>_Laws\<close> theory,
    \<open>Gate_One\<close> (the vectors and encodings of \<open>bin/run_gate1.rs\<close>) and \<open>Legacy_Binaries\<close> (the programs
    \<open>run_gate1\<close>, \<open>dump_logits\<close> and \<open>runner\<close>) with \<open>Legacy_Binaries_Laws\<close>.
  \<^item> \<open>pilot/issuer_demo/src\<close>: \<open>Pilot\<close>, the end-to-end flow on the modelled ledger and light client.

  \<^bold>\<open>Conventions.\<close> \<open>Prelude\<close> has the Rust vocabulary, \<open>Rust_Text\<close> the string functions of its standard library. Unsigned integers are words of their width; plain \<open>+\<close> wraps,
  as in the release build, and checked or saturating operations are written as such. \<open>usize\<close> is \<open>nat\<close>
  where it counts what is in memory, with the arithmetic modulo \<open>2^64\<close> where a size comes from a
  file or the command line. \<open>i64\<close> is
  \<open>int\<close> with its range written out where the code checks it. A fallible function returns \<open>res\<close>: a
  value, an error of the source's error type, or \<open>Panic\<close> for \<open>expect\<close>, \<open>unwrap\<close> and indexing out of
  range. An operation that changes state returns the new state beside its result, also on
  failure, so the changes made before an early return are visible. Maps are functions to \<open>option\<close>,
  or association lists where the iteration order is observable. No definition needs fuel: all
  loops run over data, over a word that shrinks or up to a bound (the decoding loop of the legacy
  runner, by a measure), and every function is total. \<open>f64\<close> is binary64 with its
  rounding written out; NaN is one value, as its payload is not observable in this code.

  \<^bold>\<open>Parameters.\<close> Code outside the repository is an argument: BLAKE3 is \<open>xof\<close>, ed25519 the record
  \<open>ed25519\<close> with the documented law \<open>ed_correct\<close>, JSON the record \<open>json\<close>, HMAC-SHA512 a function, ML-DSA-65,
  X25519, ML-KEM-768, HKDF and AES-GCM the records \<open>mldsa65\<close>, \<open>x25519\<close>, \<open>mlkem768\<close>, \<open>hkdf_sha512\<close> and
  \<open>aes256_gcm\<close> with their laws. The legacy runner takes \<open>exp\<close>, \<open>ln\<close> and what \<open>ndarray\<close> and \<open>byteorder\<close>
  provide from the records \<open>platform\<close> and \<open>byteorder\<close>, with the laws \<open>ndarray_ok\<close> and \<open>byteorder_ok\<close>. Clock readings, the randomness the code
  draws, the file system and the external program are arguments. Where a
  theorem needs that hashes do not collide, the hypothesis speaks of the finitely many messages
  that were hashed, not of all messages. Every such theorem has a witness with concrete functions that
  satisfy the hypotheses; under the digest \<open>code_xof\<close> of \<open>Crypto_Properties\<close> every tree does. The laws of the libraries have the
  limits their documents give: AES-GCM encrypts up to a length, and ML-KEM decapsulates what it
  encapsulated for the randomness the theorem is told of.

  \<^bold>\<open>What the lemmas show.\<close>

  \<^item> \<open>Kernel_Properties\<close>: the built networks compute byte addition with carry, subtraction with
    borrow, freezing and record emission for all inputs; a layer's result is the exact
    integer sum or an overflow error; weight files round-trip and malformed row offsets panic;
    trace hashes bind weights, input and output; every guarded transfer contract pays exactly when
    its guard, the funds and the overflow condition allow it and conserves the total; a swap
    moves both assets exactly when both sides can pay; the risk gate follows its model. The locales \<open>byte_adder\<close>, \<open>byte_subtractor\<close> and
    \<open>guarded_transfer\<close> carry these proofs from bytes to chains to contracts.
  \<^item> \<open>Crypto_Properties\<close>: the tree refines a map with authenticated lookups (the locale
    \<open>authenticated_map\<close>): insertion, complete and sound proofs; the account record's fields are
    independent but for the shared top bit; the freeze networks refine the record operation.
  \<^item> \<open>Ledger_Spec\<close>, \<open>Ledger_Properties\<close> and \<open>Ledger_Run\<close>: signatures and header hashes cover every field;
    which submissions are queued and that the others change nothing; native execution of a batch refines the abstract ledger on every
    branch, those that end with an error included; the supply changes by what is minted and
    burned and by nothing else, self-transfers apart; what a produced
    block contains; what a light client may conclude, and that it agrees with the live sequencer;
    and the ledger's defects (self-transfers mint, duplicates pay twice, burns replay, a bad
    transaction loses the block).
  \<^item> \<open>Subprocess_Executor\<close>, \<open>Service_Laws\<close> and \<open>Service_Properties\<close>: the external executor returns exactly the
    accounts the external program prints; after any interleaving of turns, submissions and
    registrations the mempool, the block sizes and the block numbers stay within their bounds; the
    production loop empties the mempool; a service without warnings is a run of the ledger,
    which the light-client theorem is about; what the consensus front ends queue (the locale
    \<open>consensus_front\<close>, interpreted for both).
  \<^item> \<open>Replay_Properties\<close> and \<open>Authority_Properties\<close>: the accounts of a running service with the native executor
    are those that replaying its blocks on an empty abstract ledger gives, and a light client
    obtains exactly the replayed balance, if the hash does not collide on the nodes
    that building the tree hashed (\<open>Smt.built\<close> collects them); whatever is in a block was signed
    and is backed by a registered issuer.
  \<^item> \<open>Protocol_Properties\<close>, \<open>Wallet_Properties\<close>, \<open>Sdk_Properties\<close>: every logged proposal state is justified
    by signatures and moves only forward (the locale \<open>log_operation\<close>); signed bytes of different
    messages differ; disputes are decided by re-execution, of a witness the disputer chooses; the
    spending tracker enforces its sliding window exactly; revocations are permanent and open to
    anyone; two honest agents complete a negotiation over any mailbox transport (the locale
    \<open>mailbox_transport\<close>, interpreted for the bus); what an agent's local view always
    contains (the locale \<open>handler_invariant\<close>, which proves invariants of the message handlers, interpreted
    for the view and for the spending tracker). \<open>Agent_Spending\<close>: the runtime enforces the signed spending
    policy over the whole life of an agent.
    \<open>Agent_Examples\<close>: the three example agents run to their ends for every key generator, the trades
    settle in both logs and the lying executors are slashed.
  \<^item> \<open>Agility_Properties\<close>: varint prefixes round-trip and the decoder's exact behaviour; hybrid
    signatures need both components; prefixed signatures are accepted (the locale \<open>signature_scheme\<close>,
    interpreted for both schemes) and malleable; witness encryption round-trips (over the locale
    \<open>key_encapsulation\<close>), accepts exactly what its AEAD opens, and panics exactly on a secret key of
    the wrong length.
  \<^item> \<open>Legacy_Properties\<close>, \<open>Legacy_Binaries_Laws\<close> and \<open>Pilot\<close>: sparse products equal dense ones, bit for bit on
    compressed rows and up to the sign of zero on the fast path; the in-place attention step
    computes its formula whatever the scratch buffers held (the forward pass uses it through the
    locale \<open>attention_cache\<close>); a file that loads gives a shaped
    model and generation from a shaped model returns, one token later than its bound says;
    a gate sweep that succeeds has shown the loaded model to agree with the ternary network on
    every vector; the dump of logits and the runner generate the same tokens;
    the pilot ends successfully with the intended balances.

  \<^bold>\<open>Not modelled.\<close> The parsing of command lines, the HTTP server around the one route, and what the
  external program computes (its output is a parameter); thread scheduling (the gate sweep runs
  its independent vectors in order, and one turn of the production loop is one step, although the
  program releases its locks between taking the batch, writing the accounts and storing the
  header, so that a submission can be validated against a state in the middle of a block); log
  and progress output; derived serialisation; wiping of memory and constant-time behaviour;
  failed allocations; the C sources of the primitives, scripts, the Lean files and the tests.
\<close>

end
